(* ===== verification/Prelude.thy ===== *)
theory Prelude
  imports Main "HOL-Library.AList" "HOL-Library.Word" "HOL-Library.Sublist"
begin

text \<open>
  Shared vocabulary of the development: the types that name Go's byte slices,
  instants and durations, list updates by key as the Go code writes them
  (a loop over a slice that replaces or removes by ID), and the collections of
  rewrite rules the component theories extend.

  Time is an integer number of nanoseconds counted from Go's zero time, so that
  \<^verbatim>\<open>t.IsZero()\<close> is \<^prop>\<open>t = (0::int)\<close>.
\<close>

named_theorems nodra_inv \<open>preservation of component invariants\<close>
named_theorems nodra_key \<open>rules about lookup by key\<close>

type_synonym bytes = "8 word list"
type_synonym time = int
type_synonym duration = int

abbreviation second :: duration where
  "second \<equiv> 1000000000"

abbreviation minute :: duration where
  "minute \<equiv> 60 * second"

abbreviation hour :: duration where
  "hour \<equiv> 60 * minute"

text \<open>The loop \<^verbatim>\<open>for i := range xs { if p(xs[i]) { xs[i] = y; ...; return } }\<close>.\<close>

fun replace_first :: "('a \<Rightarrow> bool) \<Rightarrow> 'a \<Rightarrow> 'a list \<Rightarrow> 'a list" where
  "replace_first p y [] = []"
| "replace_first p y (x # xs) = (if p x then y # xs else x # replace_first p y xs)"

text \<open>The same loop followed by an append when nothing matched.\<close>

definition upsert :: "('a \<Rightarrow> bool) \<Rightarrow> 'a \<Rightarrow> 'a list \<Rightarrow> 'a list" where
  "upsert p y xs = (if (\<exists>x \<in> set xs. p x) then replace_first p y xs else xs @ [y])"

text \<open>\<^verbatim>\<open>if len(xs) > n { xs = xs[len(xs)-n:] }\<close>: keep the newest n elements.\<close>

definition keep_last :: "nat \<Rightarrow> 'a list \<Rightarrow> 'a list" where
  "keep_last n xs = drop (length xs - n) xs"

lemma length_keep_last [simp]: "length (keep_last n xs) = min n (length xs)"
  by (simp add: keep_last_def)

lemma keep_last_id [simp]: "length xs \<le> n \<Longrightarrow> keep_last n xs = xs"
  by (simp add: keep_last_def)

lemma set_keep_last: "set (keep_last n xs) \<subseteq> set xs"
  by (simp add: keep_last_def set_drop_subset)

lemma last_keep_last: "0 < n \<Longrightarrow> xs \<noteq> [] \<Longrightarrow> last (keep_last n xs) = last xs"
  by (auto simp: keep_last_def intro!: last_drop)

lemma keep_last_Nil_iff [simp]: "keep_last n xs = [] \<longleftrightarrow> n = 0 \<or> xs = []"
  by (metis length_0_conv length_keep_last min_0L min_0R min_def)

lemma distinct_keep_last: "distinct xs \<Longrightarrow> distinct (keep_last n xs)"
  by (simp add: keep_last_def)

lemma length_replace_first [simp]: "length (replace_first p y xs) = length xs"
  by (induction xs) auto

lemma replace_first_no [simp]: "\<forall>x \<in> set xs. \<not> p x \<Longrightarrow> replace_first p y xs = xs"
  by (induction xs) auto

lemma set_replace_first: "set (replace_first p y xs) \<subseteq> insert y (set xs)"
  by (induction xs) auto

lemma map_replace_first [nodra_key]:
  "(\<And>x. p x \<Longrightarrow> f x = f y) \<Longrightarrow> map f (replace_first p y xs) = map f xs"
  by (induction xs) auto

lemma find_replace_first_same [nodra_key]:
  "f y = k \<Longrightarrow> \<exists>x \<in> set xs. f x = k \<Longrightarrow>
   find (\<lambda>x. f x = k) (replace_first (\<lambda>x. f x = k) y xs) = Some y"
  by (induction xs) auto

lemma find_replace_first_other [nodra_key]:
  "f y = k \<Longrightarrow> j \<noteq> k \<Longrightarrow>
   find (\<lambda>x. f x = j) (replace_first (\<lambda>x. f x = k) y xs) = find (\<lambda>x. f x = j) xs"
  by (induction xs) auto

lemma find_append: "find p (xs @ ys) = (case find p xs of None \<Rightarrow> find p ys | Some x \<Rightarrow> Some x)"
  by (induction xs) auto

lemma find_None_iff_all: "find p xs = None \<longleftrightarrow> (\<forall>x \<in> set xs. \<not> p x)"
  by (auto simp: find_None_iff)

lemma find_upsert_same [nodra_key]:
  assumes "f y = k"
  shows "find (\<lambda>x. f x = k) (upsert (\<lambda>x. f x = k) y xs) = Some y"
proof (cases "\<exists>x \<in> set xs. f x = k")
  case True
  then show ?thesis using assms by (simp add: upsert_def find_replace_first_same)
next
  case False
  then have "find (\<lambda>x. f x = k) xs = None" by (simp add: find_None_iff_all)
  then show ?thesis using assms False by (simp add: upsert_def find_append)
qed

lemma find_upsert_other [nodra_key]:
  "f y = k \<Longrightarrow> j \<noteq> k \<Longrightarrow> find (\<lambda>x. f x = j) (upsert (\<lambda>x. f x = k) y xs) = find (\<lambda>x. f x = j) xs"
  by (auto simp: upsert_def find_replace_first_other find_append split: option.splits)

lemma distinct_upsert [nodra_key]:
  "f y = k \<Longrightarrow> distinct (map f xs) \<Longrightarrow> distinct (map f (upsert (\<lambda>x. f x = k) y xs))"
  by (auto simp: upsert_def map_replace_first)

lemma find_filter_other [nodra_key]:
  "j \<noteq> k \<Longrightarrow> find (\<lambda>x. f x = j) (filter (\<lambda>x. f x \<noteq> k) xs) = find (\<lambda>x. f x = j) xs"
  by (induction xs) auto

lemma find_filter_same [nodra_key]:
  "find (\<lambda>x. f x = k) (filter (\<lambda>x. f x \<noteq> k) xs) = None"
  by (induction xs) auto

end
