(* ===== verification/Mqtt_Codec.thy ===== *)
theory Mqtt_Codec
  imports Go_Strings
begin

unbundle bit_operations_syntax

text \<open>
  The wire format of \<^verbatim>\<open>internal/mqtt/broker.go\<close>: packet framing with its
  variable-length size, length-prefixed strings, and the parsers of CONNECT, PUBLISH
  and SUBSCRIBE.  A packet is a list of bytes; a reader returns what it decoded and
  the bytes that follow, and \<^const>\<open>None\<close> for each error return of the source.
\<close>

subsection \<open>Bytes\<close>

definition str_of :: "bytes \<Rightarrow> string" where
  "str_of bs = map (\<lambda>b. char_of (unat b)) bs"

definition bytes_of :: "string \<Rightarrow> bytes" where
  "bytes_of s = map (\<lambda>c. word_of_nat (of_char c)) s"

text \<open>\<^verbatim>\<open>binary.BigEndian.Uint16\<close>, and the bytes \<^verbatim>\<open>byte(n>>8), byte(n)\<close> of a number.\<close>

definition be16 :: "8 word \<Rightarrow> 8 word \<Rightarrow> 16 word" where
  "be16 a b = word_of_nat (256 * unat a + unat b)"

definition bytes16 :: "nat \<Rightarrow> bytes" where
  "bytes16 n = [word_of_nat (n div 256), word_of_nat n]"

subsection \<open>Framing\<close>

fun read_len :: "nat \<Rightarrow> nat \<Rightarrow> nat \<Rightarrow> bytes \<Rightarrow> (nat \<times> bytes) option" where
  "read_len i n mul [] = None"
| "read_len i n mul (b # bs) =
     (let n' = n + unat (b AND 127) * mul
      in if b AND 128 = 0 then Some (n', bs)
         else if i = 3 then None
         else read_len (i + 1) n' (mul * 128) bs)"

definition readPacket :: "bytes \<Rightarrow> (8 word \<times> 8 word \<times> bytes \<times> bytes) option" where
  "readPacket r =
     (case r of
        [] \<Rightarrow> None
      | h # r' \<Rightarrow>
          (case read_len 0 0 1 r' of
             None \<Rightarrow> None
           | Some (n, r'') \<Rightarrow>
               if 16 * 2 ^ 20 < n then None
               else if length r'' < n then None
               else Some (drop_bit 4 h, h AND 15, take n r'', drop n r'')))"

fun encodeRemaining :: "nat \<Rightarrow> bytes" where
  "encodeRemaining n =
     (if n div 128 > 0 then (word_of_nat (n mod 128) OR 128) # encodeRemaining (n div 128)
      else [word_of_nat (n mod 128)])"

declare encodeRemaining.simps [simp del]

definition frame :: "8 word \<Rightarrow> bytes \<Rightarrow> bytes" where
  "frame h body = h # encodeRemaining (length body) @ body"

subsection \<open>Strings\<close>

definition readString :: "bytes \<Rightarrow> (string \<times> bytes) option" where
  "readString p =
     (case p of
        a # b # r \<Rightarrow>
          (let n = unat (be16 a b)
           in if length r < n then None else Some (str_of (take n r), drop n r))
      | _ \<Rightarrow> None)"

definition appendString :: "bytes \<Rightarrow> string \<Rightarrow> bytes" where
  "appendString dst s = dst @ bytes16 (length s) @ bytes_of s"

subsection \<open>Packets\<close>

record connect_info =
  ci_cleanSession :: bool
  ci_clientID :: string
  ci_username :: string
  ci_password :: string

definition skipString :: "bytes \<Rightarrow> bytes option" where
  "skipString p = map_option snd (readString p)"

definition parseConnect :: "bytes \<Rightarrow> connect_info option" where
  "parseConnect p =
     (case readString p of
        None \<Rightarrow> None
      | Some (proto, rest) \<Rightarrow>
          if proto \<noteq> ''MQTT'' \<or> length rest < 4 \<or> rest ! 0 \<noteq> 4 then None
          else let flags = rest ! 1 in
            case readString (drop 4 rest) of
              None \<Rightarrow> None
            | Some (clientID, payload) \<Rightarrow>
                (case (if flags AND 0x04 \<noteq> 0 then Option.bind (skipString payload) skipString else Some payload) of
                   None \<Rightarrow> None
                 | Some payload \<Rightarrow>
                     (case (if flags AND 0x80 \<noteq> 0 then readString payload else Some ([], payload)) of
                        None \<Rightarrow> None
                      | Some (username, payload) \<Rightarrow>
                          (case (if flags AND 0x40 \<noteq> 0
                                 then (if flags AND 0x80 = 0 then None else map_option fst (readString payload))
                                 else Some []) of
                             None \<Rightarrow> None
                           | Some password \<Rightarrow>
                               let clean = (flags AND 0x02 \<noteq> 0)
                               in if \<not> clean \<and> clientID = [] then None
                                  else Some \<lparr>ci_cleanSession = clean, ci_clientID = clientID,
                                    ci_username = username, ci_password = password\<rparr>))))"

definition parsePublish :: "8 word \<Rightarrow> bytes \<Rightarrow> (string \<times> bytes \<times> 8 word \<times> 16 word) option" where
  "parsePublish flags p =
     (case readString p of
        None \<Rightarrow> None
      | Some (topic, rest) \<Rightarrow>
          if topic = [] then None
          else let qos = drop_bit 1 flags AND 3 in
            if 2 < qos then None
            else if 0 < qos then
              (case rest of
                 a # b # body \<Rightarrow> Some (topic, body, qos, be16 a b)
               | _ \<Rightarrow> None)
            else Some (topic, rest, qos, 0))"

type_synonym subscription = "string \<times> 8 word"

fun parse_filters :: "nat \<Rightarrow> bytes \<Rightarrow> subscription list option" where
  "parse_filters 0 p = (if p = [] then Some [] else None)"
| "parse_filters (Suc k) p =
     (if p = [] then Some []
      else case readString p of
        None \<Rightarrow> None
      | Some (f, rest) \<Rightarrow>
          (case rest of
             [] \<Rightarrow> None
           | q # rest' \<Rightarrow>
               if 2 < q then None
               else map_option (\<lambda>out. (f, q) # out) (parse_filters k rest')))"

text \<open>The loop of \<^verbatim>\<open>parseSubscribe\<close> consumes at least three bytes a round, so the
  length of the payload bounds the rounds.\<close>

definition parseSubscribe :: "bytes \<Rightarrow> (16 word \<times> subscription list) option" where
  "parseSubscribe p =
     (case p of
        a # b # p' \<Rightarrow>
          (case parse_filters (length p') p' of
             None \<Rightarrow> None
           | Some out \<Rightarrow> if out = [] then None else Some (be16 a b, out))
      | _ \<Rightarrow> None)"

text \<open>The bytes the broker writes: acknowledgements with a packet identifier, the
  SUBACK with its one-byte length, and a PUBLISH.\<close>

definition ack :: "8 word \<Rightarrow> 16 word \<Rightarrow> bytes" where
  "ack h pid = [h, 2] @ bytes16 (unat pid)"

definition suback :: "16 word \<Rightarrow> bytes \<Rightarrow> bytes" where
  "suback pid codes = [0x90, word_of_nat (2 + length codes)] @ bytes16 (unat pid) @ codes"

definition publish_header :: "8 word \<Rightarrow> bool \<Rightarrow> 8 word" where
  "publish_header qos dup =
     (let h = (if qos = 1 then 0x30 OR 0x02 else if qos = 2 then 0x30 OR 0x04 else 0x30)
      in if 0 < qos \<and> dup then h OR 0x08 else h)"

definition publish_packet :: "string \<Rightarrow> bytes \<Rightarrow> 8 word \<Rightarrow> bool \<Rightarrow> 16 word \<Rightarrow> bytes" where
  "publish_packet topic payload qos dup pid =
     (let vh = appendString [] topic @ (if 0 < qos then bytes16 (unat pid) else [])
      in frame (publish_header qos dup) (vh @ payload))"

subsection \<open>Lemmas: bytes\<close>

lemma str_of_bytes_of [simp]: "str_of (bytes_of s) = s"
  by (induction s) (auto simp: str_of_def bytes_of_def unat_of_nat)

lemma length_bytes_of [simp]: "length (bytes_of s) = length s"
  by (simp add: bytes_of_def)

lemma length_bytes16 [simp]: "length (bytes16 n) = 2"
  by (simp add: bytes16_def)

lemma be16_bytes16: "n < 65536 \<Longrightarrow> be16 (word_of_nat (n div 256)) (word_of_nat n) = word_of_nat n"
proof -
  assume n: "n < 65536"
  have "unat (word_of_nat (n div 256) :: 8 word) = n div 256" "unat (word_of_nat n :: 8 word) = n mod 256"
    using n by (simp_all add: unat_of_nat)
  then show ?thesis by (simp add: be16_def)
qed

lemma unat_be16_bytes16 [simp]:
  "n < 65536 \<Longrightarrow> unat (be16 (word_of_nat (n div 256)) (word_of_nat n)) = n"
  by (simp add: be16_bytes16 unat_of_nat)

lemma be16_pid [simp]: "be16 (word_of_nat (unat pid div 256)) (ucast pid) = pid"
proof -
  have "unat pid < 65536" using unsigned_less[of pid] by simp
  then show ?thesis using be16_bytes16[of "unat pid"] by simp
qed

lemma low_bits: "k < 128 \<Longrightarrow> unat ((word_of_nat k :: 8 word) AND 127) = k \<and> (word_of_nat k :: 8 word) AND 128 = 0 \<and>
    unat ((word_of_nat k OR 128 :: 8 word) AND 127) = k \<and> (word_of_nat k OR 128 :: 8 word) AND 128 \<noteq> 0"
proof -
  assume k: "k < 128"
  have "list_all (\<lambda>k. unat ((word_of_nat k :: 8 word) AND 127) = k \<and> (word_of_nat k :: 8 word) AND 128 = 0 \<and>
    unat ((word_of_nat k OR 128 :: 8 word) AND 127) = k \<and> (word_of_nat k OR 128 :: 8 word) AND 128 \<noteq> 0) [0..<128]"
    by code_simp
  then show ?thesis using k unfolding list_all_iff by auto
qed

subsection \<open>Lemmas: the remaining length\<close>

lemma read_len_encode:
  "i \<le> 3 \<Longrightarrow> n < 128 ^ (4 - i) \<Longrightarrow>
   read_len i acc mul (encodeRemaining n @ rest) = Some (acc + n * mul, rest)"
proof (induction n arbitrary: i acc mul rule: encodeRemaining.induct)
  case (1 n)
  note b = low_bits[of "n mod 128"]
  show ?case
  proof (cases "n div 128 > 0")
    case False
    then have "n mod 128 = n" by simp
    then show ?thesis using False b by (subst encodeRemaining.simps) (simp add: Let_def)
  next
    case True
    have "i \<noteq> 3"
    proof
      assume "i = 3"
      then show False using 1(3) True by simp
    qed
    then have i: "i + 1 \<le> 3" "4 - i = Suc (4 - (i + 1))" using 1(2) by auto
    then have "n div 128 < 128 ^ (4 - (i + 1))"
      using 1(3) by (simp add: less_mult_imp_div_less mult.commute)
    then have ih: "read_len (i + 1) a m (encodeRemaining (n div 128) @ rest) = Some (a + n div 128 * m, rest)" for a m
      using 1(1)[OF True i(1)] by blast
    have "acc + r * mul + k * (mul * 128) = acc + (k * 128 + r) * mul" for k r :: nat
      by (simp add: algebra_simps)
    from this[of "n mod 128" "n div 128"]
    have sum: "acc + n mod 128 * mul + n div 128 * (mul * 128) = acc + n * mul"
      by (simp only: div_mult_mod_eq)
    show ?thesis
      using True b \<open>i \<noteq> 3\<close> ih[of "acc + n mod 128 * mul" "mul * 128"] sum
      by (subst encodeRemaining.simps) (simp add: Let_def)
  qed
qed

lemma readPacket_frame:
  assumes "length body \<le> 16 * 2 ^ 20"
  shows "readPacket (frame h body @ rest) = Some (drop_bit 4 h, h AND 15, body, rest)"
  using assms read_len_encode[of 0 "length body" 0 1 "body @ rest"]
  by (simp add: readPacket_def frame_def)

lemma read_len_shorter: "read_len i n mul bs = Some (k, r) \<Longrightarrow> length r < length bs"
  by (induction i n mul bs rule: read_len.induct) (auto simp: Let_def split: if_splits)

lemma read_len_shorter2:
  "read_len i n mul (b # bs) = Some (k, r) \<Longrightarrow> b AND 128 \<noteq> 0 \<Longrightarrow> length r < length bs"
  by (auto simp: Let_def split: if_splits dest: read_len_shorter)

subsection \<open>A contract for length-prefixed encodings\<close>

text \<open>An encoder and a decoder that consumes exactly what the encoder wrote, for the
  values that fit.  Decoding a concatenation element by element gives the elements
  back, and the size of the input bounds the number of rounds.\<close>

locale wire_codec =
  fixes enc :: "'a \<Rightarrow> bytes" and dec :: "bytes \<Rightarrow> ('a \<times> bytes) option" and ok :: "'a \<Rightarrow> bool"
  assumes dec_enc: "ok x \<Longrightarrow> dec (enc x @ rest) = Some (x, rest)"
    and enc_nonempty: "enc x \<noteq> []"
begin

fun dec_all :: "nat \<Rightarrow> bytes \<Rightarrow> 'a list option" where
  "dec_all 0 p = (if p = [] then Some [] else None)"
| "dec_all (Suc k) p =
     (if p = [] then Some []
      else case dec p of None \<Rightarrow> None | Some (x, r) \<Rightarrow> map_option ((#) x) (dec_all k r))"

lemma length_enc_le: "length xs \<le> length (concat (map enc xs))"
proof (induction xs)
  case (Cons x xs)
  then show ?case using enc_nonempty[of x] by (cases "enc x") auto
qed simp

lemma dec_all_enc: "list_all ok xs \<Longrightarrow> length xs \<le> k \<Longrightarrow> dec_all k (concat (map enc xs)) = Some xs"
proof (induction xs arbitrary: k)
  case Nil
  then show ?case by (cases k) auto
next
  case (Cons x xs)
  then obtain m where "k = Suc m" by (cases k) auto
  then show ?case using Cons enc_nonempty[of x] by (simp add: dec_enc)
qed

lemma enc_inj:
  assumes "ok x" "ok y" "enc x = enc y"
  shows "x = y"
  using dec_enc[OF assms(1), of "[]"] dec_enc[OF assms(2), of "[]"] assms(3) by simp

end

definition short_string :: "string \<Rightarrow> bool" where
  "short_string s \<longleftrightarrow> length s < 65536"

lemma readString_append:
  "short_string s \<Longrightarrow> readString (appendString [] s @ rest) = Some (s, rest)"
  by (simp add: readString_def appendString_def bytes16_def short_string_def)

lemma appendString_nonempty: "appendString [] s \<noteq> []"
  by (simp add: appendString_def bytes16_def)

interpretation mstr: wire_codec "appendString []" readString short_string
  by unfold_locales (simp_all add: readString_append appendString_nonempty)

text \<open>One filter of a SUBSCRIBE payload: a string and a requested QoS.\<close>

definition enc_sub :: "subscription \<Rightarrow> bytes" where
  "enc_sub s = appendString [] (fst s) @ [snd s]"

definition dec_sub :: "bytes \<Rightarrow> (subscription \<times> bytes) option" where
  "dec_sub p =
     (case readString p of
        None \<Rightarrow> None
      | Some (f, rest) \<Rightarrow>
          (case rest of [] \<Rightarrow> None | q # rest' \<Rightarrow> if 2 < q then None else Some ((f, q), rest')))"

definition sub_ok :: "subscription \<Rightarrow> bool" where
  "sub_ok s \<longleftrightarrow> short_string (fst s) \<and> snd s \<le> 2"

interpretation msub: wire_codec enc_sub dec_sub sub_ok
  by unfold_locales (auto simp: enc_sub_def dec_sub_def sub_ok_def mstr.dec_enc)

lemma parse_filters_Suc:
  "parse_filters (Suc k) p =
     (if p = [] then Some []
      else case dec_sub p of None \<Rightarrow> None | Some (x, r) \<Rightarrow> map_option ((#) x) (parse_filters k r))"
  by (auto simp: dec_sub_def split: option.splits list.splits)

lemma parse_filters_dec_all: "parse_filters k p = msub.dec_all k p"
  by (induction k arbitrary: p) (simp_all add: parse_filters_Suc del: parse_filters.simps(2) split: option.splits)

lemma parseSubscribe_enc:
  assumes "list_all sub_ok subs" "subs \<noteq> []"
  shows "parseSubscribe (bytes16 (unat pid) @ concat (map enc_sub subs)) = Some (pid, subs)"
  using assms msub.dec_all_enc[OF assms(1) msub.length_enc_le]
  by (simp add: parseSubscribe_def bytes16_def parse_filters_dec_all)

subsection \<open>Lemmas: PUBLISH\<close>

lemma publish_header_bits:
  "qos \<in> {0, 1, 2} \<Longrightarrow>
   drop_bit 4 (publish_header qos dup) = 3 \<and>
   drop_bit 1 (publish_header qos dup AND 15) AND 3 = qos \<and>
   (publish_header qos dup AND 8 \<noteq> 0 \<longleftrightarrow> dup \<and> 0 < qos)"
  by (elim insertE; cases dup; simp add: publish_header_def Let_def)

lemma parsePublish_body:
  assumes "short_string topic" "topic \<noteq> []" "drop_bit 1 flags AND 3 = qos" "qos \<le> 2"
  shows "parsePublish flags (appendString [] topic @ (if 0 < qos then bytes16 (unat pid) else []) @ payload) =
    Some (topic, payload, qos, if 0 < qos then pid else 0)"
  using assms by (simp add: parsePublish_def mstr.dec_enc bytes16_def Let_def not_less)

subsection \<open>Properties\<close>

text \<open>C12: a subscriber that decodes what \<^verbatim>\<open>sendPublish\<close> writes gets the message back:
  topic, payload, QoS, duplicate flag and packet identifier, and the stream is left at
  the first byte after the packet, for every topic below 64 KiB and packet within the
  16 MiB the reader accepts.\<close>

theorem publish_roundtrip:
  assumes "topic \<noteq> []" and "length topic < 65536" and "qos \<in> {0, 1, 2}"
    and "length topic + 4 + length payload \<le> 16 * 2 ^ 20"
  shows "\<exists>flags body. readPacket (publish_packet topic payload qos dup pid @ rest) = Some (3, flags, body, rest) \<and>
    parsePublish flags body = Some (topic, payload, qos, if 0 < qos then pid else 0) \<and>
    (flags AND 8 \<noteq> 0 \<longleftrightarrow> dup \<and> 0 < qos)"
proof -
  let ?h = "publish_header qos dup"
  let ?body = "appendString [] topic @ (if 0 < qos then bytes16 (unat pid) else []) @ payload"
  have hb: "drop_bit 4 ?h = 3" "drop_bit 1 (?h AND 15) AND 3 = qos" "?h AND 8 \<noteq> 0 \<longleftrightarrow> dup \<and> 0 < qos"
    using publish_header_bits[OF assms(3)] by blast+
  have dup: "(?h AND 15) AND 8 = ?h AND 8" unfolding and.assoc by simp
  have "length ?body \<le> 16 * 2 ^ 20" using assms(4) by (simp add: appendString_def)
  then have rd: "readPacket (publish_packet topic payload qos dup pid @ rest) = Some (3, ?h AND 15, ?body, rest)"
    using readPacket_frame[of ?body ?h rest] hb(1) by (simp add: publish_packet_def Let_def)
  have ps: "parsePublish (?h AND 15) ?body = Some (topic, payload, qos, if 0 < qos then pid else 0)"
    using assms hb(2) by (intro parsePublish_body) (auto simp: short_string_def)
  show ?thesis
    by (rule exI[of _ "?h AND 15"], rule exI[of _ ?body], intro conjI, rule rd, rule ps, simp only: dup hb(3))
qed

theorem publish_roundtrip_witness:
  "\<exists>flags body. readPacket (publish_packet ''a/b'' [1, 2] 2 True 7 @ [0xC0]) = Some (3, flags, body, [0xC0]) \<and>
    parsePublish flags body = Some (''a/b'', [1, 2], 2, if 0 < (2 :: 8 word) then 7 else 0) \<and>
    (flags AND 8 \<noteq> 0 \<longleftrightarrow> True \<and> 0 < (2 :: 8 word))"
  by (rule publish_roundtrip) simp_all

text \<open>C13: a SUBSCRIBE built from any nonempty list of filters with a QoS of at most 2 is
  parsed to exactly its packet identifier and that list, in order.\<close>

theorem subscribe_roundtrip:
  assumes "subs \<noteq> []" and "\<forall>(f, q) \<in> set subs. length f < 65536 \<and> q \<le> 2"
  shows "parseSubscribe (bytes16 (unat pid) @ concat (map enc_sub subs)) = Some (pid, subs)"
  using assms by (intro parseSubscribe_enc) (auto simp: list_all_iff sub_ok_def short_string_def)

theorem subscribe_roundtrip_witness:
  "parseSubscribe (bytes16 (unat (9 :: 16 word)) @ concat (map enc_sub [(''a/#'', 1), (''+'', 0)])) =
     Some (9, [(''a/#'', 1), (''+'', 0)])"
  by (rule subscribe_roundtrip) simp_all

text \<open>C14: the SUBACK the broker writes is one well-formed packet exactly when it answers
  at most 125 filters.  Its length is written as a single byte, so from 126 filters on the
  packet says something else than what follows.\<close>

theorem suback_wellformed:
  "readPacket (suback pid codes) = Some (9, 0, bytes16 (unat pid) @ codes, []) \<longleftrightarrow> length codes \<le> 125"
proof
  assume le: "length codes \<le> 125"
  let ?n = "2 + length codes"
  have "encodeRemaining ?n = [word_of_nat ?n]" using le by (subst encodeRemaining.simps) simp
  then have "suback pid codes = frame 0x90 (bytes16 (unat pid) @ codes) @ []"
    by (simp add: suback_def frame_def)
  then show "readPacket (suback pid codes) = Some (9, 0, bytes16 (unat pid) @ codes, [])"
    using readPacket_frame[of "bytes16 (unat pid) @ codes" "0x90" "[]"] le by simp
next
  assume r: "readPacket (suback pid codes) = Some (9, 0, bytes16 (unat pid) @ codes, [])"
  let ?b = "word_of_nat (2 + length codes) :: 8 word"
  obtain n r'' where l: "read_len 0 0 1 (?b # bytes16 (unat pid) @ codes) = Some (n, r'')" "n \<le> length r''"
    "take n r'' = bytes16 (unat pid) @ codes"
    using r by (auto simp: readPacket_def suback_def split: option.splits if_splits)
  have n: "n = 2 + length codes" using l(2) arg_cong[OF l(3), of length] by simp
  show "length codes \<le> 125"
  proof (cases "?b AND 128 = 0")
    case True
    then have "n = unat (?b AND 127)" using l(1) by (simp add: Let_def)
    also have "\<dots> \<le> 127" using word_and_le1[of ?b 127] by (simp add: word_le_nat_alt)
    finally show ?thesis using n by simp
  next
    case False
    then show ?thesis using read_len_shorter2[OF l(1)] l(2) n by simp
  qed
qed
end
