(* ===== verification/Router.thy ===== *)
theory Router
  imports Go_Strings
begin

text \<open>
  Topic matching, \<^verbatim>\<open>internal/router/router.go\<close>: the wildcard matcher the broker,
  the sessions, the local and the cloud routes and the MQTT access lists all call.
\<close>

subsection \<open>Model\<close>

text \<open>The loop over the filter's levels: one call is one iteration, on what is
  left of both slices; the base case is the comparison of the lengths after the loop.\<close>

fun match_levels :: "string list \<Rightarrow> string list \<Rightarrow> bool" where
  "match_levels [] t = (t = [])"
| "match_levels (x # f) t =
     (if x = ''#'' then f = []
      else (case t of
              [] \<Rightarrow> False
            | y # t' \<Rightarrow> if x \<noteq> ''+'' \<and> x \<noteq> y then False else match_levels f t'))"

definition levels :: "string \<Rightarrow> string list" where
  "levels s = split_on CHR ''/'' (trim_char CHR ''/'' s)"

definition Match :: "string \<Rightarrow> string \<Rightarrow> bool" where
  "Match flt topic = match_levels (levels flt) (levels topic)"

subsection \<open>What a filter means\<close>

text \<open>The specification, with no loop in it: level by level, or the levels before
  a final \<^verbatim>\<open>#\<close> against a prefix of the topic.\<close>

definition level_ok :: "string \<Rightarrow> string \<Rightarrow> bool" where
  "level_ok x y \<longleftrightarrow> x = ''+'' \<or> x = y"

definition filter_accepts :: "string list \<Rightarrow> string list \<Rightarrow> bool" where
  "filter_accepts f t \<longleftrightarrow>
     ''#'' \<notin> set f \<and> list_all2 level_ok f t \<or>
     (\<exists>pre. f = pre @ [''#''] \<and> ''#'' \<notin> set pre \<and>
            length pre \<le> length t \<and> list_all2 level_ok pre (take (length pre) t))"

subsection \<open>Lemmas\<close>

lemma filter_accepts_Nil: "filter_accepts [] t \<longleftrightarrow> t = []"
  by (auto simp: filter_accepts_def)

lemma filter_accepts_hash: "filter_accepts (''#'' # f) t \<longleftrightarrow> f = []"
  by (auto simp: filter_accepts_def Cons_eq_append_conv)

lemma filter_accepts_Cons_Nil: "x \<noteq> ''#'' \<Longrightarrow> \<not> filter_accepts (x # f) []"
  by (auto simp: filter_accepts_def Cons_eq_append_conv)

lemma filter_accepts_Cons_Cons:
  "x \<noteq> ''#'' \<Longrightarrow> filter_accepts (x # f) (y # t) \<longleftrightarrow> level_ok x y \<and> filter_accepts f t"
  by (auto simp: filter_accepts_def Cons_eq_append_conv)

lemma match_levels_spec: "match_levels f t \<longleftrightarrow> filter_accepts f t"
proof (induction f t rule: match_levels.induct)
  case (1 t)
  then show ?case by (simp add: filter_accepts_Nil)
next
  case (2 x f t)
  then show ?case
    by (cases t) (auto simp: filter_accepts_hash filter_accepts_Cons_Nil
        filter_accepts_Cons_Cons level_ok_def)
qed

lemma match_levels_refl: "''#'' \<notin> set f \<Longrightarrow> match_levels f f"
  by (induction f) auto

lemma match_hash: "Match ''#'' topic"
  by (simp add: Match_def levels_def trim_char_def)

subsection \<open>Properties\<close>

text \<open>C1: \<^verbatim>\<open>router.Match\<close> accepts exactly the topics its filter denotes: with no
  \<^verbatim>\<open>#\<close> level, those of the same depth that agree level by level up to \<^verbatim>\<open>+\<close>; with
  a final \<^verbatim>\<open>#\<close>, those whose first levels agree with what precedes it (the parent
  level included); and none when a \<^verbatim>\<open>#\<close> is not the last level.\<close>

theorem Match_iff_filter_accepts:
  "Match flt topic \<longleftrightarrow> filter_accepts (levels flt) (levels topic)"
  by (simp add: Match_def match_levels_spec)

end
