(* ===== verification/Queue.thy ===== *)
theory Queue
  imports Go_Strings "HOL-Library.Multiset"
begin

text \<open>
  The durable queue, \<^verbatim>\<open>internal/queue/queue.go\<close>: an in-memory index over an
  append-only log that is replayed when the queue is opened and rewritten every
  4096 appends.

  The log file is part of the state, as the list of its lines.  Every append
  consumes one outcome of the file system from \<^verbatim>\<open>q_io\<close> (none left: everything
  works), so that each error return of the source is a branch here: a write that
  fails, with or without bytes left in the file, a failing fsync, and each stage
  at which compaction can give up.  A value is written through the JSON codec
  passed to the operations.  Sequence numbers are counted in \<^typ>\<open>nat\<close>: one
  fsync per increment keeps the 64-bit counter from wrapping.
\<close>

subsection \<open>State\<close>

record options =
  op_MaxItems :: int
  op_MaxBytes :: int
  op_Policy :: string

record wal_record =
  r_Op :: string
  r_ID :: string
  r_Seq :: nat
  r_Data :: string

record 'v entry =
  e_ID :: string
  e_Seq :: nat
  e_Data :: 'v
  e_Bytes :: int

text \<open>A line of the log: a record, the unterminated rest of a write that failed, or a
  line that no longer parses.\<close>

datatype wal_line = Rec wal_record | Partial | Garbage

text \<open>How far compaction gets, and what one append meets.\<close>

datatype compact_outcome = CompactDone | TmpFails | RenameFails | ReopenFails

datatype io_outcome = AppendDone compact_outcome | WriteFails bool | SyncFails

record 'v codec =
  marshal :: "'v \<Rightarrow> string option"
  unmarshal :: "string \<Rightarrow> 'v option"

record 'v queue =
  q_items :: "(string \<times> 'v entry) list"
  q_seq :: nat
  q_bytes :: int
  q_ops :: nat
  q_opts :: options
  q_wal :: "wal_line list"
  q_open :: bool
  q_io :: "io_outcome list"

record queue_stats =
  qs_Items :: nat
  qs_Bytes :: int
  qs_MaxItems :: int
  qs_MaxBytes :: int
  qs_Policy :: string

datatype queue_error = ErrFull | IDRequired | MarshalFails | IOFails | BadPolicy | BadWal | BadValue

subsection \<open>Opening and replay\<close>

definition replay_record :: "'v codec \<Rightarrow> wal_record \<Rightarrow> 'v queue \<Rightarrow> queue_error + 'v queue" where
  "replay_record cd r q0 =
     (let q = q0\<lparr>q_seq := max (q_seq q0) (r_Seq r)\<rparr>
      in if r_Op r = ''put'' then
           (case unmarshal cd (r_Data r) of
              None \<Rightarrow> Inl BadValue
            | Some v \<Rightarrow>
                let b = (case map_of (q_items q) (r_ID r) of
                           None \<Rightarrow> q_bytes q | Some old \<Rightarrow> q_bytes q - e_Bytes old);
                    n = int (length (r_Data r))
                in Inr (q\<lparr>q_items := AList.update (r_ID r)
                       \<lparr>e_ID = r_ID r, e_Seq = r_Seq r, e_Data = v, e_Bytes = n\<rparr> (q_items q),
                     q_bytes := b + n\<rparr>))
         else if r_Op r = ''del'' then
           (case map_of (q_items q) (r_ID r) of
              None \<Rightarrow> Inr q
            | Some old \<Rightarrow> Inr (q\<lparr>q_bytes := q_bytes q - e_Bytes old,
                                  q_items := AList.delete (r_ID r) (q_items q)\<rparr>))
         else Inr q)"

fun replay :: "'v codec \<Rightarrow> wal_line list \<Rightarrow> 'v queue \<Rightarrow> queue_error + 'v queue" where
  "replay cd [] q = Inr q"
| "replay cd (Rec r # ls) q =
     (case replay_record cd r q of Inl e \<Rightarrow> Inl e | Inr q' \<Rightarrow> replay cd ls q')"
| "replay cd (Partial # ls) q = Inl BadWal"
| "replay cd (Garbage # ls) q = Inl BadWal"

text \<open>The queue a file is replayed into.\<close>

definition fresh_queue :: "options \<Rightarrow> wal_line list \<Rightarrow> 'v queue" where
  "fresh_queue opts wal = \<lparr>q_items = [], q_seq = 0, q_bytes = 0, q_ops = 0, q_opts = opts,
     q_wal = wal, q_open = True, q_io = []\<rparr>"

definition OpenWithOptions :: "'v codec \<Rightarrow> options \<Rightarrow> wal_line list \<Rightarrow> queue_error + 'v queue" where
  "OpenWithOptions cd opts wal =
     (let opts = (if op_Policy opts = [] then opts\<lparr>op_Policy := ''reject''\<rparr> else opts)
      in if op_Policy opts \<notin> set [''reject'', ''drop-oldest'', ''drop-newest''] then Inl BadPolicy
         else replay cd wal (fresh_queue opts wal))"

subsection \<open>Appending and compaction\<close>

definition wal_add :: "wal_line list \<Rightarrow> wal_record \<Rightarrow> wal_line list" where
  "wal_add ls r = (if ls \<noteq> [] \<and> last ls = Partial then butlast ls @ [Garbage] else ls @ [Rec r])"

definition wal_torn :: "wal_line list \<Rightarrow> wal_line list" where
  "wal_torn ls = (if ls \<noteq> [] \<and> last ls = Partial then ls else ls @ [Partial])"

definition sorted_entries :: "'v queue \<Rightarrow> 'v entry list" where
  "sorted_entries q = sort_key e_Seq (map snd (q_items q))"

fun compact_lines :: "'v codec \<Rightarrow> 'v entry list \<Rightarrow> wal_line list option" where
  "compact_lines cd [] = Some []"
| "compact_lines cd (e # es) =
     (case marshal cd (e_Data e) of
        None \<Rightarrow> None
      | Some d \<Rightarrow>
          (case compact_lines cd es of
             None \<Rightarrow> None
           | Some ls \<Rightarrow> Some (Rec \<lparr>r_Op = ''put'', r_ID = e_ID e, r_Seq = e_Seq e, r_Data = d\<rparr> # ls)))"

definition compactLocked ::
  "'v codec \<Rightarrow> compact_outcome \<Rightarrow> 'v queue \<Rightarrow> 'v queue \<times> queue_error option" where
  "compactLocked cd c q =
     (case compact_lines cd (sorted_entries q) of
        None \<Rightarrow> (q, Some MarshalFails)
      | Some ls \<Rightarrow>
          (case c of
             CompactDone \<Rightarrow> (q\<lparr>q_wal := ls, q_ops := 0\<rparr>, None)
           | TmpFails \<Rightarrow> (q, Some IOFails)
           | RenameFails \<Rightarrow> (q\<lparr>q_open := False\<rparr>, Some IOFails)
           | ReopenFails \<Rightarrow> (q\<lparr>q_wal := ls, q_ops := 0, q_open := False\<rparr>, Some IOFails)))"

definition next_io :: "'v queue \<Rightarrow> io_outcome" where
  "next_io q = (case q_io q of [] \<Rightarrow> AppendDone CompactDone | x # _ \<Rightarrow> x)"

definition appendLocked ::
  "'v codec \<Rightarrow> wal_record \<Rightarrow> 'v queue \<Rightarrow> 'v queue \<times> queue_error option" where
  "appendLocked cd r q =
     (if \<not> q_open q then (q, Some IOFails)
      else let q' = q\<lparr>q_io := tl (q_io q)\<rparr>
           in case next_io q of
                WriteFails torn \<Rightarrow>
                  (if torn then q'\<lparr>q_wal := wal_torn (q_wal q)\<rparr> else q', Some IOFails)
              | SyncFails \<Rightarrow> (q'\<lparr>q_wal := wal_add (q_wal q) r\<rparr>, Some IOFails)
              | AppendDone c \<Rightarrow>
                  (let q'' = q'\<lparr>q_wal := wal_add (q_wal q) r, q_ops := q_ops q + 1\<rparr>
                   in if 4096 \<le> q_ops q'' then compactLocked cd c q'' else (q'', None)))"

subsection \<open>Operations\<close>

definition overLimit :: "'v queue \<Rightarrow> int \<Rightarrow> int \<Rightarrow> bool" where
  "overLimit q addItems addBytes \<longleftrightarrow>
     0 < op_MaxItems (q_opts q) \<and> op_MaxItems (q_opts q) < int (length (q_items q)) + addItems \<or>
     0 < op_MaxBytes (q_opts q) \<and> op_MaxBytes (q_opts q) < q_bytes q + addBytes"

fun oldest :: "string \<Rightarrow> nat \<Rightarrow> (string \<times> 'v entry) list \<Rightarrow> string" where
  "oldest i s [] = i"
| "oldest i s ((k, e) # es) = (if i = [] \<or> e_Seq e < s then oldest k (e_Seq e) es else oldest i s es)"

definition oldestIDLocked :: "'v queue \<Rightarrow> string" where
  "oldestIDLocked q = oldest [] 0 (q_items q)"

text \<open>Removing an entry from the index, as both \<^verbatim>\<open>Delete\<close> and the eviction loop do
  after their append.\<close>

definition drop_item :: "string \<Rightarrow> 'v queue \<Rightarrow> 'v queue" where
  "drop_item i q = q\<lparr>
     q_bytes := (case map_of (q_items q) i of None \<Rightarrow> q_bytes q | Some old \<Rightarrow> q_bytes q - e_Bytes old),
     q_items := AList.delete i (q_items q)\<rparr>"

definition del_record :: "string \<Rightarrow> nat \<Rightarrow> wal_record" where
  "del_record i s = \<lparr>r_Op = ''del'', r_ID = i, r_Seq = s, r_Data = []\<rparr>"

definition put_record :: "string \<Rightarrow> nat \<Rightarrow> string \<Rightarrow> wal_record" where
  "put_record i s d = \<lparr>r_Op = ''put'', r_ID = i, r_Seq = s, r_Data = d\<rparr>"

lemma append_items [simp]:
  "q_items (fst (appendLocked cd r q)) = q_items q"
  "q_seq (fst (appendLocked cd r q)) = q_seq q"
  "q_bytes (fst (appendLocked cd r q)) = q_bytes q"
  "q_opts (fst (appendLocked cd r q)) = q_opts q"
  by (auto simp: appendLocked_def compactLocked_def Let_def
      split: io_outcome.splits compact_outcome.splits option.splits)

lemma oldest_mem: "oldest i s es \<in> insert i (fst ` set es)"
  by (induction i s es rule: oldest.induct) auto

lemma oldest_key: "es \<noteq> [] \<Longrightarrow> oldest [] s es \<in> fst ` set es"
  using oldest_mem by (cases es) fastforce+

lemma drop_oldest_shrinks:
  "q_items q \<noteq> [] \<Longrightarrow> length (AList.delete (oldestIDLocked q) (q_items q)) < length (q_items q)"
  using oldest_key[of "q_items q" 0]
  by (auto simp: oldestIDLocked_def AList.delete_eq intro!: length_filter_less)

function evict :: "'v codec \<Rightarrow> int \<Rightarrow> int \<Rightarrow> 'v queue \<Rightarrow> 'v queue \<times> queue_error option" where
  "evict cd addItems addBytes q =
     (if overLimit q addItems addBytes \<and> q_items q \<noteq> [] then
        let oid = oldestIDLocked q;
            r = appendLocked cd (del_record oid (q_seq q + 1)) (q\<lparr>q_seq := q_seq q + 1\<rparr>)
        in case snd r of
             Some err \<Rightarrow> (fst r, Some err)
           | None \<Rightarrow> evict cd addItems addBytes (drop_item oid (fst r))
      else (q, None))"
  by auto
termination
  by (relation "measure (\<lambda>(_, _, _, q). length (q_items q))")
    (auto simp: drop_item_def drop_oldest_shrinks)

declare evict.simps [simp del]

definition Put :: "'v codec \<Rightarrow> string \<Rightarrow> 'v \<Rightarrow> 'v queue \<Rightarrow> 'v queue \<times> queue_error option" where
  "Put cd i v q =
     (if i = [] then (q, Some IDRequired)
      else case marshal cd v of
        None \<Rightarrow> (q, Some MarshalFails)
      | Some data \<Rightarrow>
          let old = map_of (q_items q) i;
              n = int (length data);
              addItems = (case old of None \<Rightarrow> 1 | Some _ \<Rightarrow> 0);
              addBytes = (case old of None \<Rightarrow> n | Some e \<Rightarrow> n - e_Bytes e);
              room = (if \<not> overLimit q addItems addBytes then (q, None)
                      else if op_Policy (q_opts q) = ''drop-oldest'' then
                        (case evict cd addItems addBytes q of
                           (q', Some err) \<Rightarrow> (q', Some err)
                         | (q', None) \<Rightarrow> (q', if overLimit q' addItems addBytes then Some ErrFull else None))
                      else (q, Some ErrFull))
          in case room of
               (q', Some err) \<Rightarrow> (q', Some err)
             | (q', None) \<Rightarrow>
                 (case appendLocked cd (put_record i (q_seq q' + 1) data) (q'\<lparr>q_seq := q_seq q' + 1\<rparr>) of
                    (q'', Some err) \<Rightarrow> (q'', Some err)
                  | (q'', None) \<Rightarrow>
                      (q''\<lparr>q_bytes := (case old of None \<Rightarrow> q_bytes q'' | Some e \<Rightarrow> q_bytes q'' - e_Bytes e) + n,
                           q_items := AList.update i
                             \<lparr>e_ID = i, e_Seq = q_seq q'', e_Data = v, e_Bytes = n\<rparr> (q_items q'')\<rparr>,
                       None)))"

definition Delete :: "'v codec \<Rightarrow> string \<Rightarrow> 'v queue \<Rightarrow> 'v queue \<times> queue_error option" where
  "Delete cd i q =
     (case map_of (q_items q) i of
        None \<Rightarrow> (q, None)
      | Some _ \<Rightarrow>
          (case appendLocked cd (del_record i (q_seq q + 1)) (q\<lparr>q_seq := q_seq q + 1\<rparr>) of
             (q', Some err) \<Rightarrow> (q', Some err)
           | (q', None) \<Rightarrow> (drop_item i q', None)))"

definition Get :: "string \<Rightarrow> 'v queue \<Rightarrow> 'v option" where
  "Get i q = map_option e_Data (map_of (q_items q) i)"

definition List :: "'v queue \<Rightarrow> 'v list" where
  "List q = map e_Data (sorted_entries q)"

definition Len :: "'v queue \<Rightarrow> nat" where
  "Len q = length (q_items q)"

definition Stats :: "'v queue \<Rightarrow> queue_stats" where
  "Stats q = \<lparr>qs_Items = length (q_items q), qs_Bytes = q_bytes q, qs_MaxItems = op_MaxItems (q_opts q),
     qs_MaxBytes = op_MaxBytes (q_opts q), qs_Policy = op_Policy (q_opts q)\<rparr>"

definition Close :: "'v queue \<Rightarrow> 'v queue" where
  "Close q = q\<lparr>q_open := False\<rparr>"

subsection \<open>Invariant\<close>

definition items_bytes :: "(string \<times> 'v entry) list \<Rightarrow> int" where
  "items_bytes its = sum_list (map (\<lambda>(k, e). e_Bytes e) its)"

definition entry_ok :: "'v codec \<Rightarrow> nat \<Rightarrow> string \<Rightarrow> 'v entry \<Rightarrow> bool" where
  "entry_ok cd s k e \<longleftrightarrow> e_ID e = k \<and> k \<noteq> [] \<and> e_Seq e \<le> s \<and>
     map_option length (marshal cd (e_Data e)) = Some (nat (e_Bytes e)) \<and> 0 \<le> e_Bytes e"

definition items_inv :: "'v codec \<Rightarrow> (string \<times> 'v entry) list \<Rightarrow> nat \<Rightarrow> int \<Rightarrow> bool" where
  "items_inv cd its s b \<longleftrightarrow>
     distinct (map fst its) \<and> distinct (map (\<lambda>(k, e). e_Seq e) its) \<and>
     (\<forall>(k, e) \<in> set its. entry_ok cd s k e) \<and> b = items_bytes its"

text \<open>What every reachable index satisfies: one entry per ID, filed under its own
  nonempty ID, with pairwise different sequence numbers not above the counter, and
  a byte count that is the sum over the entries of the length of their JSON text.\<close>

definition qinv :: "'v codec \<Rightarrow> 'v queue \<Rightarrow> bool" where
  "qinv cd q \<longleftrightarrow> items_inv cd (q_items q) (q_seq q) (q_bytes q)"

text \<open>The codec reads back what it writes.\<close>

definition codec_ok :: "'v codec \<Rightarrow> bool" where
  "codec_ok cd \<longleftrightarrow> (\<forall>v d. marshal cd v = Some d \<longrightarrow> unmarshal cd d = Some v)"

text \<open>Replaying the log gives the index in memory.\<close>

definition wal_sync :: "'v codec \<Rightarrow> 'v queue \<Rightarrow> bool" where
  "wal_sync cd q \<longleftrightarrow>
     (\<exists>q0. replay cd (q_wal q) (fresh_queue (q_opts q) (q_wal q)) = Inr q0 \<and>
           map_of (q_items q0) = map_of (q_items q) \<and> distinct (map fst (q_items q0)) \<and>
           q_bytes q0 = q_bytes q \<and> q_seq q0 \<le> q_seq q)"

subsection \<open>Lemmas: the index\<close>

lemma alist_delete_absent: "k \<notin> fst ` set its \<Longrightarrow> AList.delete k its = its"
  by (induction its) auto

lemma items_bytes_simps [simp]:
  "items_bytes [] = 0"
  "items_bytes ((k, e) # its) = e_Bytes e + items_bytes its"
  by (simp_all add: items_bytes_def)

lemma items_bytes_delete:
  "distinct (map fst its) \<Longrightarrow>
   items_bytes (AList.delete k its) =
     (case map_of its k of None \<Rightarrow> items_bytes its | Some e \<Rightarrow> items_bytes its - e_Bytes e)"
proof (induction its)
  case Nil
  then show ?case by simp
next
  case (Cons p its)
  obtain k' e where p: "p = (k', e)" by (cases p)
  show ?case
  proof (cases "k' = k")
    case True
    then have "AList.delete k its = its" using Cons.prems p by (simp add: alist_delete_absent)
    then show ?thesis using p True by simp
  next
    case False
    then show ?thesis using Cons p by (auto split: option.splits)
  qed
qed

lemma items_bytes_update:
  "distinct (map fst its) \<Longrightarrow>
   items_bytes (AList.update k e its) =
     (case map_of its k of None \<Rightarrow> items_bytes its | Some old \<Rightarrow> items_bytes its - e_Bytes old) + e_Bytes e"
  by (induction its) (auto split: option.splits simp del: map_of_eq_Some_iff)

lemma set_update: "set (AList.update k e its) \<subseteq> insert (k, e) (set its)"
  by (induction its) auto

lemma seqs_update:
  "distinct (map (\<lambda>(k, e). e_Seq e) its) \<Longrightarrow> e_Seq e \<notin> (\<lambda>(k, e). e_Seq e) ` set its \<Longrightarrow>
   distinct (map (\<lambda>(k, e). e_Seq e) (AList.update k e its))"
proof (induction its)
  case (Cons p its)
  obtain k' e' where p: "p = (k', e')" by (cases p)
  let ?sq = "\<lambda>its. (\<lambda>(k, e). e_Seq e) ` set its"
  have "?sq (AList.update k e its) \<subseteq> insert (e_Seq e) (?sq its)"
    using set_update[of k e its] by auto
  moreover have "e_Seq e' \<noteq> e_Seq e" "e_Seq e' \<notin> ?sq its" "e_Seq e \<notin> ?sq its"
    using Cons.prems p by auto
  ultimately have "e_Seq e' \<notin> ?sq (AList.update k e its)" by blast
  then show ?case using Cons p by auto
qed auto

lemma items_inv_mono: "items_inv cd its s b \<Longrightarrow> s \<le> s' \<Longrightarrow> items_inv cd its s' b"
  by (auto simp: items_inv_def entry_ok_def)

lemma items_inv_delete:
  assumes "items_inv cd its s b"
  shows "items_inv cd (AList.delete k its) s
    (case map_of its k of None \<Rightarrow> b | Some e \<Rightarrow> b - e_Bytes e)"
proof -
  have d: "distinct (map fst its)" and "distinct (map (\<lambda>(k, e). e_Seq e) its)" and b: "b = items_bytes its"
    and e: "\<forall>(k, e) \<in> set its. entry_ok cd s k e"
    using assms by (auto simp: items_inv_def)
  moreover have "distinct (map (\<lambda>(k, e). e_Seq e) (AList.delete k its))"
    using calculation(2) by (simp add: AList.delete_eq distinct_map_filter)
  moreover have "\<forall>(j, e) \<in> set (AList.delete k its). entry_ok cd s j e"
    using e by (auto simp: AList.delete_eq)
  ultimately show ?thesis
    unfolding items_inv_def by (simp add: items_bytes_delete distinct_delete split: option.splits)
qed

lemma items_inv_update:
  assumes inv: "items_inv cd its s b" and s: "s < s'" and k: "k \<noteq> []" and v: "marshal cd v = Some d"
  shows "items_inv cd
    (AList.update k \<lparr>e_ID = k, e_Seq = s', e_Data = v, e_Bytes = int (length d)\<rparr> its) s'
    ((case map_of its k of None \<Rightarrow> b | Some e \<Rightarrow> b - e_Bytes e) + int (length d))"
proof -
  let ?e = "\<lparr>e_ID = k, e_Seq = s', e_Data = v, e_Bytes = int (length d)\<rparr>"
  have le: "\<forall>(j, e) \<in> set its. entry_ok cd s j e" and d: "distinct (map fst its)"
    using inv by (auto simp: items_inv_def)
  have "s' \<notin> (\<lambda>(k, e). e_Seq e) ` set its" using le s by (auto simp: entry_ok_def)
  then have 1: "distinct (map (\<lambda>(k, e). e_Seq e) (AList.update k ?e its))"
    using inv seqs_update[of its ?e k] by (simp add: items_inv_def)
  have 2: "entry_ok cd s' j e" if "(j, e) \<in> set (AList.update k ?e its)" for j e
  proof -
    have "(j, e) = (k, ?e) \<or> (j, e) \<in> set its" using that set_update[of k ?e its] by blast
    then show ?thesis using le s k v by (auto simp: entry_ok_def)
  qed
  show ?thesis
    using inv 1 2 items_bytes_update[OF d, of k ?e]
    by (auto simp: items_inv_def distinct_update split: option.splits)
qed

lemma drop_item_inv [nodra_inv]: "qinv cd q \<Longrightarrow> qinv cd (drop_item k q)"
  using items_inv_delete[of cd "q_items q" "q_seq q" "q_bytes q" k]
  by (auto simp: qinv_def drop_item_def)

lemma bump_inv [nodra_inv]: "qinv cd q \<Longrightarrow> qinv cd (q\<lparr>q_seq := Suc (q_seq q)\<rparr>)"
  by (auto simp: qinv_def elim: items_inv_mono)

lemma append_inv [nodra_inv]: "qinv cd (fst (appendLocked cd r q)) = qinv cd q"
  by (simp add: qinv_def)

subsection \<open>Lemmas: the operations keep the invariant\<close>

text \<open>One round of the eviction loop up to the removal from the index, and the
  induction that follows the loop.\<close>

definition evict_del :: "'v codec \<Rightarrow> 'v queue \<Rightarrow> 'v queue \<times> queue_error option" where
  "evict_del cd q =
     appendLocked cd (del_record (oldestIDLocked q) (Suc (q_seq q))) (q\<lparr>q_seq := Suc (q_seq q)\<rparr>)"

lemma append_fst:
  assumes "appendLocked cd r q = (q', x)"
  shows "q_items q' = q_items q" "q_seq q' = q_seq q" "q_bytes q' = q_bytes q" "q_opts q' = q_opts q"
  using append_items[of cd r q] assms by simp_all

lemma evict_del_frame:
  assumes "evict_del cd q = (q', x)"
  shows "q_items q' = q_items q" "q_seq q' = Suc (q_seq q)" "q_bytes q' = q_bytes q" "q_opts q' = q_opts q"
  using append_fst[OF assms[unfolded evict_del_def]] by simp_all

lemma evict_unfold:
  "evict cd a b q =
     (if overLimit q a b \<and> q_items q \<noteq> [] then
        (case snd (evict_del cd q) of
           Some err \<Rightarrow> (fst (evict_del cd q), Some err)
         | None \<Rightarrow> evict cd a b (drop_item (oldestIDLocked q) (fst (evict_del cd q))))
      else (q, None))"
  by (subst evict.simps) (simp add: Let_def evict_del_def split: option.splits)

lemma evict_rule:
  assumes stop: "\<And>q. \<not> (overLimit q a b \<and> q_items q \<noteq> []) \<Longrightarrow> P q (q, None)"
    and err: "\<And>q q' e. overLimit q a b \<Longrightarrow> q_items q \<noteq> [] \<Longrightarrow>
      evict_del cd q = (q', Some e) \<Longrightarrow> P q (q', Some e)"
    and step: "\<And>q q' r. overLimit q a b \<Longrightarrow> q_items q \<noteq> [] \<Longrightarrow>
      evict_del cd q = (q', None) \<Longrightarrow> P (drop_item (oldestIDLocked q) q') r \<Longrightarrow> P q r"
  shows "P q (evict cd a b q)"
proof (induction "length (q_items q)" arbitrary: q rule: less_induct)
  case less
  obtain q' x where e: "evict_del cd q = (q', x)" by fastforce
  note its = evict_del_frame(1)[OF e]
  show ?case
  proof (cases "overLimit q a b \<and> q_items q \<noteq> []")
    case True
    show ?thesis
    proof (cases x)
      case None
      have "P (drop_item (oldestIDLocked q) q') (evict cd a b (drop_item (oldestIDLocked q) q'))"
        using drop_oldest_shrinks[of q] True its by (intro less) (simp add: drop_item_def)
      then show ?thesis using step[of q q'] True None e by (subst evict_unfold) simp
    next
      case (Some er)
      then show ?thesis using err[of q q' er] True e by (subst evict_unfold) simp
    qed
  next
    case False
    then show ?thesis using stop[of q] by (subst evict_unfold) auto
  qed
qed

lemma evict_del_inv: "qinv cd q \<Longrightarrow> qinv cd (fst (evict_del cd q))"
  by (simp add: evict_del_def append_inv bump_inv)

lemma evict_inv:
  assumes "qinv cd q"
  shows "qinv cd (fst (evict cd a b q))"
proof -
  have "qinv cd q \<longrightarrow> qinv cd (fst (evict cd a b q))"
    by (rule evict_rule[where P = "\<lambda>q r. qinv cd q \<longrightarrow> qinv cd (fst r)"])
      (metis evict_del_inv drop_item_inv fst_conv)+
  then show ?thesis using assms by simp
qed

text \<open>A put that replaces an entry while it has to evict others is the one case in
  which the byte count goes wrong; see \<^verbatim>\<open>put_evicts_itself\<close> below.\<close>

definition put_clean :: "'v codec \<Rightarrow> string \<Rightarrow> 'v \<Rightarrow> 'v queue \<Rightarrow> bool" where
  "put_clean cd i v q \<longleftrightarrow>
     op_Policy (q_opts q) \<noteq> ''drop-oldest'' \<or> map_of (q_items q) i = None \<or>
     (\<exists>d e. marshal cd v = Some d \<and> map_of (q_items q) i = Some e \<and>
        \<not> overLimit q 0 (int (length d) - e_Bytes e))"

lemma evict_absent:
  assumes "map_of (q_items q) i = None"
  shows "map_of (q_items (fst (evict cd a b q))) i = None"
proof -
  have "map_of (q_items q) i = None \<longrightarrow> map_of (q_items (fst (evict cd a b q))) i = None"
    by (rule evict_rule[where P = "\<lambda>q r. map_of (q_items q) i = None \<longrightarrow> map_of (q_items (fst r)) i = None"])
      (auto dest: evict_del_frame(1) simp: drop_item_def delete_conv' split: if_splits)
  then show ?thesis using assms by simp
qed

text \<open>Case analysis of a put: it fails early, or makes room and appends.\<close>

definition room :: "'v codec \<Rightarrow> int \<Rightarrow> int \<Rightarrow> 'v queue \<Rightarrow> 'v queue \<times> queue_error option" where
  "room cd a b q =
     (if \<not> overLimit q a b then (q, None)
      else if op_Policy (q_opts q) = ''drop-oldest'' then
        (case evict cd a b q of
           (q', Some err) \<Rightarrow> (q', Some err)
         | (q', None) \<Rightarrow> (q', if overLimit q' a b then Some ErrFull else None))
      else (q, Some ErrFull))"

definition store_entry :: "string \<Rightarrow> 'v \<Rightarrow> string \<Rightarrow> 'v entry option \<Rightarrow> 'v queue \<Rightarrow> 'v queue" where
  "store_entry i v d old q = q\<lparr>
     q_bytes := (case old of None \<Rightarrow> q_bytes q | Some e \<Rightarrow> q_bytes q - e_Bytes e) + int (length d),
     q_items := AList.update i
       \<lparr>e_ID = i, e_Seq = q_seq q, e_Data = v, e_Bytes = int (length d)\<rparr> (q_items q)\<rparr>"

definition add_items :: "'v entry option \<Rightarrow> int" where
  "add_items old = (case old of None \<Rightarrow> 1 | Some _ \<Rightarrow> 0)"

definition add_bytes :: "string \<Rightarrow> 'v entry option \<Rightarrow> int" where
  "add_bytes d old = (case old of None \<Rightarrow> int (length d) | Some e \<Rightarrow> int (length d) - e_Bytes e)"

lemma Put_cases:
  obtains
    "i = []" "Put cd i v q = (q, Some IDRequired)"
  | "i \<noteq> []" "marshal cd v = None" "Put cd i v q = (q, Some MarshalFails)"
  | d q' err where "i \<noteq> []" "marshal cd v = Some d"
      "room cd (add_items (map_of (q_items q) i)) (add_bytes d (map_of (q_items q) i)) q = (q', Some err)"
      "Put cd i v q = (q', Some err)"
  | d q' q'' err where "i \<noteq> []" "marshal cd v = Some d"
      "room cd (add_items (map_of (q_items q) i)) (add_bytes d (map_of (q_items q) i)) q = (q', None)"
      "appendLocked cd (put_record i (q_seq q' + 1) d) (q'\<lparr>q_seq := q_seq q' + 1\<rparr>) = (q'', Some err)"
      "Put cd i v q = (q'', Some err)"
  | d q' q'' where "i \<noteq> []" "marshal cd v = Some d"
      "room cd (add_items (map_of (q_items q) i)) (add_bytes d (map_of (q_items q) i)) q = (q', None)"
      "appendLocked cd (put_record i (q_seq q' + 1) d) (q'\<lparr>q_seq := q_seq q' + 1\<rparr>) = (q'', None)"
      "Put cd i v q = (store_entry i v d (map_of (q_items q) i) q'', None)"
proof (cases "i = [] \<or> marshal cd v = None")
  case True
  then show ?thesis using that(1,2) by (auto simp: Put_def)
next
  case False
  then obtain d where d: "i \<noteq> []" "marshal cd v = Some d" by auto
  let ?old = "map_of (q_items q) i"
  let ?room = "room cd (add_items ?old) (add_bytes d ?old) q"
  let ?app = "\<lambda>q'. appendLocked cd (put_record i (q_seq q' + 1) d) (q'\<lparr>q_seq := q_seq q' + 1\<rparr>)"
  have eq: "Put cd i v q =
    (case ?room of (q', Some err) \<Rightarrow> (q', Some err)
     | (q', None) \<Rightarrow> (case ?app q' of (q'', Some err) \<Rightarrow> (q'', Some err)
                     | (q'', None) \<Rightarrow> (store_entry i v d ?old q'', None)))"
    unfolding Put_def Let_def room_def add_items_def add_bytes_def store_entry_def using d by simp
  obtain q' r where r: "?room = (q', r)" by fastforce
  show ?thesis
  proof (cases r)
    case (Some err)
    then show ?thesis using that(3)[of d q' err] d r eq by simp
  next
    case None
    obtain q'' r' where r': "?app q' = (q'', r')" by fastforce
    show ?thesis
    proof (cases r')
      case (Some err)
      then show ?thesis using that(4)[of d q' q'' err] d r None r' eq by simp
    next
      case None2: None
      then show ?thesis using that(5)[of d q' q''] d r None r' eq by simp
    qed
  qed
qed

lemma room_inv: "qinv cd q \<Longrightarrow> qinv cd (fst (room cd a b q))"
  using evict_inv[of cd q a b] by (auto simp: room_def split: prod.splits option.splits)

lemma room_invD: "room cd a b q = (q', x) \<Longrightarrow> qinv cd q \<Longrightarrow> qinv cd q'"
  using room_inv[of cd q a b] by simp

lemma room_lookup:
  assumes "op_Policy (q_opts q) \<noteq> ''drop-oldest'' \<or> map_of (q_items q) i = None \<or> \<not> overLimit q a b"
  shows "map_of (q_items (fst (room cd a b q))) i = map_of (q_items q) i"
  using assms evict_absent[of q i cd a b] by (auto simp: room_def split: prod.splits option.splits)

lemma Put_inv [nodra_inv]:
  assumes inv: "qinv cd q" and c: "put_clean cd i v q"
  shows "qinv cd (fst (Put cd i v q))"
proof (cases rule: Put_cases[where cd = cd and i = i and v = v and q = q])
  case (3 d q' err)
  then show ?thesis using room_invD[OF 3(3) inv] by simp
next
  case (4 d q' q'' err)
  have "qinv cd q'" by (rule room_invD[OF 4(3) inv])
  then show ?thesis using 4(5) append_fst[OF 4(4)] bump_inv[of cd q'] by (simp add: qinv_def)
next
  case (5 d q' q'')
  let ?old = "map_of (q_items q) i"
  have q': "qinv cd q'" by (rule room_invD[OF 5(3) inv])
  have "map_of (q_items q') i = ?old"
    using room_lookup[of q i "add_items ?old" "add_bytes d ?old" cd] 5(2,3) c
    by (auto simp: put_clean_def add_items_def add_bytes_def)
  then show ?thesis
    using items_inv_update[of cd "q_items q'" "q_seq q'" "q_bytes q'" "q_seq q' + 1" i v d]
      q' 5(1,2,5) append_fst[OF 5(4)]
    by (cases "map_of (q_items q) i") (simp_all add: qinv_def store_entry_def)
qed (use inv in simp_all)

lemma Delete_inv [nodra_inv]: "qinv cd q \<Longrightarrow> qinv cd (fst (Delete cd i q))"
  using append_inv[of cd "del_record i (Suc (q_seq q))" "q\<lparr>q_seq := Suc (q_seq q)\<rparr>"] bump_inv[of cd q]
  by (cases "appendLocked cd (del_record i (Suc (q_seq q))) (q\<lparr>q_seq := Suc (q_seq q)\<rparr>)")
    (auto simp: Delete_def drop_item_inv split: option.splits)

subsection \<open>Lemmas: lookups and limits\<close>

lemma evict_policy: "q_opts (fst (evict cd a b q)) = q_opts q"
proof -
  have "q_opts (fst (evict cd a b q)) = q_opts q"
    by (rule evict_rule[where P = "\<lambda>q r. q_opts (fst r) = q_opts q"])
      (auto dest: evict_del_frame(4) simp: drop_item_def)
  then show ?thesis .
qed

lemma room_None_limit: "room cd a b q = (q', None) \<Longrightarrow> \<not> overLimit q' a b \<and> q_opts q' = q_opts q"
  using evict_policy[of cd a b q]
  by (auto simp: room_def split: if_splits prod.splits option.splits)

lemma room_same: "op_Policy (q_opts q) \<noteq> ''drop-oldest'' \<Longrightarrow> fst (room cd a b q) = q"
  by (simp add: room_def)

lemma Get_store_entry:
  "Get j (store_entry i v d old q) = (if j = i then Some v else Get j q)"
  by (simp add: Get_def store_entry_def update_conv')

lemma Put_ok_Get:
  assumes "snd (Put cd i v q) = None"
  shows "Get i (fst (Put cd i v q)) = Some v"
  using assms by (cases rule: Put_cases[where cd = cd and i = i and v = v and q = q])
    (simp_all add: Get_store_entry)

lemma Put_other:
  assumes p: "op_Policy (q_opts q) \<noteq> ''drop-oldest''" and j: "j \<noteq> i"
  shows "Get j (fst (Put cd i v q)) = Get j q"
proof (cases rule: Put_cases[where cd = cd and i = i and v = v and q = q])
  case (3 d q' err)
  then show ?thesis using room_same[OF p] by (metis fst_conv)
next
  case (4 d q' q'' err)
  then have "q' = q" using room_same[OF p] by (metis fst_conv)
  then show ?thesis using 4(5) append_fst[OF 4(4)] by (simp add: Get_def)
next
  case (5 d q' q'')
  then have "q' = q" using room_same[OF p] by (metis fst_conv)
  then show ?thesis using 5(5) append_fst[OF 5(4)] j by (simp add: Get_store_entry) (simp add: Get_def)
qed simp_all

lemma Put_fail_Get:
  assumes p: "op_Policy (q_opts q) \<noteq> ''drop-oldest''" and f: "snd (Put cd i v q) = Some err"
  shows "Get j (fst (Put cd i v q)) = Get j q"
proof (cases rule: Put_cases[where cd = cd and i = i and v = v and q = q])
  case (3 d q' err)
  then show ?thesis using room_same[OF p] by (metis fst_conv)
next
  case (4 d q' q'' err)
  then have "q' = q" using room_same[OF p] by (metis fst_conv)
  then show ?thesis using 4(5) append_fst[OF 4(4)] by (simp add: Get_def)
next
  case (5 d q' q'')
  then show ?thesis using f by simp
qed simp_all

lemma Put_policy: "q_opts (fst (Put cd i v q)) = q_opts q"
proof -
  have room_opts: "q_opts q' = q_opts q" if "room cd a b q = (q', x)" for a b q' x
    using that evict_policy[of cd a b q] by (auto simp: room_def split: if_splits prod.splits option.splits)
  show ?thesis
  proof (cases rule: Put_cases[where cd = cd and i = i and v = v and q = q])
    case (3 d q' err)
    then show ?thesis using room_opts[OF 3(3)] by simp
  next
    case (4 d q' q'' err)
    then show ?thesis using room_opts[OF 4(3)] append_fst[OF 4(4)] by simp
  next
    case (5 d q' q'')
    then show ?thesis using room_opts[OF 5(3)] append_fst[OF 5(4)] by (simp add: store_entry_def)
  qed simp_all
qed

lemma Delete_Get:
  "Get j (fst (Delete cd i q)) =
     (if j = i \<and> snd (Delete cd i q) = None then None else Get j q)"
proof (cases "map_of (q_items q) i")
  case None
  then show ?thesis by (auto simp: Delete_def Get_def)
next
  case (Some e)
  obtain q' x where a: "appendLocked cd (del_record i (q_seq q + 1)) (q\<lparr>q_seq := q_seq q + 1\<rparr>) = (q', x)"
    by fastforce
  show ?thesis
    using Some a append_fst[OF a]
    by (cases x) (auto simp: Delete_def Get_def drop_item_def delete_conv')
qed

lemma Delete_policy: "q_opts (fst (Delete cd i q)) = q_opts q"
proof -
  obtain q' x where a: "appendLocked cd (del_record i (q_seq q + 1)) (q\<lparr>q_seq := q_seq q + 1\<rparr>) = (q', x)"
    by fastforce
  show ?thesis
    using a append_fst[OF a]
    by (cases x) (auto simp: Delete_def drop_item_def split: option.splits)
qed

lemma length_update_alist:
  "length (AList.update k e its) = (case map_of its k of None \<Rightarrow> Suc (length its) | Some _ \<Rightarrow> length its)"
  by (induction its) (auto split: option.splits)

text \<open>A put that succeeds leaves the queue within its limits.\<close>

lemma Put_within_limits:
  assumes c: "put_clean cd i v q" and ok: "snd (Put cd i v q) = None"
  shows "\<not> overLimit (fst (Put cd i v q)) 0 0"
proof (cases rule: Put_cases[where cd = cd and i = i and v = v and q = q])
  case (5 d q' q'')
  let ?old = "map_of (q_items q) i"
  have lim: "\<not> overLimit q' (add_items ?old) (add_bytes d ?old)" and o: "q_opts q' = q_opts q"
    using room_None_limit[OF 5(3)] by auto
  have "map_of (q_items q') i = ?old"
    using room_lookup[of q i "add_items ?old" "add_bytes d ?old" cd] 5(2,3) c
    by (auto simp: put_clean_def add_items_def add_bytes_def)
  then show ?thesis
    using 5(5) append_fst[OF 5(4)] lim
    by (cases ?old)
      (auto simp: overLimit_def store_entry_def length_update_alist add_items_def add_bytes_def)
qed (use ok in simp_all)

subsection \<open>Lemmas: order\<close>

lemma mset_update_absent:
  "map_of its k = None \<Longrightarrow> AList.update k e its = its @ [(k, e)]"
  by (induction its) (auto split: if_splits)

lemma sort_key_snoc_max:
  assumes "inj_on f (set xs)" "\<forall>x \<in> set xs. f x < f y"
  shows "sort_key f (xs @ [y]) = sort_key f xs @ [y]"
proof (rule sort_key_inj_key_eq)
  have "f y \<notin> f ` set xs" using assms(2) by force
  then show "inj_on f (set (xs @ [y]))" using assms(1) by (simp add: inj_on_insert image_iff)
  have "\<forall>x \<in> set xs. f x \<le> f y" using assms(2) by (simp add: less_imp_le)
  then show "sorted (map f (sort_key f xs @ [y]))" by (simp add: sorted_append)
qed simp

lemma seq_inj: "qinv cd q \<Longrightarrow> inj_on e_Seq (set (map snd (q_items q)))"
proof -
  assume "qinv cd q"
  then have "distinct (map e_Seq (map snd (q_items q)))"
    by (simp add: qinv_def items_inv_def case_prod_unfold comp_def)
  then show ?thesis unfolding distinct_map by blast
qed

lemma seq_le: "qinv cd q \<Longrightarrow> e \<in> set (map snd (q_items q)) \<Longrightarrow> e_Seq e \<le> q_seq q"
  by (auto simp: qinv_def items_inv_def entry_ok_def)

text \<open>Two indexes with the same entries list them in the same order.\<close>

lemma sorted_entries_cong:
  assumes inv: "qinv cd q" and m: "map_of (q_items q0) = map_of (q_items q)"
    and d0: "distinct (map fst (q_items q0))"
  shows "sorted_entries q0 = sorted_entries q"
proof -
  have d: "distinct (map fst (q_items q))" using inv by (simp add: qinv_def items_inv_def)
  have "set (q_items q0) = set (q_items q)" using m d d0 by (metis map_of_eq_Some_iff subrelI subset_antisym)
  then have "mset (q_items q0) = mset (q_items q)"
    using d d0 by (simp add: set_eq_iff_mset_eq_distinct distinct_map)
  then have ms: "mset (map snd (q_items q0)) = mset (map snd (q_items q))" by simp
  then have "set (map snd (q_items q0)) = set (map snd (q_items q))" by (rule mset_eq_setD)
  then have "inj_on e_Seq (set (map snd (q_items q0)))" using seq_inj[OF inv] by simp
  then show ?thesis
    unfolding sorted_entries_def using ms by (intro sort_key_inj_key_eq) simp_all
qed

lemma List_Put_fresh:
  assumes inv: "qinv cd q" and new: "Get i q = None" and ok: "snd (Put cd i v q) = None"
    and lim: "op_Policy (q_opts q) \<noteq> ''drop-oldest''"
  shows "List (fst (Put cd i v q)) = List q @ [v]"
proof (cases rule: Put_cases[where cd = cd and i = i and v = v and q = q])
  case (5 d q' q'')
  have q': "q' = q" using room_same[OF lim] 5(3) by (metis fst_conv)
  have absent: "map_of (q_items q) i = None" using new by (simp add: Get_def)
  let ?e = "\<lparr>e_ID = i, e_Seq = Suc (q_seq q), e_Data = v, e_Bytes = int (length d)\<rparr>"
  have "q_items (fst (Put cd i v q)) = q_items q @ [(i, ?e)]"
    using 5(5) append_fst[OF 5(4)] q' absent by (simp add: store_entry_def mset_update_absent)
  then have "sorted_entries (fst (Put cd i v q)) = sort_key e_Seq (map snd (q_items q) @ [?e])"
    by (simp add: sorted_entries_def)
  also have "\<dots> = sorted_entries q @ [?e]"
    unfolding sorted_entries_def
  proof (rule sort_key_snoc_max)
    show "inj_on e_Seq (set (map snd (q_items q)))" by (rule seq_inj[OF inv])
    show "\<forall>x \<in> set (map snd (q_items q)). e_Seq x < e_Seq ?e" using seq_le[OF inv] by (simp add: less_Suc_eq_le)
  qed
  finally show ?thesis by (simp add: List_def)
qed (use ok in simp_all)

subsection \<open>Lemmas: replay\<close>

lemma replay_append:
  "replay cd (xs @ ys) q = (case replay cd xs q of Inl e \<Rightarrow> Inl e | Inr q' \<Rightarrow> replay cd ys q')"
  by (induction cd xs q rule: replay.induct) (auto split: sum.splits)

text \<open>Replay does not look at the field that holds the file it reads.\<close>

lemma replay_record_wal:
  "replay_record cd r (q\<lparr>q_wal := w\<rparr>) = map_sum id (\<lambda>q. q\<lparr>q_wal := w\<rparr>) (replay_record cd r q)"
  by (auto simp: replay_record_def Let_def split: option.splits)

lemma replay_wal: "replay cd ls (q\<lparr>q_wal := w\<rparr>) = map_sum id (\<lambda>q. q\<lparr>q_wal := w\<rparr>) (replay cd ls q)"
  by (induction cd ls q rule: replay.induct) (auto simp: replay_record_wal split: sum.splits)

lemma replay_fresh_wal:
  fixes q1 :: "'v queue"
  assumes "replay cd ls (fresh_queue opt w1) = Inr q1"
  shows "replay cd ls (fresh_queue opt w2) = Inr (q1\<lparr>q_wal := w2\<rparr>)"
proof -
  have "(fresh_queue opt w2 :: 'v queue) = (fresh_queue opt w1)\<lparr>q_wal := w2\<rparr>" by (simp add: fresh_queue_def)
  then show ?thesis using assms replay_wal[of cd ls w2 "fresh_queue opt w1"] by simp
qed

text \<open>A log that replays has only whole records in it, so an append adds a record.\<close>

lemma replay_no_garbage: "replay cd ls q = Inr q' \<Longrightarrow> l \<in> set ls \<Longrightarrow> \<exists>r. l = Rec r"
  by (induction cd ls q arbitrary: q' rule: replay.induct) (auto split: sum.splits)

lemma wal_add_replayable:
  assumes "replay cd ls q = Inr q'"
  shows "wal_add ls r = ls @ [Rec r]"
proof -
  have "last ls \<noteq> Partial" if "ls \<noteq> []"
    using replay_no_garbage[OF assms, of "last ls"] that by auto
  then show ?thesis by (auto simp: wal_add_def)
qed

text \<open>Replaying one more record does to the replayed index what the operation did to
  the index in memory.\<close>

lemma wal_sync_del:
  assumes sync: "wal_sync cd q"
  shows "wal_sync cd (drop_item i (q\<lparr>q_seq := Suc (q_seq q), q_io := io,
    q_wal := wal_add (q_wal q) (del_record i (Suc (q_seq q))), q_ops := n\<rparr>))"
proof -
  obtain q0 where r: "replay cd (q_wal q) (fresh_queue (q_opts q) (q_wal q)) = Inr q0"
    and m: "map_of (q_items q0) = map_of (q_items q)" and d: "distinct (map fst (q_items q0))"
    and b: "q_bytes q0 = q_bytes q" and s: "q_seq q0 \<le> q_seq q"
    using sync by (auto simp: wal_sync_def)
  let ?w = "wal_add (q_wal q) (del_record i (Suc (q_seq q)))"
  have w: "?w = q_wal q @ [Rec (del_record i (Suc (q_seq q)))]" by (rule wal_add_replayable[OF r])
  have "replay cd ?w (fresh_queue (q_opts q) ?w) = replay_record cd (del_record i (Suc (q_seq q))) (q0\<lparr>q_wal := ?w\<rparr>)"
    unfolding w by (simp add: replay_append replay_fresh_wal[OF r] split: sum.splits)
  then show ?thesis
    using m d b s
    by (cases "map_of (q_items q) i")
      (simp_all add: wal_sync_def drop_item_def del_record_def replay_record_def delete_conv' distinct_delete
        fun_upd_idem del: map_of_eq_None_iff)
qed

lemma wal_sync_put:
  assumes sync: "wal_sync cd q" and cd: "codec_ok cd" and v: "marshal cd v = Some js"
  shows "wal_sync cd (store_entry i v js (map_of (q_items q) i) (q\<lparr>q_seq := Suc (q_seq q), q_io := io,
    q_wal := wal_add (q_wal q) (put_record i (Suc (q_seq q)) js), q_ops := n\<rparr>))"
proof -
  obtain q0 where r: "replay cd (q_wal q) (fresh_queue (q_opts q) (q_wal q)) = Inr q0"
    and m: "map_of (q_items q0) = map_of (q_items q)" and d: "distinct (map fst (q_items q0))"
    and b: "q_bytes q0 = q_bytes q" and s: "q_seq q0 \<le> q_seq q"
    using sync by (auto simp: wal_sync_def)
  let ?w = "wal_add (q_wal q) (put_record i (Suc (q_seq q)) js)"
  have w: "?w = q_wal q @ [Rec (put_record i (Suc (q_seq q)) js)]" by (rule wal_add_replayable[OF r])
  have u: "unmarshal cd js = Some v" using cd v by (simp add: codec_ok_def)
  have "replay cd ?w (fresh_queue (q_opts q) ?w) = replay_record cd (put_record i (Suc (q_seq q)) js) (q0\<lparr>q_wal := ?w\<rparr>)"
    unfolding w by (simp add: replay_append replay_fresh_wal[OF r] split: sum.splits)
  then show ?thesis
    using m d b s u
    by (cases "map_of (q_items q) i")
      (simp_all add: wal_sync_def store_entry_def put_record_def replay_record_def Let_def update_conv' distinct_update
        del: map_of_eq_None_iff)
qed

text \<open>With a file system that works, an append that stays below the threshold writes
  its record and nothing else.\<close>

definition healthy :: "'v queue \<Rightarrow> bool" where
  "healthy q \<longleftrightarrow> q_open q \<and> q_io q = []"

lemma append_healthy:
  assumes "healthy q" "q_ops q + 1 < 4096"
  shows "appendLocked cd r q = (q\<lparr>q_io := [], q_wal := wal_add (q_wal q) r, q_ops := Suc (q_ops q)\<rparr>, None)"
  using assms by (simp add: appendLocked_def healthy_def next_io_def Let_def)

lemma evict_sync:
  assumes "wal_sync cd q" "healthy q" "q_ops q + length (q_items q) < 4095"
  shows "wal_sync cd (fst (evict cd a b q)) \<and> healthy (fst (evict cd a b q)) \<and>
    q_ops (fst (evict cd a b q)) + length (q_items (fst (evict cd a b q))) < 4095"
proof -
  let ?G = "\<lambda>q. wal_sync cd q \<and> healthy q \<and> q_ops q + length (q_items q) < 4095"
  let ?del = "\<lambda>q. q\<lparr>q_seq := Suc (q_seq q), q_io := [],
    q_wal := wal_add (q_wal q) (del_record (oldestIDLocked q) (Suc (q_seq q))), q_ops := Suc (q_ops q)\<rparr>"
  have del: "evict_del cd q = (?del q, None)" if "?G q" for q :: "'a queue"
    using that append_healthy[of "q\<lparr>q_seq := Suc (q_seq q)\<rparr>" cd
      "del_record (oldestIDLocked q) (Suc (q_seq q))"]
    by (simp add: evict_del_def healthy_def)
  have "?G q \<longrightarrow> ?G (fst (evict cd a b q))"
  proof (rule evict_rule[where P = "\<lambda>q r. ?G q \<longrightarrow> ?G (fst r)"])
    fix q q' :: "'a queue" and e
    assume e: "evict_del cd q = (q', Some e)"
    have "\<not> ?G q" using e del[of q] by auto
    then show "?G q \<longrightarrow> ?G (fst (q', Some e))" by blast
  next
    fix q q' :: "'a queue" and r :: "'a queue \<times> queue_error option"
    assume ne: "q_items q \<noteq> []" and e: "evict_del cd q = (q', None)"
      and ih: "?G (drop_item (oldestIDLocked q) q') \<longrightarrow> ?G (fst r)"
    show "?G q \<longrightarrow> ?G (fst r)"
    proof
      assume g: "?G q"
      then have q': "q' = ?del q" using e del[of q] by simp
      have "wal_sync cd (drop_item (oldestIDLocked q) q')"
        unfolding q' by (rule wal_sync_del) (use g in simp)
      moreover have "healthy (drop_item (oldestIDLocked q) q')"
        using g by (simp add: q' healthy_def drop_item_def)
      moreover have "q_ops (drop_item (oldestIDLocked q) q') +
          length (q_items (drop_item (oldestIDLocked q) q')) < 4095"
        using g drop_oldest_shrinks[OF ne] by (simp add: q' drop_item_def)
      ultimately show "?G (fst r)" using ih by blast
    qed
  qed simp
  then show ?thesis using assms by simp
qed

lemma Put_sync:
  assumes cd: "codec_ok cd" and sync: "wal_sync cd q" and h: "healthy q" and c: "put_clean cd i v q"
    and n: "q_ops q < 4095" "op_Policy (q_opts q) = ''drop-oldest'' \<Longrightarrow> q_ops q + length (q_items q) < 4095"
  shows "wal_sync cd (fst (Put cd i v q))"
proof -
  have room: "wal_sync cd q' \<and> healthy q' \<and> q_ops q' < 4095" if "room cd a b q = (q', x)" for a b q' x
    using that evict_sync[OF sync h, of a b] sync h n
    by (auto simp: room_def split: if_splits prod.splits option.splits)
  show ?thesis
  proof (cases rule: Put_cases[where cd = cd and i = i and v = v and q = q])
    case (3 d q' err)
    then show ?thesis using room[OF 3(3)] by simp
  next
    case (4 d q' q'' err)
    then show ?thesis
      using room[OF 4(3)] append_healthy[of "q'\<lparr>q_seq := Suc (q_seq q')\<rparr>" cd "put_record i (Suc (q_seq q')) d"]
      by (simp add: healthy_def)
  next
    case (5 d q' q'')
    let ?old = "map_of (q_items q) i"
    have "map_of (q_items q') i = ?old"
      using room_lookup[of q i "add_items ?old" "add_bytes d ?old" cd] 5(2,3) c
      by (auto simp: put_clean_def add_items_def add_bytes_def)
    moreover have "q'' = q'\<lparr>q_seq := Suc (q_seq q'), q_io := [],
        q_wal := wal_add (q_wal q') (put_record i (Suc (q_seq q')) d), q_ops := Suc (q_ops q')\<rparr>"
      using 5(4) room[OF 5(3)] append_healthy[of "q'\<lparr>q_seq := Suc (q_seq q')\<rparr>" cd "put_record i (Suc (q_seq q')) d"]
      by (simp add: healthy_def)
    ultimately show ?thesis
      using 5(5) wal_sync_put[of cd q' v d, where i = i and io = "[]" and n = "Suc (q_ops q')"] cd 5(2) room[OF 5(3)] by simp
  qed (use sync in simp_all)
qed

lemma Delete_sync:
  assumes sync: "wal_sync cd q" and h: "healthy q" and n: "q_ops q < 4095"
  shows "wal_sync cd (fst (Delete cd i q))"
proof (cases "map_of (q_items q) i")
  case None
  then show ?thesis using sync by (simp add: Delete_def)
next
  case (Some e)
  then show ?thesis
    using append_healthy[of "q\<lparr>q_seq := Suc (q_seq q)\<rparr>" cd "del_record i (Suc (q_seq q))"] h n
      wal_sync_del[OF sync, where i = i and io = "[]" and n = "Suc (q_ops q)"]
    by (simp add: Delete_def healthy_def)
qed

subsection \<open>Lemmas: compaction\<close>

lemma compact_replay:
  assumes "codec_ok cd" "\<forall>e \<in> set es. entry_ok cd s (e_ID e) e"
    "distinct (map e_ID es)" "\<forall>e \<in> set es. map_of (q_items q) (e_ID e) = None"
  shows "\<exists>ls q'. compact_lines cd es = Some ls \<and> replay cd ls q = Inr q' \<and>
    q_items q' = q_items q @ map (\<lambda>e. (e_ID e, e)) es \<and>
    q_bytes q' = q_bytes q + sum_list (map e_Bytes es) \<and> q_seq q' \<le> max (q_seq q) s"
  using assms(2-)
proof (induction es arbitrary: q)
  case Nil
  then show ?case by simp
next
  case (Cons e es)
  obtain d where d: "marshal cd (e_Data e) = Some d" "e_Bytes e = int (length d)" "e_Seq e \<le> s"
    using Cons.prems by (auto simp: entry_ok_def)
  have u: "unmarshal cd d = Some (e_Data e)" using assms(1) d by (simp add: codec_ok_def)
  define q1 where "q1 = q\<lparr>q_seq := max (q_seq q) (e_Seq e), q_items := q_items q @ [(e_ID e, e)],
    q_bytes := q_bytes q + e_Bytes e\<rparr>"
  have none: "map_of (q_items q) (e_ID e) = None" using Cons.prems by simp
  have "\<lparr>e_ID = e_ID e, e_Seq = e_Seq e, e_Data = e_Data e, e_Bytes = int (length d)\<rparr> = e"
    using d by simp
  then have step: "replay_record cd (put_record (e_ID e) (e_Seq e) d) q = Inr q1"
    using none u d(2)
    by (simp add: replay_record_def put_record_def Let_def mset_update_absent q1_def del: map_of_eq_None_iff)
  have fresh: "\<forall>e' \<in> set es. map_of (q_items q1) (e_ID e') = None"
  proof
    fix e' assume e': "e' \<in> set es"
    then have "e_ID e' \<in> e_ID ` set es" by (rule imageI)
    then have "e_ID e' \<noteq> e_ID e" using Cons.prems(2) by auto
    then show "map_of (q_items q1) (e_ID e') = None"
      using Cons.prems(3) e' by (simp add: q1_def map_add_def del: map_of_eq_None_iff)
  qed
  have "\<forall>e \<in> set es. entry_ok cd s (e_ID e) e" "distinct (map e_ID es)" using Cons.prems(1,2) by simp_all
  then obtain ls q' where ih: "compact_lines cd es = Some ls" "replay cd ls q1 = Inr q'"
    "q_items q' = q_items q1 @ map (\<lambda>e. (e_ID e, e)) es"
    "q_bytes q' = q_bytes q1 + sum_list (map e_Bytes es)" "q_seq q' \<le> max (q_seq q1) s"
    using Cons.IH[OF _ _ fresh] by blast
  have "compact_lines cd (e # es) = Some (Rec (put_record (e_ID e) (e_Seq e) d) # ls)"
    using d ih(1) by (simp add: put_record_def)
  moreover have "replay cd (Rec (put_record (e_ID e) (e_Seq e) d) # ls) q = Inr q'"
    using step ih(2) by simp
  moreover have "q_items q' = q_items q @ map (\<lambda>e. (e_ID e, e)) (e # es)"
    "q_bytes q' = q_bytes q + sum_list (map e_Bytes (e # es))" "q_seq q' \<le> max (q_seq q) s"
    using ih(3-5) d(3) by (simp_all add: q1_def)
  ultimately show ?case by blast
qed

lemma sorted_entries_mset: "mset (sorted_entries q) = mset (map snd (q_items q))"
  by (simp add: sorted_entries_def)

lemma items_by_id:
  assumes "qinv cd q"
  shows "mset (map (\<lambda>e. (e_ID e, e)) (sorted_entries q)) = mset (q_items q)"
proof -
  have "map (\<lambda>e. (e_ID e, e)) (map snd (q_items q)) = q_items q"
    using assms by (auto simp: qinv_def items_inv_def entry_ok_def intro!: map_idI)
  moreover have "mset (map (\<lambda>e. (e_ID e, e)) (sorted_entries q)) =
      mset (map (\<lambda>e. (e_ID e, e)) (map snd (q_items q)))"
    by (simp only: mset_map sorted_entries_mset)
  ultimately show ?thesis by simp
qed

text \<open>The log that compaction writes replays to the index it was written from.\<close>

lemma compact_sync:
  assumes cd: "codec_ok cd" and inv: "qinv cd q"
  shows "\<exists>ls. compact_lines cd (sorted_entries q) = Some ls \<and> wal_sync cd (q\<lparr>q_wal := ls, q_ops := n\<rparr>)"
proof -
  let ?es = "sorted_entries q" and ?its = "map (\<lambda>e. (e_ID e, e)) (sorted_entries q)"
  let ?f = "fresh_queue (q_opts q) [] :: 'a queue"
  have ms: "mset ?its = mset (q_items q)" by (rule items_by_id[OF inv])
  have dk: "distinct (map fst (q_items q))" and ok: "\<forall>(k, e) \<in> set (q_items q). entry_ok cd (q_seq q) k e"
    and b: "q_bytes q = items_bytes (q_items q)"
    using inv by (auto simp: qinv_def items_inv_def)
  have "mset (map fst ?its) = mset (map fst (q_items q))"
    using arg_cong[OF ms, of "image_mset fst"] by (simp only: mset_map)
  then have d: "distinct (map fst ?its)" using dk mset_eq_imp_distinct_iff by blast
  have st: "set ?its = set (q_items q)" using ms by (rule mset_eq_setD)
  have m: "map_of ?its = map_of (q_items q)"
    using map_of_inject_set[OF d dk] st by blast
  have "items_bytes ?its = items_bytes (q_items q)"
    using arg_cong[OF ms, of "\<lambda>M. sum_mset (image_mset (\<lambda>(k, e). e_Bytes e) M)"]
    unfolding items_bytes_def mset_map[symmetric] sum_mset_sum_list .
  then have sb: "sum_list (map e_Bytes ?es) = q_bytes q" by (simp add: b items_bytes_def comp_def)
  have "\<forall>e \<in> set ?es. entry_ok cd (q_seq q) (e_ID e) e" using ok st by auto
  moreover have "distinct (map e_ID ?es)" using d by (simp add: comp_def)
  ultimately obtain ls q' where r: "compact_lines cd ?es = Some ls" "replay cd ls ?f = Inr q'"
    "q_items q' = ?its" "q_bytes q' = q_bytes q" "q_seq q' \<le> q_seq q"
    using compact_replay[of cd ?es "q_seq q" ?f] cd sb by (auto simp: fresh_queue_def)
  have "wal_sync cd (q\<lparr>q_wal := ls, q_ops := n\<rparr>)"
    using replay_fresh_wal[OF r(2), of ls] r(3-5) d by (auto simp: wal_sync_def m)
  then show ?thesis using r(1) by blast
qed

lemma append_compacts:
  assumes "codec_ok cd" "qinv cd q" "healthy q" "4095 \<le> q_ops q"
  shows "\<exists>ls. appendLocked cd r q = (q\<lparr>q_io := [], q_wal := ls, q_ops := 0\<rparr>, None) \<and>
    wal_sync cd (q\<lparr>q_wal := ls, q_ops := 0\<rparr>)"
proof -
  obtain ls where ls: "compact_lines cd (sorted_entries q) = Some ls" "wal_sync cd (q\<lparr>q_wal := ls, q_ops := 0\<rparr>)"
    using compact_sync[OF assms(1,2)] by blast
  have "sorted_entries (q\<lparr>q_io := [], q_wal := w, q_ops := k\<rparr>) = sorted_entries q" for w k
    by (simp add: sorted_entries_def)
  then show ?thesis
    using assms(3,4) ls by (auto simp: appendLocked_def healthy_def next_io_def Let_def compactLocked_def)
qed

subsection \<open>Sequences of operations\<close>

datatype 'v qop = QPut string 'v | QDel string

fun qrun :: "'v codec \<Rightarrow> 'v qop list \<Rightarrow> 'v queue \<Rightarrow> 'v queue" where
  "qrun cd [] q = q"
| "qrun cd (QPut i v # ops) q = qrun cd ops (fst (Put cd i v q))"
| "qrun cd (QDel i # ops) q = qrun cd ops (fst (Delete cd i q))"

lemma Put_healthy:
  assumes p: "op_Policy (q_opts q) \<noteq> ''drop-oldest''" and h: "healthy q" and n: "q_ops q < 4095"
  shows "healthy (fst (Put cd i v q)) \<and> q_ops (fst (Put cd i v q)) \<le> Suc (q_ops q)"
proof -
  have app: "appendLocked cd r (q\<lparr>q_seq := s\<rparr>) =
      (q\<lparr>q_seq := s, q_io := [], q_wal := wal_add (q_wal q) r, q_ops := Suc (q_ops q)\<rparr>, None)" for r s
    using append_healthy[of "q\<lparr>q_seq := s\<rparr>" cd r] h n by (simp add: healthy_def)
  have room: "q' = q" if "room cd a b q = (q', x)" for a b q' x
    using that room_same[OF p, of cd a b] by simp
  show ?thesis
  proof (cases rule: Put_cases[where cd = cd and i = i and v = v and q = q])
    case (3 d q' err)
    then show ?thesis using room[OF 3(3)] h by simp
  next
    case (4 d q' q'' err)
    then show ?thesis using room[OF 4(3)] app by simp
  next
    case (5 d q' q'')
    then show ?thesis using room[OF 5(3)] app h by (auto simp: store_entry_def healthy_def)
  qed (use h in simp_all)
qed

lemma Delete_healthy:
  assumes h: "healthy q" and n: "q_ops q < 4095"
  shows "healthy (fst (Delete cd i q)) \<and> q_ops (fst (Delete cd i q)) \<le> Suc (q_ops q)"
  using append_healthy[of "q\<lparr>q_seq := Suc (q_seq q)\<rparr>" cd "del_record i (Suc (q_seq q))"] h n
  by (cases "map_of (q_items q) i") (simp_all add: Delete_def healthy_def drop_item_def)

lemma not_drop_oldest_clean: "op_Policy (q_opts q) \<noteq> ''drop-oldest'' \<Longrightarrow> put_clean cd i v q"
  by (simp add: put_clean_def)

lemma qrun_inv:
  "op_Policy (q_opts q) \<noteq> ''drop-oldest'' \<Longrightarrow> qinv cd q \<Longrightarrow>
   qinv cd (qrun cd ops q) \<and> q_opts (qrun cd ops q) = q_opts q"
  by (induction cd ops q rule: qrun.induct)
    (simp_all add: Put_inv Delete_inv Put_policy Delete_policy not_drop_oldest_clean)

lemma qrun_sync:
  assumes "codec_ok cd" "op_Policy (q_opts q) \<noteq> ''drop-oldest''" "qinv cd q" "wal_sync cd q" "healthy q"
    "q_ops q + length ops < 4096"
  shows "wal_sync cd (qrun cd ops q)"
  using assms
proof (induction cd ops q rule: qrun.induct)
  case (2 cd i v ops q)
  then have "wal_sync cd (fst (Put cd i v q))"
    using Put_sync[of cd q i v] not_drop_oldest_clean[of q cd i v] by simp
  then show ?case
    using 2 Put_healthy[of q cd i v] by (simp add: Put_inv Put_policy not_drop_oldest_clean)
next
  case (3 cd i ops q)
  then have "wal_sync cd (fst (Delete cd i q))" using Delete_sync[of cd q i] by simp
  then show ?case using 3 Delete_healthy[of q cd i] by (simp add: Delete_inv Delete_policy)
qed simp

text \<open>Opening the log of a queue that is in step with it gives an equal queue.\<close>

definition valid_opts :: "options \<Rightarrow> bool" where
  "valid_opts opt \<longleftrightarrow> op_Policy opt \<in> set [''reject'', ''drop-oldest'', ''drop-newest'']"

definition same_contents :: "'v queue \<Rightarrow> 'v queue \<Rightarrow> bool" where
  "same_contents q q' \<longleftrightarrow> (\<forall>i. Get i q = Get i q') \<and> List q = List q' \<and> Stats q = Stats q'"

lemma replay_record_opts: "pred_sum (\<lambda>_. True) (\<lambda>q'. q_opts q' = q_opts q) (replay_record cd r q)"
  by (simp add: replay_record_def Let_def split: option.splits)

lemma replay_opts: "replay cd ls q = Inr q' \<Longrightarrow> q_opts q' = q_opts q"
proof (induction cd ls q rule: replay.induct)
  case (2 cd r ls q)
  then show ?case using replay_record_opts[of q cd r] by (cases "replay_record cd r q") simp_all
qed simp_all

lemma reopen:
  assumes "valid_opts (q_opts q)" "qinv cd q" "wal_sync cd q"
  shows "\<exists>q'. OpenWithOptions cd (q_opts q) (q_wal q) = Inr q' \<and> same_contents q' q"
proof -
  obtain q0 where r: "replay cd (q_wal q) (fresh_queue (q_opts q) (q_wal q)) = Inr q0"
    and m: "map_of (q_items q0) = map_of (q_items q)" and d: "distinct (map fst (q_items q0))"
    and b: "q_bytes q0 = q_bytes q"
    using assms(3) by (auto simp: wal_sync_def)
  have "OpenWithOptions cd (q_opts q) (q_wal q) = Inr q0"
    using assms(1) r by (auto simp: OpenWithOptions_def valid_opts_def Let_def)
  moreover have s: "sorted_entries q0 = sorted_entries q" by (rule sorted_entries_cong[OF assms(2) m d])
  have len: "length (sorted_entries p) = length (q_items p)" for p :: "'a queue"
    by (simp add: sorted_entries_def)
  have "length (q_items q0) = length (q_items q)" using len[of q0] len[of q] s by simp
  moreover have "q_opts q0 = q_opts q" using replay_opts[OF r] by (simp add: fresh_queue_def)
  ultimately have "same_contents q0 q" by (simp add: same_contents_def Get_def List_def Stats_def m b s)
  with \<open>OpenWithOptions cd (q_opts q) (q_wal q) = Inr q0\<close> show ?thesis by blast
qed

lemma fresh_fields [simp]:
  "q_opts (fresh_queue opt w) = opt" "q_ops (fresh_queue opt w) = 0"
  by (simp_all add: fresh_queue_def)

lemma fresh_props:
  "qinv cd (fresh_queue opt [])" "wal_sync cd (fresh_queue opt [])" "healthy (fresh_queue opt [])"
  by (simp_all add: qinv_def items_inv_def fresh_queue_def wal_sync_def healthy_def)

subsection \<open>The contract\<close>

text \<open>What \<^verbatim>\<open>QueueLike\<close> promises its clients, for a queue that refuses rather than
  evicts: a put that returns no error stores the value and disturbs no other ID; one
  that fails changes nothing a reader sees; a delete that returns no error removes its
  ID and no other; the listing holds what lookups find.\<close>

locale queue_like =
  fixes put :: "string \<Rightarrow> 'v \<Rightarrow> 'q \<Rightarrow> 'q \<times> 'e option"
    and del :: "string \<Rightarrow> 'q \<Rightarrow> 'q \<times> 'e option"
    and get :: "string \<Rightarrow> 'q \<Rightarrow> 'v option"
    and lst :: "'q \<Rightarrow> 'v list"
    and inv :: "'q \<Rightarrow> bool"
  assumes put_inv: "inv q \<Longrightarrow> inv (fst (put i v q))"
    and del_inv: "inv q \<Longrightarrow> inv (fst (del i q))"
    and get_put: "inv q \<Longrightarrow>
      get j (fst (put i v q)) = (if j = i \<and> snd (put i v q) = None then Some v else get j q)"
    and get_del: "inv q \<Longrightarrow>
      get j (fst (del i q)) = (if j = i \<and> snd (del i q) = None then None else get j q)"
    and lst_get: "inv q \<Longrightarrow> set (lst q) = {v. \<exists>i. get i q = Some v}"
begin

text \<open>A delete never removes anything but its own ID, whatever it returns.\<close>

lemma del_other: "inv q \<Longrightarrow> j \<noteq> i \<Longrightarrow> get j (fst (del i q)) = get j q"
  by (simp add: get_del)

lemma put_other: "inv q \<Longrightarrow> j \<noteq> i \<Longrightarrow> get j (fst (put i v q)) = get j q"
  by (simp add: get_put)

text \<open>Replacing an entry never loses it: the old or the new value is there.\<close>

lemma put_keeps: "inv q \<Longrightarrow> get i q = Some u \<Longrightarrow> get i (fst (put i v q)) \<in> {Some u, Some v}"
  by (simp add: get_put)

lemma put_again:
  "inv q \<Longrightarrow> snd (put i v q) = None \<Longrightarrow>
   get j (fst (put i v (fst (put i v q)))) = get j (fst (put i v q))"
  by (simp add: get_put put_inv)

end

text \<open>The order in which a client sees the values is the order of insertion.\<close>

locale fifo_queue = queue_like put del get lst inv
  for put :: "string \<Rightarrow> 'v \<Rightarrow> 'q \<Rightarrow> 'q \<times> 'e option"
    and del :: "string \<Rightarrow> 'q \<Rightarrow> 'q \<times> 'e option"
    and get :: "string \<Rightarrow> 'q \<Rightarrow> 'v option"
    and lst :: "'q \<Rightarrow> 'v list"
    and inv :: "'q \<Rightarrow> bool" +
  assumes lst_put: "inv q \<Longrightarrow> get i q = None \<Longrightarrow> snd (put i v q) = None \<Longrightarrow>
    lst (fst (put i v q)) = lst q @ [v]"
begin

fun put_all :: "(string \<times> 'v) list \<Rightarrow> 'q \<Rightarrow> 'q \<times> bool" where
  "put_all [] q = (q, True)"
| "put_all ((i, v) # ivs) q =
     (let r = put_all ivs (fst (put i v q)) in (fst r, snd r \<and> snd (put i v q) = None))"

lemma put_all_order:
  assumes "inv q" "distinct (map fst ivs)" "\<forall>i \<in> fst ` set ivs. get i q = None" "snd (put_all ivs q)"
  shows "lst (fst (put_all ivs q)) = lst q @ map snd ivs"
  using assms
proof (induction ivs arbitrary: q)
  case (Cons p ivs)
  obtain i v where p: "p = (i, v)" by (cases p)
  let ?q = "fst (put i v q)"
  have ok: "snd (put i v q) = None" "snd (put_all ivs ?q)" using Cons.prems(4) p by (auto simp: Let_def)
  have "\<forall>j \<in> fst ` set ivs. get j ?q = None"
  proof
    fix j assume j: "j \<in> fst ` set ivs"
    then have "j \<noteq> i" using Cons.prems(2) p by auto
    then show "get j ?q = None" using Cons.prems(1,3) p j by (auto simp: put_other)
  qed
  then have "lst (fst (put_all ivs ?q)) = lst ?q @ map snd ivs"
    using Cons ok p by (simp add: put_inv)
  then show ?case using p Cons.prems ok by (simp add: Let_def lst_put)
qed simp

end

definition live :: "'v codec \<Rightarrow> 'v queue \<Rightarrow> bool" where
  "live cd q \<longleftrightarrow> qinv cd q \<and> op_Policy (q_opts q) \<noteq> ''drop-oldest''"

lemma set_List: "qinv cd q \<Longrightarrow> set (List q) = {v. \<exists>i. Get i q = Some v}"
proof -
  assume inv: "qinv cd q"
  then have d: "distinct (map fst (q_items q))" by (simp add: qinv_def items_inv_def)
  have "set (List q) = e_Data ` snd ` set (q_items q)" by (simp add: List_def sorted_entries_def)
  also have "\<dots> = {v. \<exists>i. Get i q = Some v}"
  proof (intro set_eqI iffI)
    fix v assume "v \<in> e_Data ` snd ` set (q_items q)"
    then obtain i e where "(i, e) \<in> set (q_items q)" "v = e_Data e" by auto
    then have "Get i q = Some v" using d by (simp add: Get_def)
    then show "v \<in> {v. \<exists>i. Get i q = Some v}" by blast
  next
    fix v assume "v \<in> {v. \<exists>i. Get i q = Some v}"
    then obtain i e where "map_of (q_items q) i = Some e" "v = e_Data e" by (auto simp: Get_def)
    then have "(i, e) \<in> set (q_items q)" by (simp add: map_of_SomeD)
    then show "v \<in> e_Data ` snd ` set (q_items q)" using \<open>v = e_Data e\<close> by (force intro: image_eqI)
  qed
  finally show ?thesis .
qed

interpretation wq: fifo_queue "Put cd" "Delete cd" Get List "live cd" for cd :: "'v codec"
proof (standard, goal_cases)
  case (1 q i v)
  then show ?case by (simp add: live_def Put_inv Put_policy not_drop_oldest_clean)
next
  case (2 q i)
  then show ?case by (simp add: live_def Delete_inv Delete_policy)
next
  case (3 q j i v)
  then have p: "op_Policy (q_opts q) \<noteq> ''drop-oldest''" by (simp add: live_def)
  show ?case
  proof (cases "snd (Put cd i v q)")
    case None
    then show ?thesis using Put_ok_Get[of cd i v q] Put_other[OF p, of j i cd v] by (cases "j = i") simp_all
  next
    case (Some err)
    then show ?thesis using Put_fail_Get[OF p Some, of j] by simp
  qed
next
  case (4 q j i)
  then show ?case by (simp add: Delete_Get)
next
  case (5 q)
  then show ?case using set_List[of cd q] by (simp add: live_def)
next
  case (6 q i v)
  then show ?case by (simp add: live_def List_Put_fresh)
qed

subsection \<open>Properties\<close>

definition text_codec :: "string codec" where
  "text_codec = \<lparr>marshal = Some, unmarshal = Some\<rparr>"

lemma text_codec_ok: "codec_ok text_codec"
  by (simp add: codec_ok_def text_codec_def)

definition reject_opts :: options where
  "reject_opts = \<lparr>op_MaxItems = 2, op_MaxBytes = 100, op_Policy = ''reject''\<rparr>"



text \<open>C8: accounting and limits.  Under every outcome of the file system a put and a
  delete keep the index consistent (one entry per ID, distinct sequence numbers, a
  byte count equal to the sum of the entries), and a put that succeeds leaves the
  queue within both of its limits; the put must not replace an entry it may have to
  evict.\<close>

theorem queue_accounting:
  assumes "qinv cd q" and "put_clean cd i v q"
  shows "qinv cd (fst (Put cd i v q)) \<and> qinv cd (fst (Delete cd i q)) \<and>
    (snd (Put cd i v q) = None \<longrightarrow> \<not> overLimit (fst (Put cd i v q)) 0 0)"
  using assms by (simp add: Put_inv Delete_inv Put_within_limits)

definition small_queue :: "string queue" where
  "small_queue = \<lparr>q_items = [(''a'', \<lparr>e_ID = ''a'', e_Seq = 1, e_Data = ''12345678'', e_Bytes = 8\<rparr>),
       (''b'', \<lparr>e_ID = ''b'', e_Seq = 2, e_Data = ''1'', e_Bytes = 1\<rparr>)],
     q_seq = 2, q_bytes = 9, q_ops = 2,
     q_opts = \<lparr>op_MaxItems = 0, op_MaxBytes = 10, op_Policy = ''drop-oldest''\<rparr>,
     q_wal = [Rec \<lparr>r_Op = ''put'', r_ID = ''a'', r_Seq = 1, r_Data = ''12345678''\<rparr>,
              Rec \<lparr>r_Op = ''put'', r_ID = ''b'', r_Seq = 2, r_Data = ''1''\<rparr>],
     q_open = True, q_io = []\<rparr>"

lemma small_queue_inv: "qinv text_codec small_queue"
  by (simp add: qinv_def items_inv_def entry_ok_def text_codec_def small_queue_def)

lemma small_queue_put: "snd (Put text_codec ''c'' ''123'' small_queue) = None"
  by code_simp

theorem queue_accounting_witness:
  "qinv text_codec (fst (Put text_codec ''c'' ''123'' small_queue)) \<and>
   qinv text_codec (fst (Delete text_codec ''c'' small_queue)) \<and>
   snd (Put text_codec ''c'' ''123'' small_queue) = None \<and>
   \<not> overLimit (fst (Put text_codec ''c'' ''123'' small_queue)) 0 0"
proof -
  have "put_clean text_codec ''c'' ''123'' small_queue" by (simp add: put_clean_def small_queue_def)
  from queue_accounting[OF small_queue_inv this] show ?thesis
    using small_queue_put by simp
qed


text \<open>C10: the append that reaches the compaction threshold is lost.  The log is rewritten
  from the index before the index gets the new entry, so reopening the queue brings back
  the contents before the operation: the put that was acknowledged is gone, and the entry
  that was deleted is back.\<close>

theorem queue_compaction_loses:
  assumes "codec_ok cd" and "qinv cd q" and "healthy q" and "valid_opts (q_opts q)"
    and "op_Policy (q_opts q) \<noteq> ''drop-oldest''" and "q_ops q = 4095"
    and "snd (Put cd i v q) = None" and "Get j q \<noteq> None"
  shows "Get i (fst (Put cd i v q)) = Some v \<and> Get j (fst (Delete cd j q)) = None \<and>
    (\<exists>q'. OpenWithOptions cd (q_opts q) (q_wal (fst (Put cd i v q))) = Inr q' \<and> (\<forall>k. Get k q' = Get k q)) \<and>
    (\<exists>q'. OpenWithOptions cd (q_opts q) (q_wal (fst (Delete cd j q))) = Inr q' \<and> (\<forall>k. Get k q' = Get k q))"
proof (intro conjI)
  let ?b = "q\<lparr>q_seq := Suc (q_seq q)\<rparr>"
  have b: "qinv cd ?b" "healthy ?b" "4095 \<le> q_ops ?b"
    using assms(2,3,6) bump_inv by (simp_all add: healthy_def)
  have old: "\<exists>q'. OpenWithOptions cd (q_opts q) ls = Inr q' \<and> (\<forall>k. Get k q' = Get k q)"
    if "wal_sync cd (?b\<lparr>q_wal := ls, q_ops := 0\<rparr>)" for ls
    using reopen[OF _ _ that] assms(4) b(1) by (auto simp: qinv_def same_contents_def Get_def)
  show "Get i (fst (Put cd i v q)) = Some v" by (rule Put_ok_Get[OF assms(7)])
  show "\<exists>q'. OpenWithOptions cd (q_opts q) (q_wal (fst (Put cd i v q))) = Inr q' \<and> (\<forall>k. Get k q' = Get k q)"
  proof (cases rule: Put_cases[where cd = cd and i = i and v = v and q = q])
    case (5 d q' q'')
    have q': "q' = q" using room_same[OF assms(5)] 5(3) by (metis fst_conv)
    obtain ls where ls: "appendLocked cd (put_record i (Suc (q_seq q)) d) ?b = (?b\<lparr>q_io := [], q_wal := ls, q_ops := 0\<rparr>, None)"
      "wal_sync cd (?b\<lparr>q_wal := ls, q_ops := 0\<rparr>)"
      using append_compacts[OF assms(1) b] by blast
    have "q_wal q'' = ls" using 5(4) ls(1) by (auto simp: q')
    then show ?thesis using old[OF ls(2)] 5(5) by (simp add: store_entry_def)
  qed (use assms(7) in simp_all)
  obtain e where e: "map_of (q_items q) j = Some e" using assms(8) by (auto simp: Get_def)
  obtain ls where d: "appendLocked cd (del_record j (Suc (q_seq q))) ?b = (?b\<lparr>q_io := [], q_wal := ls, q_ops := 0\<rparr>, None)"
    "wal_sync cd (?b\<lparr>q_wal := ls, q_ops := 0\<rparr>)"
    using append_compacts[OF assms(1) b] by blast
  have eq: "Delete cd j q = (drop_item j (?b\<lparr>q_io := [], q_wal := ls, q_ops := 0\<rparr>), None)"
    using d(1) e by (simp add: Delete_def)
  show "\<exists>q'. OpenWithOptions cd (q_opts q) (q_wal (fst (Delete cd j q))) = Inr q' \<and> (\<forall>k. Get k q' = Get k q)"
    using old[OF d(2)] eq by (simp add: drop_item_def)
  show "Get j (fst (Delete cd j q)) = None" using Delete_Get[of j cd j q] eq by simp
qed

definition full_log_queue :: "string queue" where
  "full_log_queue = \<lparr>q_items = [(''a'', \<lparr>e_ID = ''a'', e_Seq = 1, e_Data = ''x'', e_Bytes = 1\<rparr>)],
     q_seq = 4095, q_bytes = 1, q_ops = 4095, q_opts = reject_opts, q_wal = [], q_open = True, q_io = []\<rparr>"

theorem queue_compaction_loses_witness:
  "Get ''b'' (fst (Put text_codec ''b'' ''y'' full_log_queue)) = Some ''y'' \<and>
   Get ''a'' (fst (Delete text_codec ''a'' full_log_queue)) = None \<and>
   (\<exists>q'. OpenWithOptions text_codec (q_opts full_log_queue)
        (q_wal (fst (Put text_codec ''b'' ''y'' full_log_queue))) = Inr q' \<and>
      (\<forall>k. Get k q' = Get k full_log_queue)) \<and>
   (\<exists>q'. OpenWithOptions text_codec (q_opts full_log_queue)
        (q_wal (fst (Delete text_codec ''a'' full_log_queue))) = Inr q' \<and>
      (\<forall>k. Get k q' = Get k full_log_queue))"
proof (rule queue_compaction_loses[OF text_codec_ok])
  show "qinv text_codec full_log_queue"
    by (simp add: qinv_def items_inv_def entry_ok_def text_codec_def full_log_queue_def)
  show "snd (Put text_codec ''b'' ''y'' full_log_queue) = None"
    by (simp add: Put_def text_codec_def full_log_queue_def overLimit_def reject_opts_def put_record_def
        appendLocked_def next_io_def Let_def compactLocked_def sorted_entries_def)
qed (simp_all add: full_log_queue_def healthy_def valid_opts_def reject_opts_def Get_def)

lemma Delete_sorted:
  assumes inv: "qinv cd q" and ok: "snd (Delete cd i q) = None"
  shows "sorted_entries (fst (Delete cd i q)) = filter (\<lambda>e. e_ID e \<noteq> i) (sorted_entries q)"
proof -
  have ids: "\<forall>(k, e) \<in> set (q_items q). e_ID e = k"
    using inv by (auto simp: qinv_def items_inv_def entry_ok_def)
  have "q_items (fst (Delete cd i q)) = AList.delete i (q_items q)"
  proof (cases "map_of (q_items q) i")
    case None
    then have "AList.delete i (q_items q) = q_items q" by (intro alist_delete_absent) (simp add: map_of_eq_None_iff)
    then show ?thesis using None by (simp add: Delete_def del: map_of_eq_None_iff)
  next
    case (Some e)
    obtain q' x where a: "appendLocked cd (del_record i (q_seq q + 1)) (q\<lparr>q_seq := q_seq q + 1\<rparr>) = (q', x)"
      by fastforce
    show ?thesis using a append_fst(1)[OF a] ok Some by (cases x) (simp_all add: Delete_def drop_item_def)
  qed
  moreover have "map snd (AList.delete i (q_items q)) = filter (\<lambda>e. e_ID e \<noteq> i) (map snd (q_items q))"
    using ids by (induction "q_items q" rule: rev_induct) (auto simp: AList.delete_eq filter_map o_def intro!: arg_cong[where f = "map snd"] filter_cong)
  ultimately show ?thesis by (simp add: sorted_entries_def filter_sort)
qed

text \<open>C11: order.  A value put under a new ID is listed after everything that was there,
  and a delete takes its value out of the listing and leaves the rest in order.\<close>

theorem queue_fifo:
  assumes "live cd q" and "Get i q = None" and "snd (Put cd i v q) = None" and "snd (Delete cd j q) = None"
  shows "List (fst (Put cd i v q)) = List q @ [v] \<and>
    List (fst (Delete cd j q)) = map e_Data (filter (\<lambda>e. e_ID e \<noteq> j) (sorted_entries q))"
  using wq.lst_put[OF assms(1,2,3)] Delete_sorted[OF _ assms(4)] assms(1)
  by (simp add: List_def live_def)

theorem queue_fifo_witness:
  "List (fst (Put text_codec ''z'' ''w'' (qrun text_codec [QPut ''a'' ''x''] (fresh_queue reject_opts [])))) =
     List (qrun text_codec [QPut ''a'' ''x''] (fresh_queue reject_opts [])) @ [''w''] \<and>
   List (fst (Delete text_codec ''a'' (qrun text_codec [QPut ''a'' ''x''] (fresh_queue reject_opts [])))) =
     map e_Data (filter (\<lambda>e. e_ID e \<noteq> ''a'')
       (sorted_entries (qrun text_codec [QPut ''a'' ''x''] (fresh_queue reject_opts []))))"
proof (rule queue_fifo)
  let ?q = "qrun text_codec [QPut ''a'' ''x''] (fresh_queue reject_opts [])"
  show "live text_codec ?q"
    using qrun_inv[of "fresh_queue reject_opts []" text_codec "[QPut ''a'' ''x'']"] fresh_props(1)[of text_codec reject_opts]
    by (simp add: live_def reject_opts_def)
  show "Get ''z'' ?q = None" by code_simp
  show "snd (Put text_codec ''z'' ''w'' ?q) = None" by code_simp
  show "snd (Delete text_codec ''a'' ?q) = None" by code_simp
qed
end
