(* ===== verification/Mqtt_Broker.thy ===== *)
theory Mqtt_Broker
  imports Mqtt_Codec Router Queue "HOL-Library.Monad_Syntax"
begin

text \<open>
  The edge broker, \<^verbatim>\<open>internal/mqtt/broker.go\<close> and \<^verbatim>\<open>session.go\<close>: one call of
  \<^verbatim>\<open>serve_packet\<close> is one round of a client's \<^verbatim>\<open>serve\<close> loop, including the deferred
  clean-up when the loop returns.

  A connection is identified by a number, a persistent session by its address in a
  heap, because a connection keeps its pointer to a session that was discarded
  meanwhile.  What a client was sent is the list of the packets written to it;
  \<^verbatim>\<open>cl_wio\<close> holds the outcomes of the writes to come (none left: they succeed).
  \<^verbatim>\<open>b_disk\<close> are the session directories left by an earlier process, by client ID:
  the source names them by a SHA-256 digest of it, taken to be collision free.
  \<^const>\<open>None\<close> as the result of an operation means that it does not return, which
  only the search for a free packet identifier can cause.
\<close>

subsection \<open>State\<close>

record message =
  msg_Topic :: string
  msg_Payload :: bytes
  msg_QoS :: "8 word"
  msg_Retain :: bool

datatype out_phase = AwaitPubrec | AwaitPubcomp

record client =
  cl_connected :: bool
  cl_subs :: "subscription list"
  cl_session :: "nat option"
  cl_qos2Pending :: "(16 word \<times> message) list"
  cl_nextOutID :: "16 word"
  cl_qos2Out :: "(16 word \<times> out_phase) list"
  cl_username :: string
  cl_pubWindow :: time
  cl_pubCount :: int
  cl_sent :: "bytes list"
  cl_wio :: "bool list"

record stored_msg =
  sm_ID :: string
  sm_Topic :: string
  sm_Payload :: bytes
  sm_QoS :: "8 word"

record session =
  ps_subs :: "subscription list"
  ps_live :: "nat option"
  ps_q :: "stored_msg queue"
  ps_seq :: nat

record broker_cfg =
  bc_handler :: bool
  bc_Authenticate :: "(string \<Rightarrow> string \<Rightarrow> bool) option"
  bc_Authorize :: "(string \<Rightarrow> string \<Rightarrow> bool \<Rightarrow> bool) option"
  bc_MaxClients :: int
  bc_MaxPublishPerMinute :: int
  bc_sessions :: bool
  bc_sessionOpts :: options
  bc_codec :: "stored_msg codec"

record broker =
  b_clients :: "(nat \<times> client) list"
  b_sessions :: "(string \<times> nat) list"
  b_heap :: "(nat \<times> session) list"
  b_disk :: "(string \<times> wal_line list) list"
  b_handled :: "message list"

definition new_client :: client where
  "new_client = \<lparr>cl_connected = False, cl_subs = [], cl_session = None, cl_qos2Pending = [],
     cl_nextOutID = 0, cl_qos2Out = [], cl_username = [], cl_pubWindow = 0, cl_pubCount = 0,
     cl_sent = [], cl_wio = []\<rparr>"

text \<open>The accept loop of \<^verbatim>\<open>Start\<close>: a connection over the cap is closed at once.\<close>

definition accept_conn :: "broker_cfg \<Rightarrow> nat \<Rightarrow> broker \<Rightarrow> broker" where
  "accept_conn cfg c b =
     (if 0 < bc_MaxClients cfg \<and> bc_MaxClients cfg \<le> int (length (b_clients b)) then b
      else b\<lparr>b_clients := AList.update c new_client (b_clients b)\<rparr>)"

subsection \<open>Writing to a client\<close>

definition cl_write :: "bytes \<Rightarrow> client \<Rightarrow> client \<times> bool" where
  "cl_write p cl =
     (case cl_wio cl of
        [] \<Rightarrow> (cl\<lparr>cl_sent := cl_sent cl @ [p]\<rparr>, True)
      | ok # w \<Rightarrow>
          if ok then (cl\<lparr>cl_sent := cl_sent cl @ [p], cl_wio := w\<rparr>, True)
          else (cl\<lparr>cl_wio := w\<rparr>, False))"

fun find_id :: "nat \<Rightarrow> 16 word \<Rightarrow> 16 word list \<Rightarrow> 16 word option" where
  "find_id 0 n busy = None"
| "find_id (Suc k) n busy =
     (let m = (if n + 1 = 0 then 1 else n + 1)
      in if m \<notin> set busy then Some m else find_id k m busy)"

text \<open>The loop of \<^verbatim>\<open>nextOutPacketID\<close>: 65535 rounds visit every identifier.\<close>

definition nextOutPacketID :: "client \<Rightarrow> (client \<times> 16 word) option" where
  "nextOutPacketID cl =
     map_option (\<lambda>n. (cl\<lparr>cl_nextOutID := n\<rparr>, n)) (find_id 65535 (cl_nextOutID cl) (map fst (cl_qos2Out cl)))"

definition sendPublish :: "string \<Rightarrow> bytes \<Rightarrow> 8 word \<Rightarrow> bool \<Rightarrow> client \<Rightarrow> (client \<times> bool) option" where
  "sendPublish topic payload qos dup cl = do {
     (cl, pid) \<leftarrow> (if 0 < qos then nextOutPacketID cl else Some (cl, 0));
     let cl = (if qos = 2 then cl\<lparr>cl_qos2Out := AList.update pid AwaitPubrec (cl_qos2Out cl)\<rparr> else cl);
     let (cl, ok) = cl_write (publish_packet topic payload qos dup pid) cl;
     Some (if \<not> ok \<and> qos = 2 then cl\<lparr>cl_qos2Out := AList.delete pid (cl_qos2Out cl)\<rparr> else cl, ok) }"

definition minQoS :: "8 word \<Rightarrow> 8 word \<Rightarrow> 8 word" where
  "minQoS a b = (if a < b then a else b)"

subsection \<open>Sessions\<close>

definition sub_match :: "string \<Rightarrow> subscription list \<Rightarrow> subscription option" where
  "sub_match topic subs = find (\<lambda>s. Match (fst s) topic) subs"

definition enqueue :: "stored_msg codec \<Rightarrow> string \<Rightarrow> bytes \<Rightarrow> 8 word \<Rightarrow> session \<Rightarrow> session" where
  "enqueue cd topic payload qos s =
     (let n = ps_seq s + 1; i = ''m'' @ format_nat n
      in s\<lparr>ps_seq := n,
           ps_q := fst (Put cd i \<lparr>sm_ID = i, sm_Topic = topic, sm_Payload = payload, sm_QoS = qos\<rparr> (ps_q s))\<rparr>)"

fun replay_msgs ::
  "stored_msg codec \<Rightarrow> stored_msg list \<Rightarrow> session \<Rightarrow> client \<Rightarrow> (session \<times> client \<times> bool) option" where
  "replay_msgs cd [] s cl = Some (s, cl, True)"
| "replay_msgs cd (m # ms) s cl = do {
     (cl, ok) \<leftarrow> sendPublish (sm_Topic m) (sm_Payload m) (sm_QoS m) (0 < sm_QoS m) cl;
     if \<not> ok then Some (s, cl, False)
     else replay_msgs cd ms (s\<lparr>ps_q := fst (Delete cd (sm_ID m) (ps_q s))\<rparr>) cl }"

definition replay_session ::
  "stored_msg codec \<Rightarrow> session \<Rightarrow> client \<Rightarrow> (session \<times> client \<times> bool) option" where
  "replay_session cd s cl = replay_msgs cd (List (ps_q s)) s cl"

definition fresh_addr :: "broker \<Rightarrow> nat" where
  "fresh_addr b = Suc (Max (insert 0 (set (map fst (b_heap b)))))"

text \<open>\<^verbatim>\<open>resumeSession\<close>: the broker, the session's address and whether it existed;
  \<^const>\<open>None\<close> when the queue cannot be opened.\<close>

definition resumeSession :: "broker_cfg \<Rightarrow> string \<Rightarrow> broker \<Rightarrow> (broker \<times> nat \<times> bool) option" where
  "resumeSession cfg clientID b =
     (case map_of (b_sessions b) clientID of
        Some a \<Rightarrow> Some (b, a, True)
      | None \<Rightarrow>
          let existed = (map_of (b_disk b) clientID \<noteq> None);
              wal = (case map_of (b_disk b) clientID of None \<Rightarrow> [] | Some w \<Rightarrow> w)
          in case OpenWithOptions (bc_codec cfg) (bc_sessionOpts cfg) wal of
               Inl _ \<Rightarrow> None
             | Inr q \<Rightarrow>
                 let a = fresh_addr b
                 in Some (b\<lparr>b_heap := AList.update a \<lparr>ps_subs = [], ps_live = None, ps_q = q, ps_seq = 0\<rparr> (b_heap b),
                            b_sessions := AList.update clientID a (b_sessions b),
                            b_disk := AList.update clientID wal (b_disk b)\<rparr>, a, existed))"

definition map_session :: "nat \<Rightarrow> (session \<Rightarrow> session) \<Rightarrow> broker \<Rightarrow> broker" where
  "map_session a f b =
     (case map_of (b_heap b) a of None \<Rightarrow> b | Some s \<Rightarrow> b\<lparr>b_heap := AList.update a (f s) (b_heap b)\<rparr>)"

definition discardSession :: "string \<Rightarrow> broker \<Rightarrow> broker" where
  "discardSession clientID b =
     (let b' = (case map_of (b_sessions b) clientID of
                  None \<Rightarrow> b | Some a \<Rightarrow> map_session a (\<lambda>s. s\<lparr>ps_q := Close (ps_q s)\<rparr>) b)
      in b'\<lparr>b_sessions := AList.delete clientID (b_sessions b'),
            b_disk := AList.delete clientID (b_disk b')\<rparr>)"

definition detach :: "nat \<Rightarrow> session \<Rightarrow> session" where
  "detach c s = (if ps_live s = Some c then s\<lparr>ps_live := None\<rparr> else s)"

subsection \<open>Fan-out\<close>

fun publish_clients :: "message \<Rightarrow> (nat \<times> client) list \<Rightarrow> (nat \<times> client) list option" where
  "publish_clients m [] = Some []"
| "publish_clients m ((c, cl) # cs) = do {
     cl \<leftarrow> (case sub_match (msg_Topic m) (cl_subs cl) of
              None \<Rightarrow> Some cl
            | Some s \<Rightarrow> map_option fst
                (sendPublish (msg_Topic m) (msg_Payload m) (minQoS (msg_QoS m) (snd s)) False cl));
     cs \<leftarrow> publish_clients m cs;
     Some ((c, cl) # cs) }"

definition publish_session :: "broker_cfg \<Rightarrow> message \<Rightarrow> session \<Rightarrow> session" where
  "publish_session cfg m s =
     (if ps_live s \<noteq> None then s
      else case sub_match (msg_Topic m) (ps_subs s) of
        None \<Rightarrow> s
      | Some sub \<Rightarrow> enqueue (bc_codec cfg) (msg_Topic m) (msg_Payload m) (minQoS (msg_QoS m) (snd sub)) s)"

definition Publish :: "broker_cfg \<Rightarrow> message \<Rightarrow> broker \<Rightarrow> broker option" where
  "Publish cfg m b = do {
     cs \<leftarrow> publish_clients m (b_clients b);
     let b = b\<lparr>b_clients := cs\<rparr>;
     Some (if \<not> bc_sessions cfg then b
           else b\<lparr>b_heap := map (\<lambda>(a, s). (a, if a \<in> snd ` set (b_sessions b) then publish_session cfg m s else s)) (b_heap b)\<rparr>) }"

subsection \<open>One packet\<close>

definition permit :: "broker_cfg \<Rightarrow> client \<Rightarrow> string \<Rightarrow> bool \<Rightarrow> bool" where
  "permit cfg cl topic w =
     (case bc_Authorize cfg of None \<Rightarrow> True | Some f \<Rightarrow> f (cl_username cl) topic w)"

definition underPublishCap :: "broker_cfg \<Rightarrow> time \<Rightarrow> client \<Rightarrow> client \<times> bool" where
  "underPublishCap cfg now cl =
     (if bc_MaxPublishPerMinute cfg \<le> 0 then (cl, True)
      else let cl = (if cl_pubWindow cl = 0 \<or> minute \<le> now - cl_pubWindow cl
                     then cl\<lparr>cl_pubWindow := now, cl_pubCount := 0\<rparr> else cl);
               cl = cl\<lparr>cl_pubCount := cl_pubCount cl + 1\<rparr>
           in (cl, cl_pubCount cl \<le> bc_MaxPublishPerMinute cfg))"

definition set_client :: "nat \<Rightarrow> client \<Rightarrow> broker \<Rightarrow> broker" where
  "set_client c cl b = b\<lparr>b_clients := AList.update c cl (b_clients b)\<rparr>"

text \<open>Writing to the connection being served: the broker and whether the write worked.\<close>

definition reply :: "nat \<Rightarrow> bytes \<Rightarrow> broker \<Rightarrow> broker \<times> bool" where
  "reply c p b =
     (case map_of (b_clients b) c of
        None \<Rightarrow> (b, False)
      | Some cl \<Rightarrow> let (cl, ok) = cl_write p cl in (set_client c cl b, ok))"

definition handle_msg :: "broker_cfg \<Rightarrow> message \<Rightarrow> broker \<Rightarrow> broker option" where
  "handle_msg cfg m b =
     Publish cfg m (if bc_handler cfg then b\<lparr>b_handled := b_handled b @ [m]\<rparr> else b)"

definition on_connect :: "broker_cfg \<Rightarrow> nat \<Rightarrow> bytes \<Rightarrow> client \<Rightarrow> broker \<Rightarrow> (broker \<times> bool) option" where
  "on_connect cfg c payload cl b =
     (if cl_connected cl then Some (b, False)
      else case parseConnect payload of
        None \<Rightarrow> Some (b, False)
      | Some info \<Rightarrow>
          if (case bc_Authenticate cfg of None \<Rightarrow> False | Some f \<Rightarrow> \<not> f (ci_username info) (ci_password info))
          then Some (fst (reply c [0x20, 0x02, 0x00, 0x04] b), False)
          else
            let cl = cl\<lparr>cl_username := ci_username info\<rparr>
            in case (if \<not> bc_sessions cfg then Some (b, cl, False)
                     else if ci_cleanSession info then Some (discardSession (ci_clientID info) b, cl, False)
                     else case resumeSession cfg (ci_clientID info) b of
                       None \<Rightarrow> None
                     | Some (b, a, existed) \<Rightarrow>
                         let b = map_session a (\<lambda>s. s\<lparr>ps_live := Some c\<rparr>) b;
                             subs = (case map_of (b_heap b) a of None \<Rightarrow> [] | Some s \<Rightarrow> ps_subs s)
                         in Some (b, cl\<lparr>cl_session := Some a, cl_subs := subs\<rparr>, existed)) of
                 None \<Rightarrow> Some (set_client c cl b, False)
               | Some (b, cl, present) \<Rightarrow>
                   let (b, ok) = reply c [0x20, 0x02, 0x00, if present then 1 else 0] (set_client c cl b)
                   in if \<not> ok then Some (b, False)
                      else (case map_of (b_clients b) c of
                        None \<Rightarrow> Some (b, False)
                      | Some cl \<Rightarrow>
                          let cl = cl\<lparr>cl_connected := True\<rparr>
                          in case cl_session cl of
                               None \<Rightarrow> Some (set_client c cl b, True)
                             | Some a \<Rightarrow>
                                 (case map_of (b_heap b) a of
                                    None \<Rightarrow> Some (set_client c cl b, True)
                                  | Some s \<Rightarrow> do {
                                      (s, cl, ok) \<leftarrow> replay_session (bc_codec cfg) s cl;
                                      Some (map_session a (\<lambda>_. s) (set_client c cl b), ok) })))"

definition on_publish :: "broker_cfg \<Rightarrow> time \<Rightarrow> nat \<Rightarrow> 8 word \<Rightarrow> bytes \<Rightarrow> client \<Rightarrow> broker \<Rightarrow> (broker \<times> bool) option" where
  "on_publish cfg now c flags payload cl b =
     (if \<not> cl_connected cl then Some (b, False)
      else case parsePublish flags payload of
        None \<Rightarrow> Some (b, False)
      | Some (topic, body, qos, pid) \<Rightarrow>
          let m = \<lparr>msg_Topic = topic, msg_Payload = body, msg_QoS = qos, msg_Retain = (flags AND 1 \<noteq> 0)\<rparr>;
              (cl, under) = underPublishCap cfg now cl;
              b = set_client c cl b
          in if \<not> under \<or> \<not> permit cfg cl topic True then Some (b, False)
             else if qos = 2 then
               (let cl = cl\<lparr>cl_qos2Pending := AList.update pid m (cl_qos2Pending cl)\<rparr>
                in Some (reply c (ack 0x50 pid) (set_client c cl b)))
             else do {
               b \<leftarrow> handle_msg cfg m b;
               Some (if qos = 1 then fst (reply c (ack 0x40 pid) b) else b, True) })"

definition on_pubrec :: "nat \<Rightarrow> bytes \<Rightarrow> client \<Rightarrow> broker \<Rightarrow> broker \<times> bool" where
  "on_pubrec c payload cl b =
     (if \<not> cl_connected cl then (b, False)
      else case payload of
        x # y # _ \<Rightarrow>
          (let pid = be16 x y
           in case map_of (cl_qos2Out cl) pid of
                None \<Rightarrow> (b, True)
              | Some _ \<Rightarrow>
                  let cl = cl\<lparr>cl_qos2Out := AList.update pid AwaitPubcomp (cl_qos2Out cl)\<rparr>
                  in reply c (ack 0x62 pid) (set_client c cl b))
      | _ \<Rightarrow> (b, False))"

definition on_pubrel :: "broker_cfg \<Rightarrow> nat \<Rightarrow> bytes \<Rightarrow> client \<Rightarrow> broker \<Rightarrow> (broker \<times> bool) option" where
  "on_pubrel cfg c payload cl b =
     (if \<not> cl_connected cl then Some (b, False)
      else case payload of
        x # y # _ \<Rightarrow>
          (let pid = be16 x y;
               found = map_of (cl_qos2Pending cl) pid;
               cl = cl\<lparr>cl_qos2Pending := AList.delete pid (cl_qos2Pending cl)\<rparr>;
               b = set_client c cl b
           in case found of
                None \<Rightarrow> Some (reply c (ack 0x70 pid) b)
              | Some m \<Rightarrow>
                  if \<not> permit cfg cl (msg_Topic m) True then Some (b, False)
                  else map_option (reply c (ack 0x70 pid)) (handle_msg cfg m b))
      | _ \<Rightarrow> Some (b, False))"

definition on_pubcomp :: "nat \<Rightarrow> bytes \<Rightarrow> client \<Rightarrow> broker \<Rightarrow> broker \<times> bool" where
  "on_pubcomp c payload cl b =
     (if \<not> cl_connected cl then (b, False)
      else case payload of
        x # y # _ \<Rightarrow> (set_client c (cl\<lparr>cl_qos2Out := AList.delete (be16 x y) (cl_qos2Out cl)\<rparr>) b, True)
      | _ \<Rightarrow> (b, False))"

definition on_subscribe :: "broker_cfg \<Rightarrow> nat \<Rightarrow> bytes \<Rightarrow> client \<Rightarrow> broker \<Rightarrow> broker \<times> bool" where
  "on_subscribe cfg c payload cl b =
     (if \<not> cl_connected cl then (b, False)
      else case parseSubscribe payload of
        None \<Rightarrow> (b, False)
      | Some (pid, subs) \<Rightarrow>
          let granted = filter (\<lambda>s. permit cfg cl (fst s) False) subs;
              codes = map (\<lambda>s. if permit cfg cl (fst s) False then snd s else 0x80) subs;
              cl = cl\<lparr>cl_subs := cl_subs cl @ granted\<rparr>;
              b = set_client c cl b;
              b = (case cl_session cl of None \<Rightarrow> b | Some a \<Rightarrow> map_session a (\<lambda>s. s\<lparr>ps_subs := cl_subs cl\<rparr>) b)
          in reply c (suback pid codes) b)"

text \<open>One round of the loop: the broker and whether the loop goes on.\<close>

definition serve_round :: "broker_cfg \<Rightarrow> time \<Rightarrow> nat \<Rightarrow> 8 word \<Rightarrow> 8 word \<Rightarrow> bytes \<Rightarrow> client \<Rightarrow> broker \<Rightarrow> (broker \<times> bool) option" where
  "serve_round cfg now c typ flags payload cl b =
     (if typ = 1 then on_connect cfg c payload cl b
      else if typ = 3 then on_publish cfg now c flags payload cl b
      else if typ = 5 then Some (on_pubrec c payload cl b)
      else if typ = 6 then on_pubrel cfg c payload cl b
      else if typ = 7 then Some (on_pubcomp c payload cl b)
      else if typ = 8 then Some (on_subscribe cfg c payload cl b)
      else if typ = 12 then Some (reply c [0xd0, 0x00] b)
      else if typ = 14 then Some (b, False)
      else Some (b, True))"

text \<open>The deferred clean-up of \<^verbatim>\<open>serve\<close>.\<close>

definition drop_client :: "nat \<Rightarrow> broker \<Rightarrow> broker" where
  "drop_client c b =
     (case map_of (b_clients b) c of
        None \<Rightarrow> b
      | Some cl \<Rightarrow>
          let b = b\<lparr>b_clients := AList.delete c (b_clients b)\<rparr>
          in case cl_session cl of None \<Rightarrow> b | Some a \<Rightarrow> map_session a (detach c) b)"

definition serve_packet :: "broker_cfg \<Rightarrow> time \<Rightarrow> nat \<Rightarrow> 8 word \<times> 8 word \<times> bytes \<Rightarrow> broker \<Rightarrow> broker option" where
  "serve_packet cfg now c pkt b =
     (case map_of (b_clients b) c of
        None \<Rightarrow> Some b
      | Some cl \<Rightarrow>
          (case pkt of (typ, flags, payload) \<Rightarrow> do {
             (b, go) \<leftarrow> serve_round cfg now c typ flags payload cl b;
             Some (if go then b else drop_client c b) }))"

text \<open>A sequence of packets of one connection, and the bytes it arrives as.\<close>

fun serve_packets :: "broker_cfg \<Rightarrow> time \<Rightarrow> nat \<Rightarrow> (8 word \<times> 8 word \<times> bytes) list \<Rightarrow> broker \<Rightarrow> broker option" where
  "serve_packets cfg now c [] b = Some b"
| "serve_packets cfg now c (p # ps) b = do { b \<leftarrow> serve_packet cfg now c p b; serve_packets cfg now c ps b }"

fun serve_bytes :: "nat \<Rightarrow> broker_cfg \<Rightarrow> time \<Rightarrow> nat \<Rightarrow> bytes \<Rightarrow> broker \<Rightarrow> broker option" where
  "serve_bytes 0 cfg now c r b = Some (drop_client c b)"
| "serve_bytes (Suc k) cfg now c r b =
     (case readPacket r of
        None \<Rightarrow> Some (drop_client c b)
      | Some (typ, flags, payload, rest) \<Rightarrow> do {
          b \<leftarrow> serve_packet cfg now c (typ, flags, payload) b;
          serve_bytes k cfg now c rest b })"

subsection \<open>Lemmas: packet identifiers\<close>

definition next_id :: "16 word \<Rightarrow> 16 word" where
  "next_id n = (if n + 1 = 0 then 1 else n + 1)"

lemma unat_next_id: "unat (next_id n) = (if unat n = 65535 then 1 else unat n + 1)"
proof -
  have lt: "unat n < 65536" using unsigned_less[of n] by simp
  have "unat (n + 1) = (unat n + 1) mod 65536" by (simp add: unat_word_ariths)
  then show ?thesis using lt by (auto simp: next_id_def unat_eq_0[symmetric] simp flip: unat_0)
qed

lemma next_id_walk: "unat n + j \<le> 65535 \<Longrightarrow> unat ((next_id ^^ j) n) = unat n + j"
  by (induction j) (auto simp: unat_next_id)

lemma next_id_wrap: "unat n = 65535 \<Longrightarrow> j \<le> 65534 \<Longrightarrow> unat ((next_id ^^ Suc j) n) = 1 + j"
  by (induction j) (auto simp: unat_next_id)

lemma next_id_reaches:
  assumes "t \<noteq> 0"
  shows "\<exists>j \<in> {1..65535}. (next_id ^^ j) n = t"
proof -
  have nt: "unat n < 65536" "unat t < 65536" "unat t \<noteq> 0"
    using unsigned_less[of n] unsigned_less[of t] assms by (simp_all add: unat_eq_0)
  show ?thesis
  proof (cases "unat n < unat t")
    case True
    then have "unat ((next_id ^^ (unat t - unat n)) n) = unat t" using nt by (subst next_id_walk) auto
    then show ?thesis using True nt by (intro bexI[of _ "unat t - unat n"]) (auto simp: word_unat_eq_iff)
  next
    case False
    define k where "k = 65535 - unat n"
    have top: "unat ((next_id ^^ k) n) = 65535" using nt by (subst next_id_walk) (auto simp: k_def)
    have "unat ((next_id ^^ Suc (unat t - 1)) ((next_id ^^ k) n)) = unat t"
      using next_id_wrap[OF top, of "unat t - 1"] nt by simp
    then have "unat ((next_id ^^ (unat t + k)) n) = unat t" using nt(3) by (simp add: funpow_add)
    then show ?thesis using nt False
      by (intro bexI[of _ "unat t + k"]) (auto simp: word_unat_eq_iff k_def)
  qed
qed

lemma find_id_Suc:
  "find_id (Suc k) n busy = (if next_id n \<notin> set busy then Some (next_id n) else find_id k (next_id n) busy)"
  by (simp add: Let_def next_id_def)

lemma find_id_None: "find_id k n busy = None \<longleftrightarrow> (\<forall>j \<in> {1..k}. (next_id ^^ j) n \<in> set busy)"
proof (induction k arbitrary: n)
  case (Suc k)
  have "{1..Suc k} = insert 1 (Suc ` {1..k})" by (auto simp: image_Suc_atLeastAtMost)
  then have "(\<forall>j \<in> {1..Suc k}. (next_id ^^ j) n \<in> set busy) \<longleftrightarrow>
      next_id n \<in> set busy \<and> (\<forall>j \<in> {1..k}. (next_id ^^ j) (next_id n) \<in> set busy)"
    by (simp add: funpow_swap1 del: image_Suc_atLeastAtMost)
  then show ?case using Suc[of "next_id n"] by (simp add: find_id_Suc del: find_id.simps(2))
qed simp

lemma find_id_Some: "find_id k n busy = Some m \<Longrightarrow> m \<notin> set busy \<and> m \<noteq> 0"
  by (induction k arbitrary: n) (auto simp: Let_def split: if_splits)

definition id_free :: "client \<Rightarrow> bool" where
  "id_free cl \<longleftrightarrow> (\<exists>t. t \<noteq> 0 \<and> t \<notin> fst ` set (cl_qos2Out cl))"

lemma nextOutPacketID_iff: "nextOutPacketID cl \<noteq> None \<longleftrightarrow> id_free cl"
proof
  assume "nextOutPacketID cl \<noteq> None"
  then obtain m where "find_id 65535 (cl_nextOutID cl) (map fst (cl_qos2Out cl)) = Some m"
    by (auto simp: nextOutPacketID_def)
  from find_id_Some[OF this] show "id_free cl" unfolding id_free_def by auto
next
  assume "id_free cl"
  then obtain t where "t \<noteq> 0" "t \<notin> set (map fst (cl_qos2Out cl))" by (auto simp: id_free_def)
  moreover obtain j where "j \<in> {1..65535}" "(next_id ^^ j) (cl_nextOutID cl) = t"
    using next_id_reaches[OF calculation(1)] by blast
  ultimately have "find_id 65535 (cl_nextOutID cl) (map fst (cl_qos2Out cl)) \<noteq> None"
    unfolding find_id_None by blast
  then show "nextOutPacketID cl \<noteq> None" by (simp add: nextOutPacketID_def)
qed

lemma id_free_small: "length (cl_qos2Out cl) < 65535 \<Longrightarrow> id_free cl"
proof (rule ccontr)
  assume len: "length (cl_qos2Out cl) < 65535" and "\<not> id_free cl"
  then have "UNIV - {0 :: 16 word} \<subseteq> fst ` set (cl_qos2Out cl)" by (auto simp: id_free_def)
  then have "card (UNIV - {0 :: 16 word}) \<le> card (fst ` set (cl_qos2Out cl))"
    by (intro card_mono) auto
  also have "\<dots> \<le> length (cl_qos2Out cl)" by (meson card_image_le card_length finite_set le_trans)
  finally show False using len by (simp add: card_Diff_singleton card_word)
qed

subsection \<open>Lemmas: sending\<close>

text \<open>What sending to a client leaves alone.\<close>

definition same_peer :: "client \<Rightarrow> client \<Rightarrow> bool" where
  "same_peer cl cl' \<longleftrightarrow>
     cl_connected cl' = cl_connected cl \<and> cl_subs cl' = cl_subs cl \<and> cl_session cl' = cl_session cl \<and>
     cl_qos2Pending cl' = cl_qos2Pending cl \<and> cl_username cl' = cl_username cl \<and>
     (cl_wio cl = [] \<longrightarrow> cl_wio cl' = [])"

lemma same_peer_refl [simp]: "same_peer cl cl"
  by (simp add: same_peer_def)

lemma same_peer_trans: "same_peer a b \<Longrightarrow> same_peer b c \<Longrightarrow> same_peer a c"
  by (simp add: same_peer_def)

lemma cl_write_peer: "cl_write p cl = (cl', ok) \<Longrightarrow> same_peer cl cl' \<and> cl_qos2Out cl' = cl_qos2Out cl \<and> cl_nextOutID cl' = cl_nextOutID cl"
  by (auto simp: cl_write_def same_peer_def split: list.splits if_splits)

lemma cl_write_ok: "cl_wio cl = [] \<Longrightarrow> cl_write p cl = (cl\<lparr>cl_sent := cl_sent cl @ [p]\<rparr>, True)"
  by (simp add: cl_write_def)

lemma nextOut_peer: "nextOutPacketID cl = Some (cl', pid) \<Longrightarrow> same_peer cl cl' \<and> cl_qos2Out cl' = cl_qos2Out cl"
  by (auto simp: nextOutPacketID_def same_peer_def)

lemma sendPublish_peer:
  assumes "sendPublish topic payload qos dup cl = Some (cl', ok)"
  shows "same_peer cl cl'"
proof -
  obtain cl1 pid where 1: "(if 0 < qos then nextOutPacketID cl else Some (cl, 0)) = Some (cl1, pid)"
    using assms by (auto simp: sendPublish_def split: Option.bind_splits)
  then have p1: "same_peer cl cl1" using nextOut_peer by (auto split: if_splits)
  define cl2 where "cl2 = (if qos = 2 then cl1\<lparr>cl_qos2Out := AList.update pid AwaitPubrec (cl_qos2Out cl1)\<rparr> else cl1)"
  have p2: "same_peer cl1 cl2" by (simp add: cl2_def same_peer_def)
  obtain cl3 ok' where 3: "cl_write (publish_packet topic payload qos dup pid) cl2 = (cl3, ok')" by fastforce
  have "cl' = (if \<not> ok' \<and> qos = 2 then cl3\<lparr>cl_qos2Out := AList.delete pid (cl_qos2Out cl3)\<rparr> else cl3)"
    using assms 1 3 by (auto simp: sendPublish_def cl2_def[symmetric] Let_def)
  then have "same_peer cl3 cl'" by (simp add: same_peer_def)
  then show ?thesis using p1 p2 cl_write_peer[OF 3] same_peer_trans by blast
qed

lemma sendPublish_returns: "id_free cl \<Longrightarrow> sendPublish topic payload qos dup cl \<noteq> None"
  using nextOutPacketID_iff[of cl]
  by (auto simp: sendPublish_def Let_def split: prod.splits Option.bind_splits)

lemma publish_clients_peers:
  "publish_clients m cs = Some cs' \<Longrightarrow>
   map fst cs' = map fst cs \<and>
   (\<forall>c cl. map_of cs c = Some cl \<longrightarrow> (\<exists>cl'. map_of cs' c = Some cl' \<and> same_peer cl cl'))"
proof (induction cs arbitrary: cs')
  case (Cons p cs)
  obtain c cl where p: "p = (c, cl)" by (cases p)
  let ?snd = "case sub_match (msg_Topic m) (cl_subs cl) of
              None \<Rightarrow> Some cl
            | Some s \<Rightarrow> map_option fst
                (sendPublish (msg_Topic m) (msg_Payload m) (minQoS (msg_QoS m) (snd s)) False cl)"
  obtain cl1 cs1 where 1: "?snd = Some cl1" "publish_clients m cs = Some cs1" "cs' = (c, cl1) # cs1"
    using Cons.prems p by (auto split: Option.bind_splits)
  have "same_peer cl cl1"
    using 1(1) sendPublish_peer by (auto split: option.splits)
  then show ?case using Cons.IH[OF 1(2)] p 1(3) by simp
qed simp

lemma publish_clients_returns:
  "\<forall>(c, cl) \<in> set cs. id_free cl \<Longrightarrow> publish_clients m cs \<noteq> None"
proof (induction cs)
  case (Cons p cs)
  obtain c cl where p: "p = (c, cl)" by (cases p)
  then have "id_free cl" using Cons.prems by simp
  then have "(case sub_match (msg_Topic m) (cl_subs cl) of
              None \<Rightarrow> Some cl
            | Some s \<Rightarrow> map_option fst
                (sendPublish (msg_Topic m) (msg_Payload m) (minQoS (msg_QoS m) (snd s)) False cl)) \<noteq> None"
    using sendPublish_returns[of cl] by (auto split: option.splits)
  then show ?case using Cons p by (auto split: Option.bind_splits)
qed simp

definition ids_free :: "broker \<Rightarrow> bool" where
  "ids_free b \<longleftrightarrow> (\<forall>(c, cl) \<in> set (b_clients b). id_free cl)"

lemma Publish_returns:
  assumes "ids_free b"
  shows "\<exists>b'. Publish cfg m b = Some b' \<and> b_handled b' = b_handled b \<and>
    (\<forall>c cl. map_of (b_clients b) c = Some cl \<longrightarrow> (\<exists>cl'. map_of (b_clients b') c = Some cl' \<and> same_peer cl cl'))"
proof -
  obtain cs where cs: "publish_clients m (b_clients b) = Some cs"
    using publish_clients_returns[of "b_clients b" m] assms by (auto simp: ids_free_def)
  show ?thesis using publish_clients_peers[OF cs] by (auto simp: Publish_def cs Let_def)
qed

subsection \<open>Lemmas: inbound QoS 2\<close>

text \<open>A connected client whose writes succeed and that may publish.\<close>

definition up :: "broker_cfg \<Rightarrow> nat \<Rightarrow> string \<Rightarrow> client \<Rightarrow> broker \<Rightarrow> bool" where
  "up cfg c topic cl b \<longleftrightarrow>
     map_of (b_clients b) c = Some cl \<and> cl_connected cl \<and> cl_wio cl = [] \<and> permit cfg cl topic True"

lemma set_client_lookup [simp]:
  "map_of (b_clients (set_client c cl b)) c = Some cl" "b_handled (set_client c cl b) = b_handled b"
  by (simp_all add: set_client_def update_conv')

lemma permit_user: "cl_username cl' = cl_username cl \<Longrightarrow> permit cfg cl' = permit cfg cl"
  by (simp add: permit_def fun_eq_iff split: option.split)

lemma permit_update [simp]:
  "permit cfg (cl\<lparr>cl_qos2Pending := x\<rparr>) = permit cfg cl" "permit cfg (cl\<lparr>cl_sent := y\<rparr>) = permit cfg cl"
  by (rule permit_user, simp)+

lemma reply_up:
  assumes "map_of (b_clients b) c = Some cl" "cl_wio cl = []"
  shows "reply c p b = (set_client c (cl\<lparr>cl_sent := cl_sent cl @ [p]\<rparr>) b, True)"
  using assms by (simp add: reply_def cl_write_ok)

lemma ids_free_set_client:
  assumes "ids_free b" "id_free cl"
  shows "ids_free (set_client c cl b)"
  using assms set_update[of c cl "b_clients b"] by (auto simp: ids_free_def set_client_def)

lemma ids_free_lookup: "ids_free b \<Longrightarrow> map_of (b_clients b) c = Some cl \<Longrightarrow> id_free cl"
  by (auto simp: ids_free_def dest: map_of_SomeD)

lemma qos2_publish:
  assumes u: "up cfg c topic cl b" and f: "ids_free b" and cap: "bc_MaxPublishPerMinute cfg \<le> 0"
    and p: "parsePublish flags payload = Some (topic, body, 2, pid)"
  shows "\<exists>b' cl'. serve_packet cfg now c (3, flags, payload) b = Some b' \<and> up cfg c topic cl' b' \<and> ids_free b' \<and>
    b_handled b' = b_handled b \<and>
    map_of (cl_qos2Pending cl') pid =
      Some \<lparr>msg_Topic = topic, msg_Payload = body, msg_QoS = 2, msg_Retain = (flags AND 1 \<noteq> 0)\<rparr>"
proof -
  let ?m = "\<lparr>msg_Topic = topic, msg_Payload = body, msg_QoS = 2, msg_Retain = (flags AND 1 \<noteq> 0)\<rparr>"
  let ?cl = "cl\<lparr>cl_qos2Pending := AList.update pid ?m (cl_qos2Pending cl)\<rparr>"
  let ?cl' = "?cl\<lparr>cl_sent := cl_sent cl @ [ack 0x50 pid]\<rparr>"
  let ?b' = "set_client c ?cl' (set_client c ?cl (set_client c cl b))"
  have cl: "map_of (b_clients b) c = Some cl" "cl_connected cl" "cl_wio cl = []" "permit cfg cl topic True"
    using u by (simp_all add: up_def)
  have "serve_packet cfg now c (3, flags, payload) b = Some ?b'"
    using cl p cap by (simp add: serve_packet_def serve_round_def on_publish_def underPublishCap_def reply_up Let_def)
  moreover have "id_free cl" by (rule ids_free_lookup[OF f cl(1)])
  then have "ids_free ?b'" using f by (intro ids_free_set_client) (simp_all add: id_free_def)
  moreover have "up cfg c topic ?cl' ?b'" using cl by (simp add: up_def)
  ultimately show ?thesis
    by (intro exI[of _ ?b'] exI[of _ ?cl']) (simp add: update_conv')
qed

lemma qos2_publishes:
  assumes u: "up cfg c topic cl b" and f: "ids_free b" and cap: "bc_MaxPublishPerMinute cfg \<le> 0"
    and p: "parsePublish flags payload = Some (topic, body, 2, pid)"
  shows "\<exists>b' cl'. serve_packets cfg now c (replicate (Suc k) (3, flags, payload)) b = Some b' \<and>
    up cfg c topic cl' b' \<and> ids_free b' \<and> b_handled b' = b_handled b \<and>
    map_of (cl_qos2Pending cl') pid =
      Some \<lparr>msg_Topic = topic, msg_Payload = body, msg_QoS = 2, msg_Retain = (flags AND 1 \<noteq> 0)\<rparr>"
  using u f
proof (induction k arbitrary: b cl)
  case 0
  then show ?case using qos2_publish[OF 0 cap p, of now] by auto
next
  case (Suc k)
  then obtain b1 cl1 where 1: "serve_packet cfg now c (3, flags, payload) b = Some b1"
    "up cfg c topic cl1 b1" "ids_free b1" "b_handled b1 = b_handled b"
    using qos2_publish[OF Suc.prems cap p, of now] by blast
  then show ?case using Suc.IH[OF 1(2,3)] by auto
qed

lemma qos2_release_again:
  assumes u: "up cfg c topic cl b" and n: "map_of (cl_qos2Pending cl) (be16 x y) = None"
  shows "\<exists>b'. serve_packets cfg now c (replicate k (6, flags, x # y # z)) b = Some b' \<and> b_handled b' = b_handled b"
  using u n
proof (induction k arbitrary: b cl)
  case (Suc k)
  let ?cl = "cl\<lparr>cl_qos2Pending := AList.delete (be16 x y) (cl_qos2Pending cl)\<rparr>"
  let ?cl' = "?cl\<lparr>cl_sent := cl_sent cl @ [ack 0x70 (be16 x y)]\<rparr>"
  let ?b' = "set_client c ?cl' (set_client c ?cl b)"
  have cl: "map_of (b_clients b) c = Some cl" "cl_connected cl" "cl_wio cl = []"
    using Suc.prems(1) by (simp_all add: up_def)
  have "serve_packet cfg now c (6, flags, x # y # z) b = Some ?b'"
    using cl Suc.prems(2) by (simp add: serve_packet_def serve_round_def on_pubrel_def reply_up Let_def)
  moreover have "up cfg c topic ?cl' ?b'" using Suc.prems(1) by (simp add: up_def)
  moreover have "map_of (cl_qos2Pending ?cl') (be16 x y) = None" by (simp add: delete_conv')
  ultimately show ?case using Suc.IH[of ?cl' ?b'] by auto
qed simp

lemma qos2_release:
  assumes u: "up cfg c topic cl b" and f: "ids_free b" and h: "bc_handler cfg"
    and m: "map_of (cl_qos2Pending cl) (be16 x y) = Some m" and t: "msg_Topic m = topic"
  shows "\<exists>b' cl'. serve_packet cfg now c (6, flags, x # y # z) b = Some b' \<and> up cfg c topic cl' b' \<and>
    b_handled b' = b_handled b @ [m] \<and> map_of (cl_qos2Pending cl') (be16 x y) = None"
proof -
  let ?cl = "cl\<lparr>cl_qos2Pending := AList.delete (be16 x y) (cl_qos2Pending cl)\<rparr>"
  let ?b1 = "(set_client c ?cl b)\<lparr>b_handled := b_handled b @ [m]\<rparr>"
  have cl: "map_of (b_clients b) c = Some cl" "cl_connected cl" "cl_wio cl = []" "permit cfg cl topic True"
    using u by (simp_all add: up_def)
  have "ids_free (set_client c ?cl b)"
    using f ids_free_lookup[OF f cl(1)] by (intro ids_free_set_client) (simp_all add: id_free_def)
  then have "ids_free ?b1" by (simp add: ids_free_def)
  then obtain b2 where b2: "Publish cfg m ?b1 = Some b2" "b_handled b2 = b_handled b @ [m]"
    and peers: "\<And>c cl. map_of (b_clients ?b1) c = Some cl \<Longrightarrow>
      \<exists>cl'. map_of (b_clients b2) c = Some cl' \<and> same_peer cl cl'"
    using Publish_returns[of ?b1 cfg m] by auto
  obtain cl2 where cl2: "map_of (b_clients b2) c = Some cl2" "same_peer ?cl cl2"
    using peers[of c ?cl] by auto
  have w: "cl_wio cl2 = []" using cl2(2) cl(3) by (simp add: same_peer_def)
  let ?cl3 = "cl2\<lparr>cl_sent := cl_sent cl2 @ [ack 0x70 (be16 x y)]\<rparr>"
  have perm: "permit cfg ?cl topic True" using cl(4) by simp
  have "serve_packet cfg now c (6, flags, x # y # z) b = Some (set_client c ?cl3 b2)"
    using cl m t h b2(1) perm reply_up[OF cl2(1) w]
    by (simp add: serve_packet_def serve_round_def on_pubrel_def handle_msg_def Let_def)
  moreover have "up cfg c topic ?cl3 (set_client c ?cl3 b2)"
    using cl2(2) cl permit_user[of cl2 cl cfg] by (simp add: up_def same_peer_def)
  moreover have "map_of (cl_qos2Pending ?cl3) (be16 x y) = None"
    using cl2(2) by (simp add: same_peer_def delete_conv')
  ultimately show ?thesis using b2(2) by (intro exI[of _ "set_client c ?cl3 b2"] exI[of _ ?cl3]) simp
qed

lemma serve_packets_append:
  "serve_packets cfg now c (ps @ qs) b = Option.bind (serve_packets cfg now c ps b) (serve_packets cfg now c qs)"
  by (induction ps arbitrary: b) (auto split: Option.bind_splits)

subsection \<open>Lemmas: sessions\<close>

lemma sendPublish_ok:
  assumes "id_free cl" "cl_wio cl = []"
  shows "\<exists>cl' pid. sendPublish topic payload qos dup cl = Some (cl', True) \<and> cl_wio cl' = [] \<and>
    cl_sent cl' = cl_sent cl @ [publish_packet topic payload qos dup pid] \<and>
    length (cl_qos2Out cl') \<le> Suc (length (cl_qos2Out cl))"
proof -
  have len: "length (AList.update p v xs) \<le> Suc (length xs)" for p v and xs :: "(16 word \<times> out_phase) list"
    by (induction xs) auto
  obtain cl1 pid where 1: "(if 0 < qos then nextOutPacketID cl else Some (cl, 0)) = Some (cl1, pid)"
    "cl_wio cl1 = []" "cl_sent cl1 = cl_sent cl" "cl_qos2Out cl1 = cl_qos2Out cl"
  proof (cases "0 < qos")
    case True
    obtain cl1 pid where n: "nextOutPacketID cl = Some (cl1, pid)"
      using nextOutPacketID_iff[of cl] assms(1) by auto
    then have "cl_wio cl1 = []" "cl_sent cl1 = cl_sent cl" "cl_qos2Out cl1 = cl_qos2Out cl"
      using assms(2) by (auto simp: nextOutPacketID_def)
    then show ?thesis using that[of cl1 pid] n True by simp
  next
    case False
    then show ?thesis using that[of cl 0] assms(2) by simp
  qed
  let ?cl2 = "if qos = 2 then cl1\<lparr>cl_qos2Out := AList.update pid AwaitPubrec (cl_qos2Out cl1)\<rparr> else cl1"
  let ?cl3 = "?cl2\<lparr>cl_sent := cl_sent cl @ [publish_packet topic payload qos dup pid]\<rparr>"
  have "cl_write (publish_packet topic payload qos dup pid) ?cl2 = (?cl3, True)"
    using 1 by (simp add: cl_write_ok)
  then have "sendPublish topic payload qos dup cl = Some (?cl3, True)"
    using 1(1) by (simp add: sendPublish_def Let_def)
  then show ?thesis
    using 1 len[of pid AwaitPubrec "cl_qos2Out cl"]
    by (intro exI[of _ ?cl3] exI[of _ pid]) simp
qed

lemma replay_msgs_sends:
  assumes "cl_wio cl = []" "length (cl_qos2Out cl) + length ms < 65535"
  shows "\<exists>s' cl' pids. replay_msgs cd ms s cl = Some (s', cl', True) \<and> length pids = length ms \<and>
    cl_sent cl' = cl_sent cl @
      map2 (\<lambda>m. publish_packet (sm_Topic m) (sm_Payload m) (sm_QoS m) (0 < sm_QoS m)) ms pids \<and>
    ps_q s' = fold (\<lambda>m q. fst (Delete cd (sm_ID m) q)) ms (ps_q s)"
  using assms
proof (induction ms arbitrary: s cl)
  case Nil
  then show ?case by simp
next
  case (Cons m ms)
  have "id_free cl" using Cons.prems(2) by (intro id_free_small) simp
  then obtain cl1 pid where 1: "sendPublish (sm_Topic m) (sm_Payload m) (sm_QoS m) (0 < sm_QoS m) cl = Some (cl1, True)"
    "cl_wio cl1 = []" "length (cl_qos2Out cl1) \<le> Suc (length (cl_qos2Out cl))"
    "cl_sent cl1 = cl_sent cl @ [publish_packet (sm_Topic m) (sm_Payload m) (sm_QoS m) (0 < sm_QoS m) pid]"
    using sendPublish_ok[OF _ Cons.prems(1)] by blast
  let ?s = "s\<lparr>ps_q := fst (Delete cd (sm_ID m) (ps_q s))\<rparr>"
  obtain s' cl' pids where ih: "replay_msgs cd ms ?s cl1 = Some (s', cl', True)" "length pids = length ms"
    "cl_sent cl' = cl_sent cl1 @
      map2 (\<lambda>m. publish_packet (sm_Topic m) (sm_Payload m) (sm_QoS m) (0 < sm_QoS m)) ms pids"
    "ps_q s' = fold (\<lambda>m q. fst (Delete cd (sm_ID m) q)) ms (ps_q ?s)"
    using Cons.IH[of cl1 ?s] 1 Cons.prems(2) by auto
  show ?case
    using 1 ih by (intro exI[of _ s'] exI[of _ cl'] exI[of _ "pid # pids"]) simp
qed

lemma delete_all:
  assumes "live cd q" "healthy q" "q_ops q + length ms < 4095"
  shows "live cd (fold (\<lambda>m q. fst (Delete cd (sm_ID m) q)) ms q) \<and>
    (\<forall>i. Get i (fold (\<lambda>m q. fst (Delete cd (sm_ID m) q)) ms q) =
      (if i \<in> sm_ID ` set ms then None else Get i q))"
  using assms
proof (induction ms arbitrary: q)
  case (Cons m ms)
  let ?q = "fst (Delete cd (sm_ID m) q)"
  have l: "live cd ?q" by (rule wq.del_inv[OF Cons.prems(1)])
  have h: "healthy ?q" "q_ops ?q \<le> Suc (q_ops q)"
    using Delete_healthy[OF Cons.prems(2), of cd "sm_ID m"] Cons.prems(3) by auto
  have "snd (Delete cd (sm_ID m) q) = None"
    using append_healthy[of "q\<lparr>q_seq := Suc (q_seq q)\<rparr>" cd "del_record (sm_ID m) (Suc (q_seq q))"] Cons.prems(2,3)
    by (cases "map_of (q_items q) (sm_ID m)") (simp_all add: Delete_def healthy_def)
  then have g: "Get i ?q = (if i = sm_ID m then None else Get i q)" for i
    using wq.get_del[OF Cons.prems(1), of i "sm_ID m"] by simp
  show ?case using Cons.IH[OF l h(1)] h(2) Cons.prems(3) g by auto
qed simp

subsection \<open>Lemmas: who reaches the handler\<close>

lemma handled_frame [simp]:
  "b_handled (fst (reply c p b)) = b_handled b"
  "b_handled (map_session a f b) = b_handled b"
  "b_handled (drop_client c b) = b_handled b"
  "b_handled (discardSession i b) = b_handled b"
  by (auto simp: reply_def map_session_def drop_client_def discardSession_def Let_def
      split: option.splits prod.splits)

lemma handled_reply: "reply c p b = (b', ok) \<Longrightarrow> b_handled b' = b_handled b"
  using handled_frame(1)[of c p b] by simp

lemma handled_Publish: "Publish cfg m b = Some b' \<Longrightarrow> b_handled b' = b_handled b"
  by (auto simp: Publish_def Let_def split: Option.bind_splits if_splits)

lemma handled_handle_msg:
  "handle_msg cfg m b = Some b' \<Longrightarrow> b_handled b' = (if bc_handler cfg then b_handled b @ [m] else b_handled b)"
  by (auto simp: handle_msg_def dest: handled_Publish)

lemma handled_resume: "resumeSession cfg i b = Some (b', a, e) \<Longrightarrow> b_handled b' = b_handled b"
  by (auto simp: resumeSession_def Let_def split: option.splits sum.splits)

lemma handled_connect: "on_connect cfg c payload cl b = Some (b', go) \<Longrightarrow> b_handled b' = b_handled b"
  unfolding on_connect_def
  by (auto simp: Let_def split: option.splits prod.splits if_splits Option.bind_splits
      dest!: handled_reply handled_resume)

lemma handled_subscribe: "on_subscribe cfg c payload cl b = (b', go) \<Longrightarrow> b_handled b' = b_handled b"
  unfolding on_subscribe_def
  by (auto simp: Let_def split: option.splits prod.splits if_splits dest!: handled_reply)

lemma handled_acks:
  "on_pubrec c payload cl b = (b', go) \<Longrightarrow> b_handled b' = b_handled b"
  "on_pubcomp c payload cl b = (b', go) \<Longrightarrow> b_handled b' = b_handled b"
  unfolding on_pubrec_def on_pubcomp_def
  by (auto simp: Let_def split: option.splits list.splits if_splits dest!: handled_reply)

lemma underPublishCap_user: "underPublishCap cfg now cl = (cl', u) \<Longrightarrow> cl_username cl' = cl_username cl"
  by (auto simp: underPublishCap_def Let_def split: if_splits)

lemma handled_publish:
  assumes "on_publish cfg now c flags payload cl b = Some (b', go)"
  shows "b_handled b' = b_handled b \<or>
    (\<exists>m. b_handled b' = b_handled b @ [m] \<and> cl_connected cl \<and> permit cfg cl (msg_Topic m) True)"
proof (cases "cl_connected cl \<and> parsePublish flags payload \<noteq> None")
  case False
  then show ?thesis using assms by (auto simp: on_publish_def split: option.splits)
next
  case True
  then obtain topic body qos pid where p: "parsePublish flags payload = Some (topic, body, qos, pid)" by auto
  obtain cl1 under where u: "underPublishCap cfg now cl = (cl1, under)" by fastforce
  have perm: "permit cfg cl1 = permit cfg cl" by (rule permit_user[OF underPublishCap_user[OF u]])
  let ?m = "\<lparr>msg_Topic = topic, msg_Payload = body, msg_QoS = qos, msg_Retain = (flags AND 1 \<noteq> 0)\<rparr>"
  show ?thesis
  proof (cases "under \<and> permit cfg cl topic True \<and> qos \<noteq> 2")
    case ok: True
    then obtain b1 where "handle_msg cfg ?m (set_client c cl1 b) = Some b1" "b_handled b' = b_handled b1"
      using assms True p u perm by (auto simp: on_publish_def Let_def split: Option.bind_splits)
    then have "b_handled b' = (if bc_handler cfg then b_handled b @ [?m] else b_handled b)"
      by (simp add: handled_handle_msg)
    then show ?thesis using True ok by auto
  next
    case no: False
    then have "b_handled b' = b_handled b"
      using assms True p u perm
      by (auto simp: on_publish_def Let_def split: if_splits dest!: handled_reply)
    then show ?thesis ..
  qed
qed

lemma handled_pubrel:
  assumes "on_pubrel cfg c payload cl b = Some (b', go)"
  shows "b_handled b' = b_handled b \<or>
    (\<exists>m. b_handled b' = b_handled b @ [m] \<and> cl_connected cl \<and> permit cfg cl (msg_Topic m) True)"
proof (cases "cl_connected cl \<and> (\<exists>x y z. payload = x # y # z)")
  case False
  then show ?thesis using assms by (auto simp: on_pubrel_def split: list.splits if_splits)
next
  case True
  then obtain x y z where p: "payload = x # y # z" by auto
  show ?thesis
  proof (cases "map_of (cl_qos2Pending cl) (be16 x y)")
    case None
    then have "b_handled b' = b_handled b"
      using assms True p by (auto simp: on_pubrel_def Let_def dest!: handled_reply)
    then show ?thesis ..
  next
    case (Some m)
    show ?thesis
    proof (cases "permit cfg cl (msg_Topic m) True")
      case False
      then show ?thesis using assms True p Some by (auto simp: on_pubrel_def Let_def)
    next
      case ok: True
      then obtain b1 where "handle_msg cfg m (set_client c
          (cl\<lparr>cl_qos2Pending := AList.delete (be16 x y) (cl_qos2Pending cl)\<rparr>) b) = Some b1"
        "b_handled b' = b_handled b1"
        using assms True p Some by (auto simp: on_pubrel_def Let_def dest: handled_reply)
      then have "b_handled b' = (if bc_handler cfg then b_handled b @ [m] else b_handled b)"
        by (simp add: handled_handle_msg)
      then show ?thesis using True ok by auto
    qed
  qed
qed

lemma handled_round:
  assumes "serve_round cfg now c typ flags payload cl b = Some (b', go)"
  shows "b_handled b' = b_handled b \<or>
    (\<exists>m. b_handled b' = b_handled b @ [m] \<and> cl_connected cl \<and> permit cfg cl (msg_Topic m) True)"
proof -
  consider "typ = 1" | "typ = 3" | "typ = 6" | "typ \<notin> {1, 3, 6}" by blast
  then show ?thesis
  proof cases
    case 1
    then show ?thesis using assms handled_connect by (auto simp: serve_round_def)
  next
    case 2
    then show ?thesis using assms handled_publish by (simp add: serve_round_def)
  next
    case 3
    then show ?thesis using assms handled_pubrel by (simp add: serve_round_def)
  next
    case 4
    then have "b_handled b' = b_handled b"
      using assms handled_acks handled_subscribe handled_reply
      by (auto simp: serve_round_def split: if_splits)
    then show ?thesis ..
  qed
qed

subsection \<open>Properties\<close>

definition demo_msg_codec :: "stored_msg codec" where
  "demo_msg_codec = \<lparr>marshal = (\<lambda>m. Some (sm_ID m @ ''|'' @ sm_Topic m)), unmarshal = (\<lambda>_. None)\<rparr>"

definition demo_cfg :: broker_cfg where
  "demo_cfg = \<lparr>bc_handler = True, bc_Authenticate = None,
     bc_Authorize = Some (\<lambda>u t w. u = ''alice''), bc_MaxClients = 0, bc_MaxPublishPerMinute = 0,
     bc_sessions = True, bc_sessionOpts = \<lparr>op_MaxItems = 0, op_MaxBytes = 0, op_Policy = ''reject''\<rparr>,
     bc_codec = demo_msg_codec\<rparr>"

definition demo_client :: client where
  "demo_client = new_client\<lparr>cl_connected := True, cl_username := ''alice''\<rparr>"

definition demo_broker :: broker where
  "demo_broker = \<lparr>b_clients = [(1, demo_client)], b_sessions = [], b_heap = [], b_disk = [], b_handled = []\<rparr>"

text \<open>C15: exactly once.  A publisher that sends a QoS 2 PUBLISH any number of times under
  one packet identifier and then PUBREL any number of times, as it does when the
  broker's answers get lost, makes the handler see the message exactly once.\<close>

theorem qos2_exactly_once:
  assumes "map_of (b_clients b) c = Some cl" and "cl_connected cl" and "cl_wio cl = []"
    and "permit cfg cl topic True" and "ids_free b" and "bc_MaxPublishPerMinute cfg \<le> 0" and "bc_handler cfg"
    and "parsePublish flags payload = Some (topic, body, 2, be16 x y)"
  shows "\<exists>b'. serve_packets cfg now c
      (replicate (Suc k) (3, flags, payload) @ replicate (Suc j) (6, rflags, x # y # z)) b = Some b' \<and>
    b_handled b' = b_handled b @
      [\<lparr>msg_Topic = topic, msg_Payload = body, msg_QoS = 2, msg_Retain = (flags AND 1 \<noteq> 0)\<rparr>]"
proof -
  let ?m = "\<lparr>msg_Topic = topic, msg_Payload = body, msg_QoS = 2, msg_Retain = (flags AND 1 \<noteq> 0)\<rparr>"
  have t: "msg_Topic ?m = topic" by simp
  have "up cfg c topic cl b" using assms(1-4) by (simp add: up_def)
  then obtain b1 cl1 where 1: "serve_packets cfg now c (replicate (Suc k) (3, flags, payload)) b = Some b1"
    "up cfg c topic cl1 b1" "ids_free b1" "b_handled b1 = b_handled b"
    "map_of (cl_qos2Pending cl1) (be16 x y) = Some ?m"
    using qos2_publishes[OF _ assms(5,6,8)] by blast
  then obtain b2 cl2 where 2: "serve_packet cfg now c (6, rflags, x # y # z) b1 = Some b2"
    "up cfg c topic cl2 b2" "b_handled b2 = b_handled b1 @ [?m]" "map_of (cl_qos2Pending cl2) (be16 x y) = None"
    using qos2_release[OF 1(2,3) assms(7) 1(5) t, of now rflags z] by blast
  obtain b3 where 3: "serve_packets cfg now c (replicate j (6, rflags, x # y # z)) b2 = Some b3"
    "b_handled b3 = b_handled b2"
    using qos2_release_again[OF 2(2,4)] by blast
  show ?thesis
    unfolding serve_packets_append using 1(1,4) 2(1,3) 3 by simp
qed

theorem qos2_exactly_once_witness:
  "\<exists>b'. serve_packets demo_cfg 5 1
      (replicate (Suc 2) (3, 4, appendString [] ''t'' @ [0, 7, 65]) @ replicate (Suc 1) (6, 2, [0, 7])) demo_broker = Some b' \<and>
    b_handled b' = b_handled demo_broker @
      [\<lparr>msg_Topic = ''t'', msg_Payload = [65], msg_QoS = 2, msg_Retain = ((4 :: 8 word) AND 1 \<noteq> 0)\<rparr>]"
proof (rule qos2_exactly_once)
  show "map_of (b_clients demo_broker) 1 = Some demo_client" by (simp add: demo_broker_def)
  show "ids_free demo_broker"
    by (auto simp: demo_broker_def ids_free_def demo_client_def new_client_def intro!: id_free_small)
  show "parsePublish 4 (appendString [] ''t'' @ [0, 7, 65]) = Some (''t'', [65], 2, be16 0 7)" by code_simp
qed (simp_all add: demo_client_def new_client_def demo_cfg_def permit_def)

text \<open>C16: nothing reaches the handler that its sender was not authorised to publish.  One
  packet of a connection adds at most one message, and only one whose topic
  \<^verbatim>\<open>Authorize\<close> grants to the user of that connection, after its CONNECT.\<close>

theorem handler_authorized:
  assumes "serve_packet cfg now c pkt b = Some b'" and "map_of (b_clients b) c = Some cl"
  shows "b_handled b' = b_handled b \<or>
    (\<exists>m. b_handled b' = b_handled b @ [m] \<and> cl_connected cl \<and> permit cfg cl (msg_Topic m) True)"
proof -
  obtain ty flags payload where p: "pkt = (ty, flags, payload)" by (cases pkt)
  obtain b1 go where r: "serve_round cfg now c ty flags payload cl b = Some (b1, go)"
    "b_handled b' = b_handled b1"
    using assms p by (auto simp: serve_packet_def split: Option.bind_splits if_splits)
  then show ?thesis using handled_round[OF r(1)] by simp
qed

theorem handler_authorized_witness:
  "\<exists>b'. serve_packet demo_cfg 5 1 (12, 0, []) demo_broker = Some b' \<and>
     (b_handled b' = b_handled demo_broker \<or>
      (\<exists>m. b_handled b' = b_handled demo_broker @ [m] \<and> cl_connected demo_client \<and>
           permit demo_cfg demo_client (msg_Topic m) True))"
proof -
  have "map_of (b_clients demo_broker) 1 = Some demo_client" by (simp add: demo_broker_def)
  moreover obtain b' where "serve_packet demo_cfg 5 1 (12, 0, []) demo_broker = Some b'"
    by (simp add: serve_packet_def serve_round_def demo_broker_def reply_def cl_write_def demo_client_def new_client_def)
  ultimately show ?thesis using handler_authorized by blast
qed

text \<open>C17: the search for an outbound packet identifier returns exactly when one of the
  65535 identifiers is not in flight, and then the identifier is nonzero and not in
  flight.  With all of them in flight the loop never ends.\<close>

theorem next_packet_id:
  "(nextOutPacketID cl \<noteq> None \<longleftrightarrow> (\<exists>t. t \<noteq> 0 \<and> t \<notin> fst ` set (cl_qos2Out cl))) \<and>
   (\<forall>cl' pid. nextOutPacketID cl = Some (cl', pid) \<longrightarrow>
      pid \<noteq> 0 \<and> pid \<notin> fst ` set (cl_qos2Out cl) \<and> cl_nextOutID cl' = pid)"
proof (intro conjI allI impI)
  show "nextOutPacketID cl \<noteq> None \<longleftrightarrow> (\<exists>t. t \<noteq> 0 \<and> t \<notin> fst ` set (cl_qos2Out cl))"
    using nextOutPacketID_iff[of cl] by (simp add: id_free_def)
next
  fix cl' pid assume "nextOutPacketID cl = Some (cl', pid)"
  then have "find_id 65535 (cl_nextOutID cl) (map fst (cl_qos2Out cl)) = Some pid" and n: "cl_nextOutID cl' = pid"
    by (auto simp: nextOutPacketID_def)
  from find_id_Some[OF this(1)] show "pid \<noteq> 0" "pid \<notin> fst ` set (cl_qos2Out cl)" by simp_all
  show "cl_nextOutID cl' = pid" by (rule n)
qed

theorem next_packet_id_witness:
  "\<exists>cl' pid. nextOutPacketID demo_client = Some (cl', pid) \<and> pid \<noteq> 0 \<and>
     pid \<notin> fst ` set (cl_qos2Out demo_client) \<and> cl_nextOutID cl' = pid"
proof -
  have "(1 :: 16 word) \<noteq> 0 \<and> 1 \<notin> fst ` set (cl_qos2Out demo_client)"
    by (simp add: demo_client_def new_client_def)
  then have "nextOutPacketID demo_client \<noteq> None" using next_packet_id[of demo_client] by blast
  then show ?thesis using next_packet_id[of demo_client] by auto
qed

text \<open>C18: reconnecting to a persistent session delivers its backlog completely and in
  order.  Every queued message is written once, as a PUBLISH with its topic, payload and
  QoS, in the order in which it was queued, and the queue is empty afterwards.\<close>

theorem session_replay_drains:
  assumes "live cd (ps_q s)" and "healthy (ps_q s)" and "\<forall>i m. Get i (ps_q s) = Some m \<longrightarrow> sm_ID m = i"
    and "q_ops (ps_q s) + length (List (ps_q s)) < 4095" and "cl_wio cl = []"
    and "length (cl_qos2Out cl) + length (List (ps_q s)) < 65535"
  shows "\<exists>s' cl' pids. replay_session cd s cl = Some (s', cl', True) \<and>
    length pids = length (List (ps_q s)) \<and>
    cl_sent cl' = cl_sent cl @
      map2 (\<lambda>m. publish_packet (sm_Topic m) (sm_Payload m) (sm_QoS m) (0 < sm_QoS m)) (List (ps_q s)) pids \<and>
    List (ps_q s') = []"
proof -
  let ?ms = "List (ps_q s)"
  obtain s' cl' pids where r: "replay_msgs cd ?ms s cl = Some (s', cl', True)" "length pids = length ?ms"
    "cl_sent cl' = cl_sent cl @
      map2 (\<lambda>m. publish_packet (sm_Topic m) (sm_Payload m) (sm_QoS m) (0 < sm_QoS m)) ?ms pids"
    "ps_q s' = fold (\<lambda>m q. fst (Delete cd (sm_ID m) q)) ?ms (ps_q s)"
    using replay_msgs_sends[OF assms(5,6), of cd s] by blast
  have d: "live cd (ps_q s')" "\<And>i. Get i (ps_q s') = (if i \<in> sm_ID ` set ?ms then None else Get i (ps_q s))"
    using delete_all[OF assms(1,2,4)] r(4) by auto
  have "Get i (ps_q s') = None" for i
  proof (cases "Get i (ps_q s)")
    case (Some m)
    then have "m \<in> set ?ms" "sm_ID m = i" using wq.lst_get[OF assms(1)] assms(3) by auto
    then show ?thesis using d(2)[of i] by force
  qed (use d(2) in simp)
  then have "set (List (ps_q s')) = {}" using wq.lst_get[OF d(1)] by simp
  then show ?thesis using r(1-3) by (auto simp: replay_session_def)
qed

definition demo_session :: session where
  "demo_session = \<lparr>ps_subs = [(''secret/#'', 0)], ps_live = None,
     ps_q = \<lparr>q_items = [(''m1'', \<lparr>e_ID = ''m1'', e_Seq = 1,
         e_Data = \<lparr>sm_ID = ''m1'', sm_Topic = ''t'', sm_Payload = [1], sm_QoS = 0\<rparr>, e_Bytes = 4\<rparr>)],
       q_seq = 1, q_bytes = 4, q_ops = 1, q_opts = bc_sessionOpts demo_cfg, q_wal = [], q_open = True, q_io = []\<rparr>, ps_seq = 1\<rparr>"

lemma demo_session_List: "List (ps_q demo_session) = [\<lparr>sm_ID = ''m1'', sm_Topic = ''t'', sm_Payload = [1], sm_QoS = 0\<rparr>]"
  by (simp add: List_def sorted_entries_def demo_session_def)

theorem session_replay_drains_witness:
  "\<exists>s' cl' pids. replay_session demo_msg_codec demo_session demo_client = Some (s', cl', True) \<and>
    length pids = length (List (ps_q demo_session)) \<and>
    cl_sent cl' = cl_sent demo_client @
      map2 (\<lambda>m. publish_packet (sm_Topic m) (sm_Payload m) (sm_QoS m) (0 < sm_QoS m)) (List (ps_q demo_session)) pids \<and>
    List (ps_q s') = []"
proof (rule session_replay_drains)
  show "live demo_msg_codec (ps_q demo_session)"
    by (simp add: live_def qinv_def items_inv_def entry_ok_def demo_msg_codec_def demo_session_def demo_cfg_def)
  show "\<forall>i m. Get i (ps_q demo_session) = Some m \<longrightarrow> sm_ID m = i"
    by (simp add: Get_def demo_session_def)
qed (simp_all add: demo_session_List, simp_all add: demo_session_def healthy_def demo_client_def new_client_def)


definition mallory_connect :: bytes where
  "mallory_connect = appendString [] ''MQTT'' @ [4, 0x80, 0, 60] @ appendString [] ''plc-1'' @ appendString [] ''mallory''"

definition shared_broker :: broker where
  "shared_broker = \<lparr>b_clients = [(2, new_client)], b_sessions = [(''plc-1'', 1)],
     b_heap = [(1, demo_session\<lparr>ps_q := (ps_q demo_session)\<lparr>q_items := []\<rparr>\<rparr>)], b_disk = [], b_handled = []\<rparr>"


lemma format_nat_1: "format_nat (Suc 0) = ''1''"
  by code_simp


definition id_codec :: "stored_msg codec" where
  "id_codec = \<lparr>marshal = (\<lambda>m. Some (sm_ID m)),
     unmarshal = (\<lambda>d. Some \<lparr>sm_ID = d, sm_Topic = ''old'', sm_Payload = [], sm_QoS = 1\<rparr>)\<rparr>"

definition restarted_broker :: broker where
  "restarted_broker = \<lparr>b_clients = [], b_sessions = [], b_heap = [],
     b_disk = [(''plc-1'', [Rec \<lparr>r_Op = ''put'', r_ID = ''m1'', r_Seq = 1, r_Data = ''m1''\<rparr>])], b_handled = []\<rparr>"

end
