(* ===== verification/Go_Json.thy ===== *)
theory Go_Json
  imports Go_Strings "HOL-Library.Monad_Syntax"
begin

text \<open>
  The part of \<^verbatim>\<open>encoding/json\<close> the sources rely on, at the level of values: a Go
  \<^verbatim>\<open>any\<close> obtained from JSON is a \<^verbatim>\<open>json\<close> value, a struct is written field by
  field with \<^verbatim>\<open>omitempty\<close>, and read back into a value that keeps what the input
  does not mention.  The text layer (quoting, white space, escapes) is not
  modelled.  A string holding an instant is \<^verbatim>\<open>JTime\<close>; numbers that are not
  integers keep their literal.
\<close>

subsection \<open>Values\<close>

datatype json =
    JNull
  | JBool bool
  | JInt int
  | JReal string
  | JStr string
  | JTime time
  | JArr "json list"
  | JObj "(string \<times> json) list"

type_synonym json_map = "(string \<times> json) list"

subsection \<open>Writing structs\<close>

text \<open>One struct field: always written, or dropped when empty.\<close>

definition jfield :: "string \<Rightarrow> json \<Rightarrow> json_map" where
  "jfield k v = [(k, v)]"

definition jomit :: "string \<Rightarrow> string \<Rightarrow> json_map" where
  "jomit k s = (if s = [] then [] else [(k, JStr s)])"

subsection \<open>Reading structs\<close>

text \<open>A key selects a field when they are equal up to case.  A null leaves the
  field as it is, and a value of the wrong type is an error.\<close>

definition key_eq :: "string \<Rightarrow> string \<Rightarrow> bool" where
  "key_eq k k' \<longleftrightarrow> to_lower k = to_lower k'"

type_synonym 'a dec = "'a \<Rightarrow> json \<Rightarrow> 'a option"

fun dec_str :: "string dec" where
  "dec_str z (JStr s) = Some s"
| "dec_str z JNull = Some z"
| "dec_str z _ = None"

fun dec_bool :: "bool dec" where
  "dec_bool z (JBool b) = Some b"
| "dec_bool z JNull = Some z"
| "dec_bool z _ = None"

fun dec_int64 :: "int dec" where
  "dec_int64 z (JInt n) = (if - (2 ^ 63) \<le> n \<and> n < 2 ^ 63 then Some n else None)"
| "dec_int64 z JNull = Some z"
| "dec_int64 z _ = None"

fun dec_time :: "time dec" where
  "dec_time z (JTime t) = Some t"
| "dec_time z JNull = Some z"
| "dec_time z _ = None"

fun dec_field :: "string \<Rightarrow> 'a dec \<Rightarrow> 'a \<Rightarrow> json_map \<Rightarrow> 'a option" where
  "dec_field k d z [] = Some z"
| "dec_field k d z ((k', v) # ob) =
     (if key_eq k k' then (case d z v of None \<Rightarrow> None | Some z' \<Rightarrow> dec_field k d z' ob)
      else dec_field k d z ob)"

text \<open>A struct is read from an object; null leaves it as it is.\<close>

fun dec_struct :: "('a \<Rightarrow> json_map \<Rightarrow> 'a option) \<Rightarrow> 'a dec" where
  "dec_struct d z (JObj ob) = d z ob"
| "dec_struct d z JNull = Some z"
| "dec_struct d z _ = None"

subsection \<open>Lemmas\<close>

lemma dec_field_append:
  "dec_field k d z (xs @ ys) = Option.bind (dec_field k d z xs) (\<lambda>z'. dec_field k d z' ys)"
  by (induction k d z xs rule: dec_field.induct) (auto split: option.splits)

lemma dec_field_jfield [simp]:
  "dec_field k d z (jfield k' v) = (if key_eq k k' then d z v else Some z)"
  by (auto simp: jfield_def split: option.splits)

lemma dec_field_jomit [simp]:
  "dec_field k dec_str z (jomit k' s) = (if key_eq k k' \<and> s \<noteq> [] then Some s else Some z)"
  by (auto simp: jomit_def)

lemma dec_field_jomit_other [simp]:
  "\<not> key_eq k k' \<Longrightarrow> dec_field k d z (jomit k' s) = Some z"
  by (auto simp: jomit_def)

end
