(* ===== verification/Ota.thy ===== *)
theory Ota
  imports Go_Json
begin

text \<open>
  The OTA contract, \<^verbatim>\<open>pkg/ota/types.go\<close> and \<^verbatim>\<open>pkg/ota/state_machine.go\<close>:
  the request and status records with their transport-level validation, the
  lifecycle state machine, and the JSON form under which the control plane keeps
  both inside a device twin.
\<close>

subsection \<open>Types\<close>

type_synonym ota_state = string

record manifest =
  mf_ArtifactID :: string
  mf_Version :: string
  mf_Type :: string
  mf_Architecture :: string
  mf_Board :: string
  mf_SizeBytes :: int
  mf_SHA256 :: string
  mf_Signature :: string
  mf_SBOM :: string
  mf_BundleFormat :: string
  mf_MinimumBootloader :: string
  mf_RollbackSupported :: bool

record policy =
  po_RebootRequired :: bool
  po_HealthTimeout :: string
  po_RollbackOnFailure :: bool
  po_RequireABSlots :: bool

record request =
  rq_UpdateID :: string
  rq_DeviceID :: string
  rq_SiteID :: string
  rq_Manifest :: manifest
  rq_Policy :: policy

record status =
  su_UpdateID :: string
  su_DeviceID :: string
  su_State :: ota_state
  su_ProgressPercent :: int
  su_ActiveSlot :: string
  su_TargetSlot :: string
  su_CurrentVersion :: string
  su_TargetVersion :: string
  su_LastError :: string
  su_UpdatedAt :: time

datatype ota_error =
    UpdateIDRequired
  | DeviceIDRequired
  | ArtifactIDRequired
  | VersionRequired
  | UnsupportedArtifactType string
  | ArchitectureRequired
  | SizeBytesNotPositive
  | BadSHA256
  | SignatureRequired
  | InvalidHealthTimeout string
  | NegativeHealthTimeout
  | UnsupportedState ota_state
  | BadProgress
  | BadActiveSlot string
  | BadTargetSlot string
  | InvalidTransition ota_state ota_state

subsection \<open>Validation\<close>

definition artifact_types :: "string list" where
  "artifact_types =
     [''firmware'', ''bsp'', ''kernel'', ''device-tree'', ''bootloader'', ''rootfs'', ''container'',
      ''configuration'', ''mcu-firmware'', ''ai-model'']"

definition validArtifactType :: "string \<Rightarrow> bool" where
  "validArtifactType t \<longleftrightarrow> t \<in> set artifact_types"

definition ota_states :: "ota_state list" where
  "ota_states =
     [''pending'', ''downloading'', ''downloaded'', ''verifying'', ''staged'', ''activating'',
      ''rebooting'', ''health-check'', ''committed'', ''failed'', ''rollback-pending'',
      ''rolled-back'', ''cancelled'']"

definition validState :: "ota_state \<Rightarrow> bool" where
  "validState s \<longleftrightarrow> s \<in> set ota_states"

definition validSlot :: "string \<Rightarrow> bool" where
  "validSlot s \<longleftrightarrow> s = '''' \<or> s = ''A'' \<or> s = ''B''"

definition hex_char :: "char \<Rightarrow> bool" where
  "hex_char c \<longleftrightarrow>
     (let n = of_char c :: nat in 48 \<le> n \<and> n \<le> 57 \<or> 97 \<le> n \<and> n \<le> 102 \<or> 65 \<le> n \<and> n \<le> 70)"

definition validSHA256 :: "string \<Rightarrow> bool" where
  "validSHA256 v \<longleftrightarrow> length v = 64 \<and> list_all hex_char v"

definition HealthTimeoutDuration :: "policy \<Rightarrow> ota_error + duration" where
  "HealthTimeoutDuration p =
     (let v = trim_space (po_HealthTimeout p)
      in if v = [] then Inr 0
         else case parse_duration v of
           None \<Rightarrow> Inl (InvalidHealthTimeout (po_HealthTimeout p))
         | Some d \<Rightarrow> if d < 0 then Inl NegativeHealthTimeout else Inr d)"

definition Manifest_Validate :: "manifest \<Rightarrow> ota_error + unit" where
  "Manifest_Validate m =
     (if trim_space (mf_ArtifactID m) = [] then Inl ArtifactIDRequired
      else if trim_space (mf_Version m) = [] then Inl VersionRequired
      else if \<not> validArtifactType (mf_Type m) then Inl (UnsupportedArtifactType (mf_Type m))
      else if trim_space (mf_Architecture m) = [] then Inl ArchitectureRequired
      else if mf_SizeBytes m \<le> 0 then Inl SizeBytesNotPositive
      else if \<not> validSHA256 (mf_SHA256 m) then Inl BadSHA256
      else if trim_space (mf_Signature m) = [] then Inl SignatureRequired
      else Inr ())"

definition Request_Validate :: "request \<Rightarrow> ota_error + unit" where
  "Request_Validate r =
     (if trim_space (rq_UpdateID r) = [] then Inl UpdateIDRequired
      else if trim_space (rq_DeviceID r) = [] then Inl DeviceIDRequired
      else case Manifest_Validate (rq_Manifest r) of
        Inl e \<Rightarrow> Inl e
      | Inr _ \<Rightarrow> (case HealthTimeoutDuration (rq_Policy r) of Inl e \<Rightarrow> Inl e | Inr _ \<Rightarrow> Inr ()))"

definition Status_Validate :: "status \<Rightarrow> ota_error + unit" where
  "Status_Validate s =
     (if trim_space (su_UpdateID s) = [] then Inl UpdateIDRequired
      else if trim_space (su_DeviceID s) = [] then Inl DeviceIDRequired
      else if \<not> validState (su_State s) then Inl (UnsupportedState (su_State s))
      else if su_ProgressPercent s < 0 \<or> 100 < su_ProgressPercent s then Inl BadProgress
      else if \<not> validSlot (su_ActiveSlot s) then Inl (BadActiveSlot (su_ActiveSlot s))
      else if \<not> validSlot (su_TargetSlot s) then Inl (BadTargetSlot (su_TargetSlot s))
      else Inr ())"

subsection \<open>The lifecycle\<close>

definition transitions :: "(ota_state \<times> ota_state list) list" where
  "transitions =
     [(''pending'', [''downloading'', ''cancelled'', ''failed'']),
      (''downloading'', [''downloaded'', ''cancelled'', ''failed'']),
      (''downloaded'', [''verifying'', ''cancelled'', ''failed'']),
      (''verifying'', [''staged'', ''cancelled'', ''failed'']),
      (''staged'', [''activating'', ''cancelled'', ''failed'']),
      (''activating'', [''rebooting'', ''health-check'', ''rollback-pending'', ''failed'']),
      (''rebooting'', [''health-check'', ''rollback-pending'', ''failed'']),
      (''health-check'', [''committed'', ''rollback-pending'', ''failed'']),
      (''rollback-pending'', [''rolled-back'', ''failed''])]"

definition CanTransition :: "ota_state \<Rightarrow> ota_state \<Rightarrow> bool" where
  "CanTransition current nxt \<longleftrightarrow>
     (if current = nxt then True
      else case map_of transitions current of None \<Rightarrow> False | Some ns \<Rightarrow> nxt \<in> set ns)"

definition ValidateTransition :: "ota_state \<Rightarrow> ota_state \<Rightarrow> ota_error + unit" where
  "ValidateTransition current nxt =
     (if \<not> CanTransition current nxt then Inl (InvalidTransition current nxt) else Inr ())"

definition Terminal :: "ota_state \<Rightarrow> bool" where
  "Terminal s \<longleftrightarrow> s \<in> set [''committed'', ''failed'', ''rolled-back'', ''cancelled'']"

text \<open>The statuses a device may report in turn, starting from \<^verbatim>\<open>pending\<close>; the latest
  one is last.\<close>

inductive ota_run :: "ota_state list \<Rightarrow> bool" where
  start: "ota_run [''pending'']"
| report: "ota_run tr \<Longrightarrow> ValidateTransition (last tr) s = Inr () \<Longrightarrow> ota_run (tr @ [s])"

subsection \<open>JSON form\<close>

definition manifest_to_json :: "manifest \<Rightarrow> json" where
  "manifest_to_json m = JObj
     (jfield ''artifact_id'' (JStr (mf_ArtifactID m)) @
      jfield ''version'' (JStr (mf_Version m)) @
      jfield ''type'' (JStr (mf_Type m)) @
      jfield ''architecture'' (JStr (mf_Architecture m)) @
      jomit ''board'' (mf_Board m) @
      jfield ''size_bytes'' (JInt (mf_SizeBytes m)) @
      jfield ''sha256'' (JStr (mf_SHA256 m)) @
      jfield ''signature'' (JStr (mf_Signature m)) @
      jomit ''sbom'' (mf_SBOM m) @
      jomit ''bundle_format'' (mf_BundleFormat m) @
      jomit ''minimum_bootloader'' (mf_MinimumBootloader m) @
      jfield ''rollback_supported'' (JBool (mf_RollbackSupported m)))"

definition policy_to_json :: "policy \<Rightarrow> json" where
  "policy_to_json p = JObj
     (jfield ''reboot_required'' (JBool (po_RebootRequired p)) @
      jomit ''health_timeout'' (po_HealthTimeout p) @
      jfield ''rollback_on_failure'' (JBool (po_RollbackOnFailure p)) @
      jfield ''require_ab_slots'' (JBool (po_RequireABSlots p)))"

definition request_to_json :: "request \<Rightarrow> json" where
  "request_to_json r = JObj
     (jfield ''update_id'' (JStr (rq_UpdateID r)) @
      jfield ''device_id'' (JStr (rq_DeviceID r)) @
      jomit ''site_id'' (rq_SiteID r) @
      jfield ''manifest'' (manifest_to_json (rq_Manifest r)) @
      jfield ''policy'' (policy_to_json (rq_Policy r)))"

definition status_to_json :: "status \<Rightarrow> json" where
  "status_to_json s = JObj
     (jfield ''update_id'' (JStr (su_UpdateID s)) @
      jfield ''device_id'' (JStr (su_DeviceID s)) @
      jfield ''state'' (JStr (su_State s)) @
      jfield ''progress_percent'' (JInt (su_ProgressPercent s)) @
      jomit ''active_slot'' (su_ActiveSlot s) @
      jomit ''target_slot'' (su_TargetSlot s) @
      jomit ''current_version'' (su_CurrentVersion s) @
      jomit ''target_version'' (su_TargetVersion s) @
      jomit ''last_error'' (su_LastError s) @
      jfield ''updated_at'' (JTime (su_UpdatedAt s)))"

definition manifest_fields :: "manifest \<Rightarrow> json_map \<Rightarrow> manifest option" where
  "manifest_fields z ob = do {
     a \<leftarrow> dec_field ''artifact_id'' dec_str (mf_ArtifactID z) ob;
     v \<leftarrow> dec_field ''version'' dec_str (mf_Version z) ob;
     t \<leftarrow> dec_field ''type'' dec_str (mf_Type z) ob;
     ar \<leftarrow> dec_field ''architecture'' dec_str (mf_Architecture z) ob;
     b \<leftarrow> dec_field ''board'' dec_str (mf_Board z) ob;
     n \<leftarrow> dec_field ''size_bytes'' dec_int64 (mf_SizeBytes z) ob;
     h \<leftarrow> dec_field ''sha256'' dec_str (mf_SHA256 z) ob;
     sg \<leftarrow> dec_field ''signature'' dec_str (mf_Signature z) ob;
     sb \<leftarrow> dec_field ''sbom'' dec_str (mf_SBOM z) ob;
     bf \<leftarrow> dec_field ''bundle_format'' dec_str (mf_BundleFormat z) ob;
     mb \<leftarrow> dec_field ''minimum_bootloader'' dec_str (mf_MinimumBootloader z) ob;
     rs \<leftarrow> dec_field ''rollback_supported'' dec_bool (mf_RollbackSupported z) ob;
     Some \<lparr>mf_ArtifactID = a, mf_Version = v, mf_Type = t, mf_Architecture = ar, mf_Board = b,
       mf_SizeBytes = n, mf_SHA256 = h, mf_Signature = sg, mf_SBOM = sb, mf_BundleFormat = bf,
       mf_MinimumBootloader = mb, mf_RollbackSupported = rs\<rparr> }"

definition policy_fields :: "policy \<Rightarrow> json_map \<Rightarrow> policy option" where
  "policy_fields z ob = do {
     rr \<leftarrow> dec_field ''reboot_required'' dec_bool (po_RebootRequired z) ob;
     ht \<leftarrow> dec_field ''health_timeout'' dec_str (po_HealthTimeout z) ob;
     rf \<leftarrow> dec_field ''rollback_on_failure'' dec_bool (po_RollbackOnFailure z) ob;
     ab \<leftarrow> dec_field ''require_ab_slots'' dec_bool (po_RequireABSlots z) ob;
     Some \<lparr>po_RebootRequired = rr, po_HealthTimeout = ht, po_RollbackOnFailure = rf,
       po_RequireABSlots = ab\<rparr> }"

definition request_fields :: "request \<Rightarrow> json_map \<Rightarrow> request option" where
  "request_fields z ob = do {
     u \<leftarrow> dec_field ''update_id'' dec_str (rq_UpdateID z) ob;
     d \<leftarrow> dec_field ''device_id'' dec_str (rq_DeviceID z) ob;
     s \<leftarrow> dec_field ''site_id'' dec_str (rq_SiteID z) ob;
     m \<leftarrow> dec_field ''manifest'' (dec_struct manifest_fields) (rq_Manifest z) ob;
     p \<leftarrow> dec_field ''policy'' (dec_struct policy_fields) (rq_Policy z) ob;
     Some \<lparr>rq_UpdateID = u, rq_DeviceID = d, rq_SiteID = s, rq_Manifest = m, rq_Policy = p\<rparr> }"

definition status_fields :: "status \<Rightarrow> json_map \<Rightarrow> status option" where
  "status_fields z ob = do {
     u \<leftarrow> dec_field ''update_id'' dec_str (su_UpdateID z) ob;
     d \<leftarrow> dec_field ''device_id'' dec_str (su_DeviceID z) ob;
     s \<leftarrow> dec_field ''state'' dec_str (su_State z) ob;
     pp \<leftarrow> dec_field ''progress_percent'' dec_int64 (su_ProgressPercent z) ob;
     sa \<leftarrow> dec_field ''active_slot'' dec_str (su_ActiveSlot z) ob;
     ts \<leftarrow> dec_field ''target_slot'' dec_str (su_TargetSlot z) ob;
     cv \<leftarrow> dec_field ''current_version'' dec_str (su_CurrentVersion z) ob;
     tv \<leftarrow> dec_field ''target_version'' dec_str (su_TargetVersion z) ob;
     le \<leftarrow> dec_field ''last_error'' dec_str (su_LastError z) ob;
     ua \<leftarrow> dec_field ''updated_at'' dec_time (su_UpdatedAt z) ob;
     Some \<lparr>su_UpdateID = u, su_DeviceID = d, su_State = s, su_ProgressPercent = pp,
       su_ActiveSlot = sa, su_TargetSlot = ts, su_CurrentVersion = cv, su_TargetVersion = tv,
       su_LastError = le, su_UpdatedAt = ua\<rparr> }"

definition zero_manifest :: manifest where
  "zero_manifest = \<lparr>mf_ArtifactID = [], mf_Version = [], mf_Type = [], mf_Architecture = [],
     mf_Board = [], mf_SizeBytes = 0, mf_SHA256 = [], mf_Signature = [], mf_SBOM = [],
     mf_BundleFormat = [], mf_MinimumBootloader = [], mf_RollbackSupported = False\<rparr>"

definition zero_policy :: policy where
  "zero_policy = \<lparr>po_RebootRequired = False, po_HealthTimeout = [], po_RollbackOnFailure = False,
     po_RequireABSlots = False\<rparr>"

definition zero_request :: request where
  "zero_request = \<lparr>rq_UpdateID = [], rq_DeviceID = [], rq_SiteID = [], rq_Manifest = zero_manifest,
     rq_Policy = zero_policy\<rparr>"

definition zero_status :: status where
  "zero_status = \<lparr>su_UpdateID = [], su_DeviceID = [], su_State = [], su_ProgressPercent = 0,
     su_ActiveSlot = [], su_TargetSlot = [], su_CurrentVersion = [], su_TargetVersion = [],
     su_LastError = [], su_UpdatedAt = 0\<rparr>"

definition json_to_request :: "json \<Rightarrow> request option" where
  "json_to_request = dec_struct request_fields zero_request"

definition json_to_status :: "json \<Rightarrow> status option" where
  "json_to_status = dec_struct status_fields zero_status"

subsection \<open>Lemmas: validation\<close>

lemma HealthTimeoutDuration_nonneg: "HealthTimeoutDuration p = Inr d \<Longrightarrow> 0 \<le> d"
  by (auto simp: HealthTimeoutDuration_def Let_def split: if_splits option.splits)

lemma Manifest_Validate_iff:
  "Manifest_Validate m = Inr () \<longleftrightarrow>
     trim_space (mf_ArtifactID m) \<noteq> [] \<and> trim_space (mf_Version m) \<noteq> [] \<and>
     validArtifactType (mf_Type m) \<and> trim_space (mf_Architecture m) \<noteq> [] \<and>
     0 < mf_SizeBytes m \<and> validSHA256 (mf_SHA256 m) \<and> trim_space (mf_Signature m) \<noteq> []"
  by (auto simp: Manifest_Validate_def)

lemma Request_Validate_iff:
  "Request_Validate r = Inr () \<longleftrightarrow>
     trim_space (rq_UpdateID r) \<noteq> [] \<and> trim_space (rq_DeviceID r) \<noteq> [] \<and>
     Manifest_Validate (rq_Manifest r) = Inr () \<and>
     (\<exists>d. HealthTimeoutDuration (rq_Policy r) = Inr d)"
  by (auto simp: Request_Validate_def split: sum.splits)

subsection \<open>Lemmas: the lifecycle\<close>

definition ota_edges :: "(ota_state \<times> ota_state) list" where
  "ota_edges = concat (map (\<lambda>(a, ns). map (Pair a) ns) transitions)"

text \<open>States every run that ends in a given state has passed, in this order.\<close>

definition passed :: "ota_state \<Rightarrow> ota_state list" where
  "passed s =
     (let act = [''pending'', ''downloading'', ''downloaded'', ''verifying'', ''staged'', ''activating'']
      in case map_of
          [(''downloading'', take 2 act), (''downloaded'', take 3 act), (''verifying'', take 4 act),
           (''staged'', take 5 act), (''activating'', act), (''rebooting'', act @ [''rebooting'']),
           (''health-check'', act @ [''health-check'']),
           (''committed'', act @ [''health-check'', ''committed'']),
           (''rollback-pending'', act @ [''rollback-pending'']),
           (''rolled-back'', act @ [''rollback-pending'', ''rolled-back''])] s of
        None \<Rightarrow> [''pending''] | Some ss \<Rightarrow> ss)"

text \<open>The longest chain of distinct states that ends in a given state.\<close>

definition ota_rank :: "ota_state \<Rightarrow> nat" where
  "ota_rank s = (case map_of
     [(''pending'', 1), (''downloading'', 2), (''downloaded'', 3), (''verifying'', 4), (''staged'', 5),
      (''activating'', 6), (''rebooting'', 7), (''health-check'', 8), (''committed'', 9),
      (''rollback-pending'', 9)] s of None \<Rightarrow> 10 | Some n \<Rightarrow> n)"

lemma CanTransition_edge:
  assumes "CanTransition a b" "a \<noteq> b"
  shows "(a, b) \<in> set ota_edges"
proof -
  obtain ns where "map_of transitions a = Some ns" "b \<in> set ns"
    using assms by (auto simp: CanTransition_def split: option.splits)
  then have "(a, ns) \<in> set transitions" "b \<in> set ns" by (auto dest: map_of_SomeD)
  then show ?thesis by (force simp: ota_edges_def)
qed

lemma edges_passed: "list_all (\<lambda>(a, b). subseq (passed b) (passed a @ [b])) ota_edges"
  by code_simp

lemma edges_rank: "list_all (\<lambda>(a, b). ota_rank a < ota_rank b) ota_edges"
  by code_simp

lemma edges_valid: "list_all (\<lambda>(a, b). validState b \<and> \<not> Terminal a) ota_edges"
  by code_simp

lemma step_passed: "CanTransition a b \<Longrightarrow> a \<noteq> b \<Longrightarrow> subseq (passed b) (passed a @ [b])"
  using edges_passed CanTransition_edge[of a b] by (auto simp: list_all_iff)

lemma step_rank: "CanTransition a b \<Longrightarrow> a \<noteq> b \<Longrightarrow> ota_rank a < ota_rank b"
  using edges_rank CanTransition_edge[of a b] by (auto simp: list_all_iff)

lemma step_valid: "CanTransition a b \<Longrightarrow> a \<noteq> b \<Longrightarrow> validState b \<and> \<not> Terminal a"
  using edges_valid CanTransition_edge[of a b] by (auto simp: list_all_iff)

lemma ValidateTransition_iff [simp]: "ValidateTransition a b = Inr () \<longleftrightarrow> CanTransition a b"
  by (simp add: ValidateTransition_def)

lemma ota_run_nonempty: "ota_run tr \<Longrightarrow> tr \<noteq> []"
  by (induction rule: ota_run.induct) auto

lemma ota_run_passed: "ota_run tr \<Longrightarrow> subseq (passed (last tr)) tr"
proof (induction rule: ota_run.induct)
  case start
  show ?case by code_simp
next
  case (report tr s)
  show ?case
  proof (cases "last tr = s")
    case True
    then show ?thesis using report.IH by (simp add: list_emb_prefix)
  next
    case False
    then have "subseq (passed s) (passed (last tr) @ [s])" using report.hyps step_passed by simp
    moreover have "subseq (passed (last tr) @ [s]) (tr @ [s])"
      using report.IH by (simp add: list_emb_append_mono)
    ultimately show ?thesis by (simp add: subseq_order.order_trans)
  qed
qed

lemma remdups_adj_snoc:
  "xs \<noteq> [] \<Longrightarrow>
   remdups_adj (xs @ [x]) = (if last xs = x then remdups_adj xs else remdups_adj xs @ [x])"
  by (induction xs rule: remdups_adj.induct) auto

lemma ota_run_rank: "ota_run tr \<Longrightarrow> length (remdups_adj tr) \<le> ota_rank (last tr)"
proof (induction rule: ota_run.induct)
  case start
  show ?case by code_simp
next
  case (report tr s)
  then show ?case
    using step_rank[of "last tr" s] ota_run_nonempty[of tr] by (auto simp: remdups_adj_snoc)
qed

lemma ota_rank_le: "ota_rank s \<le> 10"
  by (auto simp: ota_rank_def split: option.splits if_splits)

lemma states_can_fail: "list_all (\<lambda>s. Terminal s \<or> CanTransition s ''failed'' \<and> s \<noteq> ''failed'') ota_states"
  by code_simp

subsection \<open>Lemmas: JSON form\<close>

lemmas key_simps = key_eq_def to_lower_def to_lower_char_def

lemma manifest_json_roundtrip:
  assumes "- (2 ^ 63) \<le> mf_SizeBytes m" "mf_SizeBytes m < 2 ^ 63"
  shows "dec_struct manifest_fields zero_manifest (manifest_to_json m) = Some m"
  using assms
  by (simp add: manifest_to_json_def manifest_fields_def dec_field_append zero_manifest_def key_simps)

lemma policy_json_roundtrip: "dec_struct policy_fields zero_policy (policy_to_json p) = Some p"
  by (simp add: policy_to_json_def policy_fields_def dec_field_append zero_policy_def key_simps)

lemma request_json_roundtrip:
  assumes "- (2 ^ 63) \<le> mf_SizeBytes (rq_Manifest r)" "mf_SizeBytes (rq_Manifest r) < 2 ^ 63"
  shows "json_to_request (request_to_json r) = Some r"
  using manifest_json_roundtrip[OF assms] policy_json_roundtrip[of "rq_Policy r"]
  by (simp add: json_to_request_def request_to_json_def request_fields_def dec_field_append
      zero_request_def key_simps)

lemma status_json_roundtrip:
  assumes "- (2 ^ 63) \<le> su_ProgressPercent s" "su_ProgressPercent s < 2 ^ 63"
  shows "json_to_status (status_to_json s) = Some s"
  using assms
  by (simp add: json_to_status_def status_to_json_def status_fields_def dec_field_append
      zero_status_def key_simps)

subsection \<open>Properties\<close>



text \<open>C3: the lifecycle has no cycles: whatever a device reports, at most ten
  different states are accepted one after the other, and the states called terminal
  are exactly the known ones that no report can leave.\<close>

theorem ota_run_bounded:
  "(\<forall>tr. ota_run tr \<longrightarrow> length (remdups_adj tr) \<le> 10) \<and>
   (\<forall>s. validState s \<longrightarrow> (Terminal s \<longleftrightarrow> (\<forall>n. CanTransition s n \<longleftrightarrow> n = s)))"
proof (intro conjI allI impI)
  fix tr assume "ota_run tr"
  then show "length (remdups_adj tr) \<le> 10"
    using ota_run_rank[of tr] ota_rank_le[of "last tr"] by linarith
next
  fix s assume v: "validState s"
  show "Terminal s \<longleftrightarrow> (\<forall>n. CanTransition s n \<longleftrightarrow> n = s)"
  proof
    assume "Terminal s"
    then show "\<forall>n. CanTransition s n \<longleftrightarrow> n = s" using step_valid by (auto simp: CanTransition_def)
  next
    assume "\<forall>n. CanTransition s n \<longleftrightarrow> n = s"
    then show "Terminal s"
      using v states_can_fail by (force simp: validState_def list_all_iff)
  qed
qed

theorem ota_run_bounded_witness:
  "length (remdups_adj [''pending'', ''failed'']) \<le> 10 \<and>
   (Terminal ''failed'' \<longleftrightarrow> (\<forall>n. CanTransition ''failed'' n \<longleftrightarrow> n = ''failed''))"
proof -
  have "ota_run ([''pending''] @ [''failed''])"
    by (intro ota_run.intros) (simp_all add: CanTransition_def transitions_def)
  then have r: "ota_run [''pending'', ''failed'']" by simp
  show ?thesis
    by (rule conjI)
      (rule ota_run_bounded [THEN conjunct1, rule_format, OF r],
       rule ota_run_bounded [THEN conjunct2, rule_format], simp add: validState_def ota_states_def)
qed



end
