(* ===== verification/Model.thy ===== *)
theory Model
  imports Ota
begin

text \<open>
  The control plane's entities, \<^verbatim>\<open>internal/model/model.go\<close>: one record per
  struct, with its fields in the order of the source.  A Go map is an association
  list; \<^verbatim>\<open>json.RawMessage\<close> is a \<^typ>\<open>json\<close> value.
\<close>

type_synonym str_map = "(string \<times> string) list"

record site =
  site_ID :: string
  site_Name :: string
  site_TokenHash :: string
  site_Status :: string
  site_Version :: string
  site_LastSeen :: time
  site_CreatedAt :: time
  site_Metadata :: str_map
  site_Metrics :: json_map
  site_CertificateSerial :: string
  site_CertificateExpiresAt :: time
  site_Revoked :: bool
  site_RevokedAt :: time
  site_OrgID :: string

record org =
  org_ID :: string
  org_Name :: string
  org_CreatedAt :: time
  org_EnrollmentTokenHash :: string
  org_AdminTokenHash :: string
  org_ViewerTokenHash :: string

record device =
  dev_ID :: string
  dev_SiteID :: string
  dev_Name :: string
  dev_Protocol :: string
  dev_Status :: string
  dev_LastSeen :: time
  dev_CreatedAt :: time
  dev_Tags :: str_map

record twin =
  tw_DeviceID :: string
  tw_SiteID :: string
  tw_Desired :: json_map
  tw_Reported :: json_map
  tw_DesiredVersion :: "64 word"
  tw_ReportedVersion :: "64 word"
  tw_UpdatedAt :: time

record route =
  rt_ID :: string
  rt_Name :: string
  rt_SiteID :: string
  rt_Topic :: string
  rt_TargetURL :: string
  rt_Method :: string
  rt_Enabled :: bool
  rt_RetryMax :: int
  rt_TimeoutSecs :: int
  rt_Headers :: str_map
  rt_CreatedAt :: time

record event =
  ev_ID :: string
  ev_SiteID :: string
  ev_Topic :: string
  ev_Payload :: json
  ev_Headers :: str_map
  ev_EventTime :: time
  ev_IngestedAt :: time
  ev_CreatedAt :: time

record delivery =
  dl_ID :: string
  dl_RouteID :: string
  dl_EventID :: string
  dl_SiteID :: string
  dl_Topic :: string
  dl_TargetURL :: string
  dl_Method :: string
  dl_Payload :: json
  dl_Headers :: str_map
  dl_TimeoutSecs :: int
  dl_Attempts :: int
  dl_MaxAttempts :: int
  dl_NextAttempt :: time
  dl_EventTime :: time
  dl_CreatedAt :: time
  dl_LastError :: string

record dead_letter =
  dq_Delivery :: delivery
  dq_FailedAt :: time
  dq_Reason :: string

record deployment =
  dp_ID :: string
  dp_SiteID :: string
  dp_Name :: string
  dp_Version :: string
  dp_Image :: string
  dp_Status :: string
  dp_DesiredState :: string
  dp_ActualState :: string
  dp_Env :: str_map
  dp_Ports :: "string list"
  dp_Volumes :: "string list"
  dp_Command :: "string list"
  dp_CreatedAt :: time
  dp_UpdatedAt :: time
  dp_LastGoodImage :: string
  dp_LastGoodVersion :: string
  dp_SignatureMode :: string
  dp_DeployedAt :: time

record alert =
  al_ID :: string
  al_SiteID :: string
  al_Severity :: string
  al_Type :: string
  al_Message :: string
  al_Resolved :: bool
  al_CreatedAt :: time

record policy_pack =
  pk_ID :: string
  pk_Name :: string
  pk_Version :: int
  pk_SiteID :: string
  pk_Enabled :: bool
  pk_AllowedImages :: "string list"
  pk_CreatedAt :: time
  pk_UpdatedAt :: time

record campaign_device =
  cd_DeviceID :: string
  cd_SiteID :: string
  cd_UpdateID :: string
  cd_Stage :: int
  cd_State :: ota_state

record campaign =
  ca_ID :: string
  ca_Name :: string
  ca_SiteIDs :: "string list"
  ca_DeviceIDs :: "string list"
  ca_Stages :: "int list"
  ca_Manifest :: manifest
  ca_Policy :: policy
  ca_FailureThresholdPercent :: int
  ca_Status :: string
  ca_CurrentStage :: int
  ca_TargetDeviceIDs :: "string list"
  ca_Devices :: "campaign_device list"
  ca_CreatedAt :: time
  ca_UpdatedAt :: time

text \<open>The \<^verbatim>\<open>State\<close> struct.  \<^verbatim>\<open>OTACampaignStage\<close> has the single field
  \<^verbatim>\<open>CanaryPercent\<close>, so a stage is that integer.\<close>

record state =
  Sites :: "site list"
  Devices :: "device list"
  Twins :: "twin list"
  Routes :: "route list"
  Deployments :: "deployment list"
  Alerts :: "alert list"
  Events :: "event list"
  SeenEvents :: "string list"
  PolicyPacks :: "policy_pack list"
  Orgs :: "org list"
  OTACampaigns :: "campaign list"

definition empty_state :: state where
  "empty_state = \<lparr>Sites = [], Devices = [], Twins = [], Routes = [], Deployments = [], Alerts = [],
     Events = [], SeenEvents = [], PolicyPacks = [], Orgs = [], OTACampaigns = []\<rparr>"

text \<open>Zero values of the structs the handlers create field by field.\<close>

definition zero_site :: site where
  "zero_site = \<lparr>site_ID = [], site_Name = [], site_TokenHash = [], site_Status = [],
     site_Version = [], site_LastSeen = 0, site_CreatedAt = 0, site_Metadata = [], site_Metrics = [],
     site_CertificateSerial = [], site_CertificateExpiresAt = 0, site_Revoked = False,
     site_RevokedAt = 0, site_OrgID = []\<rparr>"

definition zero_twin :: twin where
  "zero_twin = \<lparr>tw_DeviceID = [], tw_SiteID = [], tw_Desired = [], tw_Reported = [],
     tw_DesiredVersion = 0, tw_ReportedVersion = 0, tw_UpdatedAt = 0\<rparr>"

definition zero_event :: event where
  "zero_event = \<lparr>ev_ID = [], ev_SiteID = [], ev_Topic = [], ev_Payload = JNull, ev_Headers = [],
     ev_EventTime = 0, ev_IngestedAt = 0, ev_CreatedAt = 0\<rparr>"

definition zero_deployment :: deployment where
  "zero_deployment = \<lparr>dp_ID = [], dp_SiteID = [], dp_Name = [], dp_Version = [], dp_Image = [],
     dp_Status = [], dp_DesiredState = [], dp_ActualState = [], dp_Env = [], dp_Ports = [],
     dp_Volumes = [], dp_Command = [], dp_CreatedAt = 0, dp_UpdatedAt = 0, dp_LastGoodImage = [],
     dp_LastGoodVersion = [], dp_SignatureMode = [], dp_DeployedAt = 0\<rparr>"

end
