(* ===== verification/Store.thy ===== *)
theory Store
  imports Model
begin

text \<open>
  The fleet store of the control plane in file mode, \<^verbatim>\<open>internal/store/store.go\<close>: the
  state in memory, a log of operations and a snapshot that replaces the log every 2048
  operations.

  An operation carries the entity the source writes as JSON.  Snapshot and log are part
  of the state; \<^verbatim>\<open>st_io\<close> holds the outcomes of the appends to come (none left:
  everything works), with one constructor per stage at which the source can return an
  error.  The store of \<^verbatim>\<open>Snapshot()\<close> is a deep copy through JSON, so readers get values.
\<close>

subsection \<open>State\<close>

datatype op =
    SiteAdd site | SiteSet site
  | DeviceAdd device
  | TwinSet twin
  | RouteAdd route | RouteDel string
  | DeploymentAdd deployment | DeploymentSet deployment | DeploymentDel string
  | PolicyAdd policy_pack | PolicySet policy_pack | PolicyDel string
  | CampaignAdd campaign | CampaignSet campaign
  | OrgAdd org | OrgSet org | OrgDel string
  | AlertAdd alert | AlertSet alert
  | EventAdd event
  | UnknownOp string

datatype store_line = SRec op | SPartial | SGarbage

datatype store_compact = SCompactDone | SnapshotFails | TruncateFails | SReopenFails

datatype store_io = SAppendDone store_compact | SWriteFails bool | SSyncFails

datatype store_error = SErrIO | SErrNotExist | SErrUnknownOp string | SErrBadWal

record store =
  st_state :: state
  st_seen :: "string set"
  st_ops :: nat
  st_snapshot :: state
  st_wal :: "store_line list"
  st_open :: bool
  st_io :: "store_io list"

subsection \<open>Applying an operation\<close>

definition apply_state :: "op \<Rightarrow> state \<Rightarrow> state" where
  "apply_state o' st =
     (case o' of
        SiteAdd v \<Rightarrow> st\<lparr>Sites := Sites st @ [v]\<rparr>
      | SiteSet v \<Rightarrow> st\<lparr>Sites := upsert (\<lambda>x. site_ID x = site_ID v) v (Sites st)\<rparr>
      | DeviceAdd v \<Rightarrow> st\<lparr>Devices := upsert (\<lambda>x. dev_ID x = dev_ID v) v (Devices st)\<rparr>
      | TwinSet v \<Rightarrow> st\<lparr>Twins := upsert (\<lambda>x. tw_DeviceID x = tw_DeviceID v) v (Twins st)\<rparr>
      | RouteAdd v \<Rightarrow> st\<lparr>Routes := Routes st @ [v]\<rparr>
      | RouteDel i \<Rightarrow> st\<lparr>Routes := filter (\<lambda>x. rt_ID x \<noteq> i) (Routes st)\<rparr>
      | DeploymentAdd v \<Rightarrow> st\<lparr>Deployments := Deployments st @ [v]\<rparr>
      | DeploymentSet v \<Rightarrow> st\<lparr>Deployments := replace_first (\<lambda>x. dp_ID x = dp_ID v) v (Deployments st)\<rparr>
      | DeploymentDel i \<Rightarrow> st\<lparr>Deployments := filter (\<lambda>x. dp_ID x \<noteq> i) (Deployments st)\<rparr>
      | PolicyAdd v \<Rightarrow> st\<lparr>PolicyPacks := PolicyPacks st @ [v]\<rparr>
      | PolicySet v \<Rightarrow> st\<lparr>PolicyPacks := replace_first (\<lambda>x. pk_ID x = pk_ID v) v (PolicyPacks st)\<rparr>
      | PolicyDel i \<Rightarrow> st\<lparr>PolicyPacks := filter (\<lambda>x. pk_ID x \<noteq> i) (PolicyPacks st)\<rparr>
      | CampaignAdd v \<Rightarrow> st\<lparr>OTACampaigns := OTACampaigns st @ [v]\<rparr>
      | CampaignSet v \<Rightarrow> st\<lparr>OTACampaigns := replace_first (\<lambda>x. ca_ID x = ca_ID v) v (OTACampaigns st)\<rparr>
      | OrgAdd v \<Rightarrow> st\<lparr>Orgs := Orgs st @ [v]\<rparr>
      | OrgSet v \<Rightarrow> st\<lparr>Orgs := replace_first (\<lambda>x. org_ID x = org_ID v) v (Orgs st)\<rparr>
      | OrgDel i \<Rightarrow> st\<lparr>Orgs := filter (\<lambda>x. org_ID x \<noteq> i) (Orgs st)\<rparr>
      | AlertAdd v \<Rightarrow> st\<lparr>Alerts := keep_last 2000 (Alerts st @ [v])\<rparr>
      | AlertSet v \<Rightarrow> st\<lparr>Alerts := replace_first (\<lambda>x. al_ID x = al_ID v) v (Alerts st)\<rparr>
      | EventAdd v \<Rightarrow> st\<lparr>Events := keep_last 2000 (Events st @ [v]),
                         SeenEvents := keep_last 20000 (SeenEvents st @ [ev_ID v])\<rparr>
      | UnknownOp _ \<Rightarrow> st)"

text \<open>The set of IDs beside \<^verbatim>\<open>SeenEvents\<close>: an ID that leaves the window leaves it.\<close>

definition apply_seen :: "op \<Rightarrow> state \<Rightarrow> string set \<Rightarrow> string set" where
  "apply_seen o' st seen =
     (case o' of
        EventAdd v \<Rightarrow>
          (let ids = SeenEvents st @ [ev_ID v]
           in insert (ev_ID v) seen - set (take (length ids - 20000) ids))
      | _ \<Rightarrow> seen)"

definition apply_op :: "op \<Rightarrow> store \<Rightarrow> store \<times> store_error option" where
  "apply_op o' s =
     (case o' of
        UnknownOp t \<Rightarrow> (s, Some (SErrUnknownOp t))
      | _ \<Rightarrow> (s\<lparr>st_state := apply_state o' (st_state s),
               st_seen := apply_seen o' (st_state s) (st_seen s)\<rparr>, None))"

subsection \<open>The log\<close>

fun replay_ops :: "store_line list \<Rightarrow> store \<Rightarrow> store_error + store" where
  "replay_ops [] s = Inr s"
| "replay_ops (SRec o' # ls) s =
     (case apply_op o' s of (_, Some e) \<Rightarrow> Inl e | (s', None) \<Rightarrow> replay_ops ls s')"
| "replay_ops (SPartial # ls) s = Inl SErrBadWal"
| "replay_ops (SGarbage # ls) s = Inl SErrBadWal"

definition Open :: "state \<Rightarrow> store_line list \<Rightarrow> store_error + store" where
  "Open snapshot wal =
     replay_ops wal \<lparr>st_state = snapshot, st_seen = set (SeenEvents snapshot), st_ops = 0,
       st_snapshot = snapshot, st_wal = wal, st_open = True, st_io = []\<rparr>"

definition swal_add :: "store_line list \<Rightarrow> op \<Rightarrow> store_line list" where
  "swal_add ls o' = (if ls \<noteq> [] \<and> last ls = SPartial then butlast ls @ [SGarbage] else ls @ [SRec o'])"

definition swal_torn :: "store_line list \<Rightarrow> store_line list" where
  "swal_torn ls = (if ls \<noteq> [] \<and> last ls = SPartial then ls else ls @ [SPartial])"

definition compactLocked :: "store_compact \<Rightarrow> store \<Rightarrow> store \<times> store_error option" where
  "compactLocked c s =
     (case c of
        SnapshotFails \<Rightarrow> (s, Some SErrIO)
      | TruncateFails \<Rightarrow> (s\<lparr>st_snapshot := st_state s, st_open := False\<rparr>, Some SErrIO)
      | SReopenFails \<Rightarrow> (s\<lparr>st_snapshot := st_state s, st_wal := [], st_ops := 0, st_open := False\<rparr>, Some SErrIO)
      | SCompactDone \<Rightarrow> (s\<lparr>st_snapshot := st_state s, st_wal := [], st_ops := 0\<rparr>, None))"

definition next_sio :: "store \<Rightarrow> store_io" where
  "next_sio s = (case st_io s of [] \<Rightarrow> SAppendDone SCompactDone | x # _ \<Rightarrow> x)"

definition appendLocked :: "op \<Rightarrow> store \<Rightarrow> store \<times> store_error option" where
  "appendLocked o' s =
     (if \<not> st_open s then (s, Some SErrIO)
      else let s' = s\<lparr>st_io := tl (st_io s)\<rparr>
           in case next_sio s of
                SWriteFails torn \<Rightarrow> (if torn then s'\<lparr>st_wal := swal_torn (st_wal s)\<rparr> else s', Some SErrIO)
              | SSyncFails \<Rightarrow> (s'\<lparr>st_wal := swal_add (st_wal s) o'\<rparr>, Some SErrIO)
              | SAppendDone c \<Rightarrow>
                  (let s'' = s'\<lparr>st_wal := swal_add (st_wal s) o', st_ops := st_ops s + 1\<rparr>
                   in if 2048 \<le> st_ops s'' then compactLocked c s'' else (s'', None)))"

definition mutate :: "op \<Rightarrow> store \<Rightarrow> store \<times> store_error option" where
  "mutate o' s =
     (case appendLocked o' s of (s', Some e) \<Rightarrow> (s', Some e) | (s', None) \<Rightarrow> apply_op o' s')"

subsection \<open>Operations\<close>

text \<open>The loop shared by the \<^verbatim>\<open>Update\<close> operations: the first entity with the ID, changed
  by the caller's function, is written back; without one the result is
  \<^verbatim>\<open>os.ErrNotExist\<close>.\<close>

definition update_entity ::
  "('v \<Rightarrow> string) \<Rightarrow> (state \<Rightarrow> 'v list) \<Rightarrow> ('v \<Rightarrow> op) \<Rightarrow> string \<Rightarrow> ('v \<Rightarrow> 'v) \<Rightarrow> store \<Rightarrow> store \<times> store_error option" where
  "update_entity key sel mk i f s =
     (case find (\<lambda>v. key v = i) (sel (st_state s)) of
        None \<Rightarrow> (s, Some SErrNotExist)
      | Some v \<Rightarrow> mutate (mk (f v)) s)"

definition delete_entity ::
  "('v \<Rightarrow> string) \<Rightarrow> (state \<Rightarrow> 'v list) \<Rightarrow> (string \<Rightarrow> op) \<Rightarrow> string \<Rightarrow> store \<Rightarrow> store \<times> store_error option" where
  "delete_entity key sel mk i s =
     (if list_ex (\<lambda>v. key v = i) (sel (st_state s)) then mutate (mk i) s else (s, Some SErrNotExist))"

definition AddSite :: "site \<Rightarrow> store \<Rightarrow> store \<times> store_error option" where
  "AddSite v = mutate (SiteAdd v)"

definition Site :: "string \<Rightarrow> store \<Rightarrow> site option" where
  "Site i s = find (\<lambda>v. site_ID v = i) (Sites (st_state s))"

definition UpdateSite :: "string \<Rightarrow> (site \<Rightarrow> site) \<Rightarrow> store \<Rightarrow> store \<times> store_error option" where
  "UpdateSite = update_entity site_ID Sites SiteSet"

definition AddDevice :: "device \<Rightarrow> store \<Rightarrow> store \<times> store_error option" where
  "AddDevice v = mutate (DeviceAdd v)"

definition Device :: "string \<Rightarrow> store \<Rightarrow> device option" where
  "Device i s = find (\<lambda>v. dev_ID v = i) (Devices (st_state s))"

definition Twin :: "string \<Rightarrow> store \<Rightarrow> twin option" where
  "Twin i s = find (\<lambda>v. tw_DeviceID v = i) (Twins (st_state s))"

definition TwinsForSite :: "string \<Rightarrow> store \<Rightarrow> twin list" where
  "TwinsForSite siteID s = filter (\<lambda>v. tw_SiteID v = siteID) (Twins (st_state s))"

definition SetTwin :: "twin \<Rightarrow> store \<Rightarrow> store \<times> store_error option" where
  "SetTwin v = mutate (TwinSet v)"

text \<open>\<^verbatim>\<open>UpdateTwin\<close> copies the twin but not its maps: what the caller's function writes
  into an existing map is in the store's state even when the append then fails.
  \<^verbatim>\<open>shared\<close> is that part of the function's effect.\<close>

definition UpdateTwin ::
  "string \<Rightarrow> (twin \<Rightarrow> twin) \<Rightarrow> (twin \<Rightarrow> twin) \<Rightarrow> store \<Rightarrow> store \<times> store_error option" where
  "UpdateTwin i f shared s =
     (let named = (\<lambda>v. if tw_DeviceID v = [] then v\<lparr>tw_DeviceID := i\<rparr> else v)
      in case Twin i s of
           Some v \<Rightarrow>
             mutate (TwinSet (named (f v)))
               (s\<lparr>st_state := (st_state s)\<lparr>Twins := replace_first (\<lambda>x. tw_DeviceID x = i) (shared v) (Twins (st_state s))\<rparr>\<rparr>)
         | None \<Rightarrow> mutate (TwinSet (named (f (zero_twin\<lparr>tw_DeviceID := i\<rparr>)))) s)"

definition AddRoute :: "route \<Rightarrow> store \<Rightarrow> store \<times> store_error option" where
  "AddRoute v = mutate (RouteAdd v)"

definition DeleteRoute :: "string \<Rightarrow> store \<Rightarrow> store \<times> store_error option" where
  "DeleteRoute = delete_entity rt_ID Routes RouteDel"

definition AddDeployment :: "deployment \<Rightarrow> store \<Rightarrow> store \<times> store_error option" where
  "AddDeployment v = mutate (DeploymentAdd v)"

definition Deployment :: "string \<Rightarrow> store \<Rightarrow> deployment option" where
  "Deployment i s = find (\<lambda>v. dp_ID v = i) (Deployments (st_state s))"

definition UpdateDeployment :: "string \<Rightarrow> (deployment \<Rightarrow> deployment) \<Rightarrow> store \<Rightarrow> store \<times> store_error option" where
  "UpdateDeployment = update_entity dp_ID Deployments DeploymentSet"

definition DeleteDeployment :: "string \<Rightarrow> store \<Rightarrow> store \<times> store_error option" where
  "DeleteDeployment = delete_entity dp_ID Deployments DeploymentDel"

definition AddPolicyPack :: "policy_pack \<Rightarrow> store \<Rightarrow> store \<times> store_error option" where
  "AddPolicyPack v = mutate (PolicyAdd v)"

definition PolicyPack :: "string \<Rightarrow> store \<Rightarrow> policy_pack option" where
  "PolicyPack i s = find (\<lambda>v. pk_ID v = i) (PolicyPacks (st_state s))"

definition UpdatePolicyPack :: "string \<Rightarrow> (policy_pack \<Rightarrow> policy_pack) \<Rightarrow> store \<Rightarrow> store \<times> store_error option" where
  "UpdatePolicyPack = update_entity pk_ID PolicyPacks PolicySet"

definition DeletePolicyPack :: "string \<Rightarrow> store \<Rightarrow> store \<times> store_error option" where
  "DeletePolicyPack = delete_entity pk_ID PolicyPacks PolicyDel"

definition AddOTACampaign :: "campaign \<Rightarrow> store \<Rightarrow> store \<times> store_error option" where
  "AddOTACampaign v = mutate (CampaignAdd v)"

definition OTACampaign :: "string \<Rightarrow> store \<Rightarrow> campaign option" where
  "OTACampaign i s = find (\<lambda>v. ca_ID v = i) (OTACampaigns (st_state s))"

definition UpdateOTACampaign :: "string \<Rightarrow> (campaign \<Rightarrow> campaign) \<Rightarrow> store \<Rightarrow> store \<times> store_error option" where
  "UpdateOTACampaign = update_entity ca_ID OTACampaigns CampaignSet"

definition AddOrg :: "org \<Rightarrow> store \<Rightarrow> store \<times> store_error option" where
  "AddOrg v = mutate (OrgAdd v)"

definition Org :: "string \<Rightarrow> store \<Rightarrow> org option" where
  "Org i s = find (\<lambda>v. org_ID v = i) (Orgs (st_state s))"

definition UpdateOrg :: "string \<Rightarrow> (org \<Rightarrow> org) \<Rightarrow> store \<Rightarrow> store \<times> store_error option" where
  "UpdateOrg = update_entity org_ID Orgs OrgSet"

definition DeleteOrg :: "string \<Rightarrow> store \<Rightarrow> store \<times> store_error option" where
  "DeleteOrg = delete_entity org_ID Orgs OrgDel"

definition AddAlert :: "alert \<Rightarrow> store \<Rightarrow> store \<times> store_error option" where
  "AddAlert v = mutate (AlertAdd v)"

definition ResolveAlert :: "string \<Rightarrow> store \<Rightarrow> store \<times> store_error option" where
  "ResolveAlert i = update_entity al_ID Alerts AlertSet i (\<lambda>v. v\<lparr>al_Resolved := True\<rparr>)"

definition AddEvent :: "event \<Rightarrow> store \<Rightarrow> store \<times> store_error option" where
  "AddEvent v s = (if ev_ID v \<in> st_seen s then (s, None) else mutate (EventAdd v) s)"

definition HasEvent :: "string \<Rightarrow> store \<Rightarrow> bool" where
  "HasEvent i s \<longleftrightarrow> i \<in> st_seen s"

definition EventsSince :: "time \<Rightarrow> store \<Rightarrow> event list" where
  "EventsSince t s =
     filter (\<lambda>e. t < (if ev_EventTime e = 0 then ev_CreatedAt e else ev_EventTime e)) (Events (st_state s))"

definition Close :: "store \<Rightarrow> store" where
  "Close s = s\<lparr>st_open := False\<rparr>"

subsection \<open>Invariant\<close>

text \<open>The set of seen IDs is the window \<^verbatim>\<open>SeenEvents\<close>, which has no duplicates; the stored
  events are the newest of the window; the three caps hold.\<close>

definition state_inv :: "state \<Rightarrow> string set \<Rightarrow> bool" where
  "state_inv st seen \<longleftrightarrow>
     seen = set (SeenEvents st) \<and> distinct (SeenEvents st) \<and> suffix (map ev_ID (Events st)) (SeenEvents st) \<and>
     length (SeenEvents st) \<le> 20000 \<and> length (Events st) \<le> 2000 \<and> length (Alerts st) \<le> 2000"

definition sinv :: "store \<Rightarrow> bool" where
  "sinv s \<longleftrightarrow> state_inv (st_state s) (st_seen s)"

text \<open>An operation the API can issue: only \<^verbatim>\<open>AddEvent\<close> issues an event, after the check.\<close>

definition op_ok :: "op \<Rightarrow> string set \<Rightarrow> bool" where
  "op_ok o' seen \<longleftrightarrow>
     (case o' of EventAdd v \<Rightarrow> ev_ID v \<notin> seen | UnknownOp _ \<Rightarrow> False | _ \<Rightarrow> True)"

subsection \<open>Lemmas: the invariant\<close>

lemma suffix_keep_last: "suffix (keep_last n xs) xs"
  by (simp add: keep_last_def suffix_drop)

lemma set_keep_last_distinct:
  "distinct xs \<Longrightarrow> set (keep_last n xs) = set xs - set (take (length xs - n) xs)"
proof -
  assume "distinct xs"
  then have "distinct (take (length xs - n) xs @ drop (length xs - n) xs)" by simp
  then have "set (take (length xs - n) xs) \<inter> set (drop (length xs - n) xs) = {}"
    unfolding distinct_append by blast
  moreover have "set xs = set (take (length xs - n) xs) \<union> set (drop (length xs - n) xs)"
    by (metis append_take_drop_id set_append)
  ultimately show ?thesis unfolding keep_last_def by blast
qed

lemma suffix_snoc_both: "suffix xs ys \<Longrightarrow> suffix (xs @ [x]) (ys @ [x])"
  by (auto simp: suffix_def)

lemma map_keep_last: "map f (keep_last n xs) = keep_last n (map f xs)"
  by (simp add: keep_last_def drop_map)

lemma event_window:
  assumes "suffix evs ids" "m \<le> n"
  shows "suffix (keep_last m (evs @ [x])) (keep_last n (ids @ [x]))"
proof (rule suffix_length_suffix)
  show "suffix (keep_last m (evs @ [x])) (ids @ [x])"
    using suffix_keep_last suffix_snoc_both[OF assms(1)] suffix_order.order_trans by blast
  show "suffix (keep_last n (ids @ [x])) (ids @ [x])" by (rule suffix_keep_last)
  have "length evs \<le> length ids" using assms(1) by (rule suffix_length_le)
  then show "length (keep_last m (evs @ [x])) \<le> length (keep_last n (ids @ [x]))" using assms(2) by auto
qed

lemma apply_state_event_inv:
  assumes "state_inv st seen" "ev_ID v \<notin> seen"
  shows "state_inv (apply_state (EventAdd v) st) (apply_seen (EventAdd v) st seen)"
proof -
  let ?ids = "SeenEvents st @ [ev_ID v]"
  have d: "distinct ?ids" using assms by (auto simp: state_inv_def)
  have "insert (ev_ID v) seen - set (take (length ?ids - 20000) ?ids) = set (keep_last 20000 ?ids)"
    using assms by (simp only: set_keep_last_distinct[OF d]) (auto simp: state_inv_def)
  moreover have "suffix (map ev_ID (keep_last 2000 (Events st @ [v]))) (keep_last 20000 ?ids)"
    using event_window[of "map ev_ID (Events st)" "SeenEvents st" 2000 20000 "ev_ID v"] assms
    by (simp add: map_keep_last state_inv_def)
  ultimately show ?thesis
    using assms distinct_keep_last[OF d, of 20000]
    by (simp add: state_inv_def apply_state_def apply_seen_def Let_def)
qed

lemma apply_state_inv:
  assumes "state_inv st seen" "op_ok o' seen"
  shows "state_inv (apply_state o' st) (apply_seen o' st seen)"
proof (cases o')
  case (EventAdd v)
  then show ?thesis using assms apply_state_event_inv[of st seen v] by (simp add: op_ok_def)
qed (use assms in \<open>simp_all add: state_inv_def apply_state_def apply_seen_def op_ok_def\<close>)

lemma append_state [simp]:
  "st_state (fst (appendLocked o' s)) = st_state s" "st_seen (fst (appendLocked o' s)) = st_seen s"
  by (auto simp: appendLocked_def compactLocked_def Let_def split: store_io.splits store_compact.splits)

lemma append_stateD:
  "appendLocked o' s = (s', x) \<Longrightarrow> st_state s' = st_state s \<and> st_seen s' = st_seen s"
  using append_state[of o' s] by simp

lemma apply_op_ok:
  "op_ok o' seen \<Longrightarrow>
   apply_op o' s = (s\<lparr>st_state := apply_state o' (st_state s), st_seen := apply_seen o' (st_state s) (st_seen s)\<rparr>, None)"
  by (cases o') (simp_all add: apply_op_def op_ok_def)

text \<open>A mutation either fails and leaves the state alone, or applies its operation.\<close>

lemma mutate_cases:
  assumes "op_ok o' (st_seen s)"
  obtains (fail) e where "snd (mutate o' s) = Some e" "st_state (fst (mutate o' s)) = st_state s"
      "st_seen (fst (mutate o' s)) = st_seen s"
  | (applied) "snd (mutate o' s) = None" "st_state (fst (mutate o' s)) = apply_state o' (st_state s)"
      "st_seen (fst (mutate o' s)) = apply_seen o' (st_state s) (st_seen s)"
proof -
  obtain s' x where a: "appendLocked o' s = (s', x)" by fastforce
  show thesis
  proof (cases x)
    case None
    then show ?thesis
      using that(2) a append_stateD[OF a] assms by (simp add: mutate_def apply_op_ok)
  next
    case (Some e)
    then show ?thesis using that(1) a append_stateD[OF a] by (simp add: mutate_def)
  qed
qed

lemma mutate_inv [nodra_inv]:
  assumes "sinv s" "op_ok o' (st_seen s)"
  shows "sinv (fst (mutate o' s))"
  using assms(1) apply_state_inv[OF _ assms(2)]
  by (cases rule: mutate_cases[OF assms(2)]) (simp_all add: sinv_def)

lemma update_entity_inv:
  assumes "sinv s" "\<And>v. op_ok (mk v) (st_seen s)"
  shows "sinv (fst (update_entity key sel mk i f s))"
  using assms by (auto simp: update_entity_def mutate_inv split: option.splits)

lemma delete_entity_inv:
  assumes "sinv s" "\<And>i. op_ok (mk i) (st_seen s)"
  shows "sinv (fst (delete_entity key sel mk i s))"
  using assms by (auto simp: delete_entity_def mutate_inv)

lemma UpdateTwin_inv:
  assumes "sinv s"
  shows "sinv (fst (UpdateTwin i f shared s))"
proof -
  have "sinv (s\<lparr>st_state := (st_state s)\<lparr>Twins := ts\<rparr>\<rparr>)" for ts
    using assms by (simp add: sinv_def state_inv_def)
  then show ?thesis
    using assms by (auto simp: UpdateTwin_def Let_def op_ok_def intro!: mutate_inv split: option.splits)
qed

lemma AddEvent_inv: "sinv s \<Longrightarrow> sinv (fst (AddEvent v s))"
  by (simp add: AddEvent_def mutate_inv op_ok_def)

text \<open>The calls of the \<^verbatim>\<open>Backend\<close> interface that change the store, from an empty one on.\<close>

inductive store_reach :: "store \<Rightarrow> bool" where
  init: "Open empty_state [] = Inr s \<Longrightarrow> store_reach (s\<lparr>st_io := io\<rparr>)"
| "store_reach s \<Longrightarrow> store_reach (fst (AddSite v s))"
| "store_reach s \<Longrightarrow> store_reach (fst (UpdateSite i f s))"
| "store_reach s \<Longrightarrow> store_reach (fst (AddDevice d s))"
| "store_reach s \<Longrightarrow> store_reach (fst (SetTwin t s))"
| "store_reach s \<Longrightarrow> store_reach (fst (UpdateTwin i ft shared s))"
| "store_reach s \<Longrightarrow> store_reach (fst (AddRoute r s))"
| "store_reach s \<Longrightarrow> store_reach (fst (DeleteRoute i s))"
| "store_reach s \<Longrightarrow> store_reach (fst (AddDeployment p s))"
| "store_reach s \<Longrightarrow> store_reach (fst (UpdateDeployment i fp s))"
| "store_reach s \<Longrightarrow> store_reach (fst (DeleteDeployment i s))"
| "store_reach s \<Longrightarrow> store_reach (fst (AddPolicyPack k s))"
| "store_reach s \<Longrightarrow> store_reach (fst (UpdatePolicyPack i fk s))"
| "store_reach s \<Longrightarrow> store_reach (fst (DeletePolicyPack i s))"
| "store_reach s \<Longrightarrow> store_reach (fst (AddOTACampaign c s))"
| "store_reach s \<Longrightarrow> store_reach (fst (UpdateOTACampaign i fc s))"
| "store_reach s \<Longrightarrow> store_reach (fst (AddOrg g s))"
| "store_reach s \<Longrightarrow> store_reach (fst (UpdateOrg i fg s))"
| "store_reach s \<Longrightarrow> store_reach (fst (DeleteOrg i s))"
| "store_reach s \<Longrightarrow> store_reach (fst (AddAlert a s))"
| "store_reach s \<Longrightarrow> store_reach (fst (ResolveAlert i s))"
| "store_reach s \<Longrightarrow> store_reach (fst (AddEvent e s))"

lemmas store_calls =
  AddSite_def UpdateSite_def AddDevice_def SetTwin_def AddRoute_def DeleteRoute_def AddDeployment_def
  UpdateDeployment_def DeleteDeployment_def AddPolicyPack_def UpdatePolicyPack_def DeletePolicyPack_def
  AddOTACampaign_def UpdateOTACampaign_def AddOrg_def UpdateOrg_def DeleteOrg_def AddAlert_def ResolveAlert_def

lemma store_reach_inv: "store_reach s \<Longrightarrow> sinv s"
proof (induction rule: store_reach.induct)
  case (init s io)
  then show ?case by (auto simp: Open_def sinv_def state_inv_def empty_state_def)
qed (simp_all add: store_calls mutate_inv update_entity_inv delete_entity_inv UpdateTwin_inv AddEvent_inv op_ok_def)

subsection \<open>Lemmas: the log\<close>

definition shealthy :: "store \<Rightarrow> bool" where
  "shealthy s \<longleftrightarrow> st_open s \<and> st_io s = []"

text \<open>Replaying the log over the snapshot gives the state in memory.\<close>

definition store_sync :: "store \<Rightarrow> bool" where
  "store_sync s \<longleftrightarrow>
     (\<exists>s0. Open (st_snapshot s) (st_wal s) = Inr s0 \<and> st_state s0 = st_state s \<and> st_seen s0 = st_seen s)"

lemma replay_ops_append:
  "replay_ops (xs @ ys) s = (case replay_ops xs s of Inl e \<Rightarrow> Inl e | Inr s' \<Rightarrow> replay_ops ys s')"
  by (induction xs s rule: replay_ops.induct) (auto split: prod.splits option.splits)

lemma apply_op_frame:
  "apply_op o' (s\<lparr>st_wal := w\<rparr>) = map_prod (\<lambda>s. s\<lparr>st_wal := w\<rparr>) id (apply_op o' s)"
  by (cases o') (simp_all add: apply_op_def)

lemma replay_ops_wal: "replay_ops ls (s\<lparr>st_wal := w\<rparr>) = map_sum id (\<lambda>s. s\<lparr>st_wal := w\<rparr>) (replay_ops ls s)"
  by (induction ls s rule: replay_ops.induct) (auto simp: apply_op_frame split: prod.splits option.splits)

lemma replay_ops_no_garbage: "replay_ops ls s = Inr s' \<Longrightarrow> l \<in> set ls \<Longrightarrow> \<exists>o'. l = SRec o'"
  by (induction ls s rule: replay_ops.induct) (auto split: prod.splits option.splits)

lemma Open_snoc:
  assumes "Open snap w = Inr s0" "op_ok o' seen"
  shows "\<exists>s1. Open snap (swal_add w o') = Inr s1 \<and> st_state s1 = apply_state o' (st_state s0) \<and>
    st_seen s1 = apply_seen o' (st_state s0) (st_seen s0)"
proof -
  let ?init = "\<lambda>w. \<lparr>st_state = snap, st_seen = set (SeenEvents snap), st_ops = 0,
       st_snapshot = snap, st_wal = w, st_open = True, st_io = []\<rparr>"
  have r: "replay_ops w (?init w) = Inr s0" using assms(1) by (simp add: Open_def)
  have "last w \<noteq> SPartial" if "w \<noteq> []"
    using replay_ops_no_garbage[OF r, of "last w"] that by auto
  then have w: "swal_add w o' = w @ [SRec o']" by (auto simp: swal_add_def)
  have "?init (w @ [SRec o']) = (?init w)\<lparr>st_wal := w @ [SRec o']\<rparr>" by simp
  then have "replay_ops w (?init (w @ [SRec o'])) = Inr (s0\<lparr>st_wal := w @ [SRec o']\<rparr>)"
    using replay_ops_wal[of w "w @ [SRec o']" "?init w"] r by simp
  then show ?thesis
    using apply_op_ok[OF assms(2)] by (simp add: w Open_def replay_ops_append)
qed

lemma mutate_sync:
  assumes "store_sync s" "shealthy s" "st_ops s < 2047" "op_ok o' (st_seen s)"
  shows "store_sync (fst (mutate o' s)) \<and> shealthy (fst (mutate o' s)) \<and> st_ops (fst (mutate o' s)) = Suc (st_ops s) \<and>
    snd (mutate o' s) = None"
proof -
  obtain s0 where s0: "Open (st_snapshot s) (st_wal s) = Inr s0" "st_state s0 = st_state s" "st_seen s0 = st_seen s"
    using assms(1) by (auto simp: store_sync_def)
  have a: "appendLocked o' s = (s\<lparr>st_io := [], st_wal := swal_add (st_wal s) o', st_ops := Suc (st_ops s)\<rparr>, None)"
    using assms(2,3) by (simp add: appendLocked_def shealthy_def next_sio_def Let_def)
  show ?thesis
    using Open_snoc[OF s0(1) assms(4)] s0(2,3) a assms(2) apply_op_ok[OF assms(4)]
    by (auto simp: mutate_def store_sync_def shealthy_def)
qed

lemma mutate_compacts:
  assumes "sinv s" "shealthy s" "st_ops s = 2047" "op_ok o' (st_seen s)"
  shows "snd (mutate o' s) = None \<and> st_state (fst (mutate o' s)) = apply_state o' (st_state s) \<and>
    (\<exists>s0. Open (st_snapshot (fst (mutate o' s))) (st_wal (fst (mutate o' s))) = Inr s0 \<and>
          st_state s0 = st_state s \<and> st_seen s0 = st_seen s)"
proof -
  have "appendLocked o' s =
      (s\<lparr>st_io := [], st_wal := [], st_ops := 0, st_snapshot := st_state s\<rparr>, None)"
    using assms(2,3) by (simp add: appendLocked_def shealthy_def next_sio_def Let_def compactLocked_def)
  then show ?thesis
    using apply_op_ok[OF assms(4)] assms(1) by (simp add: mutate_def Open_def sinv_def state_inv_def)
qed

fun mutates :: "op list \<Rightarrow> store \<Rightarrow> store" where
  "mutates [] s = s"
| "mutates (o' # os) s = mutates os (fst (mutate o' s))"

fun ops_ok :: "op list \<Rightarrow> store \<Rightarrow> bool" where
  "ops_ok [] s = True"
| "ops_ok (o' # os) s = (op_ok o' (st_seen s) \<and> ops_ok os (fst (mutate o' s)))"

lemma mutates_sync:
  "store_sync s \<Longrightarrow> shealthy s \<Longrightarrow> st_ops s + length os < 2048 \<Longrightarrow> ops_ok os s \<Longrightarrow> store_sync (mutates os s)"
proof (induction os arbitrary: s)
  case (Cons o' os)
  then show ?case using mutate_sync[of s o'] by auto
qed simp

subsection \<open>The contract\<close>

text \<open>What the handlers rely on for each kind of entity of the \<^verbatim>\<open>Backend\<close>: an update that
  succeeds is what the next lookup returns, an update that fails changes no lookup, and no
  update touches another ID.\<close>

locale entity_store =
  fixes get :: "string \<Rightarrow> store \<Rightarrow> 'v option"
    and upd :: "string \<Rightarrow> ('v \<Rightarrow> 'v) \<Rightarrow> store \<Rightarrow> store \<times> store_error option"
    and key :: "'v \<Rightarrow> string"
  assumes get_key: "get i s = Some v \<Longrightarrow> key v = i"
    and upd_missing: "get i s = None \<Longrightarrow> upd i f s = (s, Some SErrNotExist)"
    and get_upd: "get i s = Some v \<Longrightarrow> key (f v) = i \<Longrightarrow>
      get j (fst (upd i f s)) = (if j = i \<and> snd (upd i f s) = None then Some (f v) else get j s)"
begin

lemma upd_other: "(\<And>v. key v = i \<Longrightarrow> key (f v) = i) \<Longrightarrow> j \<noteq> i \<Longrightarrow> get j (fst (upd i f s)) = get j s"
  by (cases "get i s") (auto simp: upd_missing get_upd get_key)

lemma upd_lookup:
  assumes "\<And>v. key (f v) = key v"
  shows "get j (fst (upd i f s)) = (if j = i \<and> snd (upd i f s) = None then map_option f (get i s) else get j s)"
proof (cases "get i s")
  case None
  then show ?thesis by (simp add: upd_missing)
next
  case (Some v)
  then show ?thesis using get_upd[OF Some, of f j] get_key[OF Some] assms by simp
qed

lemma upd_ok_found: "snd (upd i f s) = None \<Longrightarrow> \<exists>v. get i s = Some v"
  by (cases "get i s") (auto simp: upd_missing)

lemma upd_error: "(\<And>v. key v = i \<Longrightarrow> key (f v) = i) \<Longrightarrow> snd (upd i f s) = Some e \<Longrightarrow> get j (fst (upd i f s)) = get j s"
  by (cases "get i s") (auto simp: upd_missing get_upd get_key)

lemma upd_twice:
  assumes "get i s = Some v" "\<And>v. key v = i \<Longrightarrow> key (f v) = i" "\<And>v. key v = i \<Longrightarrow> key (g v) = i"
    and "snd (upd i f s) = None" "snd (upd i g (fst (upd i f s))) = None"
  shows "get i (fst (upd i g (fst (upd i f s)))) = Some (g (f v))"
proof -
  have "get i (fst (upd i f s)) = Some (f v)" using assms(1,2,4) by (simp add: get_upd get_key)
  then show ?thesis using assms(3,5) get_upd[of i "fst (upd i f s)" "f v" g i] get_key by simp
qed

end

lemma find_keyD: "find (\<lambda>v. key v = i) xs = Some v \<Longrightarrow> key v = i"
  by (auto simp: find_Some_iff)

lemma find_exists: "find (\<lambda>v. key v = i) xs = Some v \<Longrightarrow> \<exists>x \<in> set xs. key x = i"
  by (induction xs) (auto split: if_splits)

lemma find_replace:
  assumes "find (\<lambda>v. key v = i) xs = Some v" "key y = i"
  shows "find (\<lambda>v. key v = j) (replace_first (\<lambda>x. key x = i) y xs) =
    (if j = i then Some y else find (\<lambda>v. key v = j) xs)"
  using find_replace_first_same[of key y i xs] find_replace_first_other[of key y i j xs] find_exists[OF assms(1)] assms(2)
  by auto

lemma get_update_entity:
  assumes ok: "\<And>v seen. op_ok (mk v) seen"
    and ap: "\<And>v st. key v = i \<Longrightarrow> sel (apply_state (mk v) st) \<in>
        {replace_first (\<lambda>x. key x = i) v (sel st), upsert (\<lambda>x. key x = i) v (sel st)}"
    and g: "find (\<lambda>v. key v = i) (sel (st_state s)) = Some v" and k: "key (f v) = i"
  shows "find (\<lambda>v. key v = j) (sel (st_state (fst (update_entity key sel mk i f s)))) =
    (if j = i \<and> snd (update_entity key sel mk i f s) = None then Some (f v)
     else find (\<lambda>v. key v = j) (sel (st_state s)))"
proof -
  have u: "update_entity key sel mk i f s = mutate (mk (f v)) s" using g by (simp add: update_entity_def)
  have "upsert (\<lambda>x. key x = i) (f v) (sel (st_state s)) = replace_first (\<lambda>x. key x = i) (f v) (sel (st_state s))"
    using find_exists[OF g] by (auto simp: upsert_def)
  then have "sel (apply_state (mk (f v)) (st_state s)) = replace_first (\<lambda>x. key x = i) (f v) (sel (st_state s))"
    using ap[OF k, of "st_state s"] by auto
  then show ?thesis
    using find_replace[where key = key, OF g k, of j]
    by (cases rule: mutate_cases[of "mk (f v)" s, OF ok]) (simp_all add: u)
qed

interpretation sites: entity_store Site UpdateSite site_ID
proof (standard, goal_cases)
  case (3 i s v f j)
  then show ?case unfolding Site_def UpdateSite_def
    using get_update_entity[where key = site_ID and sel = Sites and mk = SiteSet and i = i]
    by (simp add: op_ok_def apply_state_def)
qed (auto simp: Site_def UpdateSite_def update_entity_def dest: find_keyD)

interpretation deployments: entity_store Deployment UpdateDeployment dp_ID
proof (standard, goal_cases)
  case (3 i s v f j)
  then show ?case unfolding Deployment_def UpdateDeployment_def
    using get_update_entity[where key = dp_ID and sel = Deployments and mk = DeploymentSet and i = i]
    by (simp add: op_ok_def apply_state_def)
qed (auto simp: Deployment_def UpdateDeployment_def update_entity_def dest: find_keyD)

interpretation packs: entity_store PolicyPack UpdatePolicyPack pk_ID
proof (standard, goal_cases)
  case (3 i s v f j)
  then show ?case unfolding PolicyPack_def UpdatePolicyPack_def
    using get_update_entity[where key = pk_ID and sel = PolicyPacks and mk = PolicySet and i = i]
    by (simp add: op_ok_def apply_state_def)
qed (auto simp: PolicyPack_def UpdatePolicyPack_def update_entity_def dest: find_keyD)

interpretation campaigns: entity_store OTACampaign UpdateOTACampaign ca_ID
proof (standard, goal_cases)
  case (3 i s v f j)
  then show ?case unfolding OTACampaign_def UpdateOTACampaign_def
    using get_update_entity[where key = ca_ID and sel = OTACampaigns and mk = CampaignSet and i = i]
    by (simp add: op_ok_def apply_state_def)
qed (auto simp: OTACampaign_def UpdateOTACampaign_def update_entity_def dest: find_keyD)

interpretation orgs: entity_store Org UpdateOrg org_ID
proof (standard, goal_cases)
  case (3 i s v f j)
  then show ?case unfolding Org_def UpdateOrg_def
    using get_update_entity[where key = org_ID and sel = Orgs and mk = OrgSet and i = i]
    by (simp add: op_ok_def apply_state_def)
qed (auto simp: Org_def UpdateOrg_def update_entity_def dest: find_keyD)

lemma Twin_SetTwin:
  "Twin j (fst (mutate (TwinSet v) s)) =
     (if j = tw_DeviceID v \<and> snd (mutate (TwinSet v) s) = None then Some v else Twin j s)"
proof -
  have "op_ok (TwinSet v) (st_seen s)" by (simp add: op_ok_def)
  then show ?thesis
    by (cases rule: mutate_cases)
      (auto simp: Twin_def apply_state_def find_upsert_same find_upsert_other)
qed

lemma Device_AddDevice:
  "Device j (fst (AddDevice v s)) = (if j = dev_ID v \<and> snd (AddDevice v s) = None then Some v else Device j s)"
proof -
  have "op_ok (DeviceAdd v) (st_seen s)" by (simp add: op_ok_def)
  then show ?thesis unfolding AddDevice_def
    by (cases rule: mutate_cases)
      (auto simp: Device_def apply_state_def find_upsert_same find_upsert_other)
qed

definition Snapshot :: "store \<Rightarrow> state" where
  "Snapshot s = st_state s"

subsection \<open>Lemmas: events\<close>

text \<open>A list of new events is ingested one after the other.\<close>

fun add_events :: "event list \<Rightarrow> store \<Rightarrow> store" where
  "add_events [] s = s"
| "add_events (v # vs) s = add_events vs (fst (AddEvent v s))"

text \<open>An ID followed by \<^verbatim>\<open>n\<close> others in the window survives as long as the window is not full.\<close>

definition recent :: "string \<Rightarrow> nat \<Rightarrow> store \<Rightarrow> bool" where
  "recent i n s \<longleftrightarrow> (\<exists>xs ys. SeenEvents (st_state s) = xs @ i # ys \<and> length ys \<le> n)"

lemma recent_window:
  assumes "SeenEvents st = xs @ i # ys" "Suc (length ys) < 20000"
  shows "\<exists>xs'. keep_last 20000 (SeenEvents st @ [j]) = xs' @ i # (ys @ [j])"
proof -
  have "keep_last 20000 (SeenEvents st @ [j]) = drop (length xs + length ys + 2 - 20000) xs @ i # ys @ [j]"
    using assms by (simp add: keep_last_def)
  then show ?thesis by blast
qed

lemma recentI: "SeenEvents (st_state s) = xs @ i # ys \<Longrightarrow> length ys \<le> n \<Longrightarrow> recent i n s"
  unfolding recent_def by blast

lemma recent_AddEvent:
  assumes "recent i n s" "Suc n < 20000"
  shows "recent i (Suc n) (fst (AddEvent v s))"
proof -
  obtain xs ys where w: "SeenEvents (st_state s) = xs @ i # ys" "length ys \<le> n"
    using assms(1) unfolding recent_def by blast
  have same: "recent i (Suc n) s'" if "st_state s' = st_state s" for s'
    using that w by (intro recentI[where xs = xs and ys = ys]) simp_all
  show ?thesis
  proof (cases "ev_ID v \<in> st_seen s")
    case True
    then show ?thesis using same[of s] by (simp add: AddEvent_def)
  next
    case False
    then have a: "fst (AddEvent v s) = fst (mutate (EventAdd v) s)" by (simp add: AddEvent_def)
    have "op_ok (EventAdd v) (st_seen s)" using False by (simp add: op_ok_def)
    then show ?thesis
    proof (cases rule: mutate_cases)
      case (fail e)
      then show ?thesis using same a by simp
    next
      case applied
      have "Suc (length ys) < 20000" using w assms(2) by simp
      from recent_window[OF w(1) this, of "ev_ID v"] obtain xs' where
        "keep_last 20000 (SeenEvents (st_state s) @ [ev_ID v]) = xs' @ i # (ys @ [ev_ID v])" by blast
      then have "SeenEvents (st_state (fst (mutate (EventAdd v) s))) = xs' @ i # (ys @ [ev_ID v])"
        using applied(2) by (simp add: apply_state_def)
      then show ?thesis using w(2) a by (intro recentI[where xs = xs' and ys = "ys @ [ev_ID v]"]) simp_all
    qed
  qed
qed

lemma recent_add_events:
  "recent i n s \<Longrightarrow> n + length vs < 20000 \<Longrightarrow> recent i (n + length vs) (add_events vs s)"
proof (induction vs arbitrary: s n)
  case (Cons v vs)
  have "recent i (Suc n) (fst (AddEvent v s))" using Cons.prems by (intro recent_AddEvent) simp_all
  from Cons.IH[OF this] show ?case using Cons.prems(2) by simp
qed simp

lemma add_events_inv: "sinv s \<Longrightarrow> sinv (add_events vs s)"
  by (induction vs arbitrary: s) (simp_all add: AddEvent_inv)

lemma recent_HasEvent: "sinv s \<Longrightarrow> recent i n s \<Longrightarrow> HasEvent i s"
  unfolding HasEvent_def sinv_def state_inv_def recent_def by (elim exE conjE) simp

lemma AddEvent_recent:
  assumes "ev_ID v \<notin> st_seen s" "snd (AddEvent v s) = None"
  shows "recent (ev_ID v) 0 (fst (AddEvent v s)) \<and>
    Events (st_state (fst (AddEvent v s))) = keep_last 2000 (Events (st_state s) @ [v])"
proof -
  have ok: "op_ok (EventAdd v) (st_seen s)" using assms(1) by (simp add: op_ok_def)
  then have a: "st_state (fst (mutate (EventAdd v) s)) = apply_state (EventAdd v) (st_state s)"
    using assms by (cases rule: mutate_cases) (simp_all add: AddEvent_def)
  have "keep_last 20000 (SeenEvents (st_state s) @ [ev_ID v]) =
      drop (Suc (length (SeenEvents (st_state s))) - 20000) (SeenEvents (st_state s)) @ ev_ID v # []"
    by (simp add: keep_last_def)
  then have "recent (ev_ID v) 0 (fst (mutate (EventAdd v) s))"
    using a by (intro recentI[where ys = "[]"]) (simp_all add: apply_state_def)
  then show ?thesis using a assms(1) by (simp add: AddEvent_def apply_state_def)
qed

subsection \<open>Lemmas: an interrupted compaction\<close>

fun site_added :: "store_line \<Rightarrow> bool" where
  "site_added (SRec (SiteAdd v)) = True"
| "site_added _ = False"

lemma length_upsert_le: "length xs \<le> length (upsert p y xs)"
  by (simp add: upsert_def)

lemma apply_op_sites:
  assumes "apply_op o' s = (s', None)"
  shows "length (Sites (st_state s)) + (if site_added (SRec o') then 1 else 0) \<le> length (Sites (st_state s'))"
  using assms by (cases o') (auto simp: apply_op_def apply_state_def length_upsert_le)

lemma replay_ops_sites:
  "replay_ops ls s = Inr s' \<Longrightarrow> length (Sites (st_state s)) + length (filter site_added ls) \<le> length (Sites (st_state s'))"
proof (induction ls s rule: replay_ops.induct)
  case (2 o' ls s)
  obtain s1 where a: "apply_op o' s = (s1, None)" and r: "replay_ops ls s1 = Inr s'"
    using 2(2) by (auto split: prod.splits option.splits)
  show ?case using 2(1)[OF a[symmetric] refl r] apply_op_sites[OF a] by (auto split: if_splits)
qed auto

definition demo_site :: site where
  "demo_site = zero_site\<lparr>site_ID := ''s1''\<rparr>"

definition demo_store :: store where
  "demo_store = \<lparr>st_state = empty_state, st_seen = {}, st_ops = 0, st_snapshot = empty_state, st_wal = [],
     st_open = True, st_io = []\<rparr>"

text \<open>A store one operation short of the compaction threshold.\<close>

definition full_store :: store where
  "full_store = demo_store\<lparr>st_ops := 2047\<rparr>"

lemma demo_store_reach: "store_reach demo_store"
proof -
  have "Open empty_state [] = Inr demo_store" by (simp add: Open_def demo_store_def empty_state_def)
  from store_reach.init[OF this, of "[]"] show ?thesis by (simp add: demo_store_def)
qed

lemma demo_store_sync: "store_sync demo_store" "shealthy demo_store"
  by (simp_all add: store_sync_def Open_def demo_store_def empty_state_def shealthy_def)

subsection \<open>Properties\<close>

text \<open>C22: the invariant of the store.  After any sequence of calls, under every outcome of
  the file system, the set of seen event IDs is exactly the window of the last 20000, no
  ID is in the window twice, the stored events are the newest of the window, and the
  events, the alerts and the window stay within their caps.\<close>

theorem store_window:
  assumes "store_reach s"
  shows "st_seen s = set (SeenEvents (st_state s)) \<and> distinct (SeenEvents (st_state s)) \<and>
    suffix (map ev_ID (Events (st_state s))) (SeenEvents (st_state s)) \<and>
    length (SeenEvents (st_state s)) \<le> 20000 \<and> length (Events (st_state s)) \<le> 2000 \<and>
    length (Alerts (st_state s)) \<le> 2000"
  using store_reach_inv[OF assms] unfolding sinv_def state_inv_def .

theorem store_window_witness:
  "length (SeenEvents (st_state (fst (AddEvent zero_event demo_store)))) \<le> 20000 \<and>
   distinct (SeenEvents (st_state (fst (AddEvent zero_event demo_store))))"
  using store_window[OF store_reach.intros(22)[OF demo_store_reach, of zero_event]] by blast

text \<open>C23: an event is stored once.  Adding an event whose ID is new appends it to the
  stored events; adding it again, with up to 19998 other events in between, reports
  success and changes nothing.\<close>

theorem store_event_once:
  assumes "store_reach s" and "ev_ID v \<notin> st_seen s" and "snd (AddEvent v s) = None"
    and "length vs < 19999" and "ev_ID w = ev_ID v"
  shows "Events (st_state (fst (AddEvent v s))) = keep_last 2000 (Events (st_state s) @ [v]) \<and>
    AddEvent w (add_events vs (fst (AddEvent v s))) = (add_events vs (fst (AddEvent v s)), None)"
proof -
  let ?s = "fst (AddEvent v s)"
  have inv: "sinv (add_events vs ?s)" using store_reach_inv[OF assms(1)] by (simp add: add_events_inv AddEvent_inv)
  have r: "recent (ev_ID v) 0 ?s" using AddEvent_recent[OF assms(2,3)] by simp
  have "recent (ev_ID v) (length vs) (add_events vs ?s)" using recent_add_events[OF r, of vs] assms(4) by simp
  then have "HasEvent (ev_ID v) (add_events vs ?s)" by (rule recent_HasEvent[OF inv])
  then show ?thesis using AddEvent_recent[OF assms(2,3)] assms(5) by (simp add: AddEvent_def HasEvent_def)
qed

theorem store_event_once_witness:
  "AddEvent (zero_event\<lparr>ev_ID := ''e''\<rparr>) (fst (AddEvent (zero_event\<lparr>ev_ID := ''e''\<rparr>) demo_store)) =
     (fst (AddEvent (zero_event\<lparr>ev_ID := ''e''\<rparr>) demo_store), None)"
proof -
  have "snd (AddEvent (zero_event\<lparr>ev_ID := ''e''\<rparr>) demo_store) = None"
    by (simp add: AddEvent_def demo_store_def mutate_def appendLocked_def next_sio_def apply_op_def Let_def)
  moreover have "ev_ID (zero_event\<lparr>ev_ID := ''e''\<rparr>) \<notin> st_seen demo_store" by (simp add: demo_store_def)
  ultimately show ?thesis
    using store_event_once[OF demo_store_reach, of "zero_event\<lparr>ev_ID := ''e''\<rparr>" "[]" "zero_event\<lparr>ev_ID := ''e''\<rparr>"] by simp
qed



text \<open>C25: the operation that reaches the compaction threshold is lost.  The snapshot is taken
  before the operation is applied and the log that holds it is truncated, so a restart
  brings back the state of before the operation, although the caller was told it
  succeeded.\<close>

theorem store_compaction_loses:
  assumes "sinv s" and "shealthy s" and "st_ops s = 2047" and "op_ok o' (st_seen s)"
  shows "snd (mutate o' s) = None \<and> Snapshot (fst (mutate o' s)) = apply_state o' (Snapshot s) \<and>
    (\<exists>s0. Open (st_snapshot (fst (mutate o' s))) (st_wal (fst (mutate o' s))) = Inr s0 \<and>
          Snapshot s0 = Snapshot s)"
  using mutate_compacts[OF assms] by (auto simp: Snapshot_def)

theorem store_compaction_loses_witness:
  "Sites (Snapshot (fst (mutate (SiteAdd demo_site) full_store))) = [demo_site] \<and>
   (\<exists>s0. Open (st_snapshot (fst (mutate (SiteAdd demo_site) full_store)))
        (st_wal (fst (mutate (SiteAdd demo_site) full_store))) = Inr s0 \<and> Sites (Snapshot s0) = [])"
proof -
  have "sinv full_store" "shealthy full_store" "st_ops full_store = 2047" "op_ok (SiteAdd demo_site) (st_seen full_store)"
    using store_reach_inv[OF demo_store_reach] demo_store_sync(2)
    by (simp_all add: full_store_def sinv_def shealthy_def op_ok_def)
  moreover have "Sites (Snapshot full_store) = []"
    by (simp add: Snapshot_def full_store_def demo_store_def empty_state_def)
  ultimately show ?thesis using store_compaction_loses[of full_store "SiteAdd demo_site"] by (auto simp: apply_state_def)
qed


text \<open>A store that logged one new site and is about to compact, with a failing truncation.\<close>

definition torn_store :: store where
  "torn_store = full_store\<lparr>st_state := empty_state\<lparr>Sites := [demo_site]\<rparr>, st_wal := [SRec (SiteAdd demo_site)],
     st_io := [SAppendDone TruncateFails]\<rparr>"


text \<open>C24: reads see writes, for every kind of entity with an update operation.  An update
  that reports success is what the next lookup of that ID returns, a failed one changes no
  lookup, and no update changes what another ID returns.\<close>

theorem store_read_your_writes:
  assumes "\<And>v. site_ID (fs v) = site_ID v" and "\<And>v. dp_ID (fd v) = dp_ID v" and "\<And>v. pk_ID (fp v) = pk_ID v"
    and "\<And>v. ca_ID (fc v) = ca_ID v" and "\<And>v. org_ID (fo v) = org_ID v"
  shows "Site j (fst (UpdateSite i fs s)) = (if j = i \<and> snd (UpdateSite i fs s) = None then map_option fs (Site i s) else Site j s) \<and>
    Deployment j (fst (UpdateDeployment i fd s)) =
      (if j = i \<and> snd (UpdateDeployment i fd s) = None then map_option fd (Deployment i s) else Deployment j s) \<and>
    PolicyPack j (fst (UpdatePolicyPack i fp s)) =
      (if j = i \<and> snd (UpdatePolicyPack i fp s) = None then map_option fp (PolicyPack i s) else PolicyPack j s) \<and>
    OTACampaign j (fst (UpdateOTACampaign i fc s)) =
      (if j = i \<and> snd (UpdateOTACampaign i fc s) = None then map_option fc (OTACampaign i s) else OTACampaign j s) \<and>
    Org j (fst (UpdateOrg i fo s)) = (if j = i \<and> snd (UpdateOrg i fo s) = None then map_option fo (Org i s) else Org j s)"
  by (intro conjI sites.upd_lookup deployments.upd_lookup packs.upd_lookup campaigns.upd_lookup orgs.upd_lookup assms)

theorem store_read_your_writes_witness:
  "Site ''s1'' (fst (UpdateSite ''s1'' (\<lambda>v. v\<lparr>site_Status := ''revoked''\<rparr>) (demo_store\<lparr>st_state := empty_state\<lparr>Sites := [demo_site]\<rparr>\<rparr>))) =
     Some (demo_site\<lparr>site_Status := ''revoked''\<rparr>)"
proof -
  let ?s = "demo_store\<lparr>st_state := empty_state\<lparr>Sites := [demo_site]\<rparr>\<rparr>" and ?f = "\<lambda>v :: site. v\<lparr>site_Status := ''revoked''\<rparr>"
  have l: "Site ''s1'' ?s = Some demo_site" by (simp add: Site_def demo_site_def)
  have "snd (UpdateSite ''s1'' ?f ?s) = None"
    by (simp add: UpdateSite_def update_entity_def demo_site_def demo_store_def mutate_def appendLocked_def
        next_sio_def Let_def apply_op_def)
  then show ?thesis
    using store_read_your_writes[of ?f "\<lambda>v. v" "\<lambda>v. v" "\<lambda>v. v" "\<lambda>v. v" "''s1''" "''s1''" ?s] l by simp
qed

end
