(* ===== verification/Auth.thy ===== *)
theory Auth
  imports Go_Strings
begin

text \<open>
  Tokens and their digests, \<^verbatim>\<open>internal/auth/auth.go\<close>.  SHA-256 is a parameter \<^verbatim>\<open>sha\<close>;
  what is used of it is that a digest has 32 bytes and, where a theorem says so, that no
  two of the tokens in play collide.  The random bytes of \<^verbatim>\<open>crypto/rand\<close> are an
  argument, None when the source of randomness fails.
\<close>

subsection \<open>Hexadecimal\<close>

definition hex_digit :: "nat \<Rightarrow> char" where
  "hex_digit n = ''0123456789abcdef'' ! n"

definition hex_value :: "char \<Rightarrow> nat option" where
  "hex_value c =
     (let n = of_char c :: nat
      in if 48 \<le> n \<and> n \<le> 57 then Some (n - 48)
         else if 97 \<le> n \<and> n \<le> 102 then Some (n - 87)
         else if 65 \<le> n \<and> n \<le> 70 then Some (n - 55)
         else None)"

fun hex_encode :: "string \<Rightarrow> string" where
  "hex_encode [] = []"
| "hex_encode (c # cs) = hex_digit (of_char c div 16) # hex_digit (of_char c mod 16) # hex_encode cs"

fun hex_decode :: "string \<Rightarrow> string option" where
  "hex_decode [] = Some []"
| "hex_decode [c] = None"
| "hex_decode (c # d # cs) =
     (case (hex_value c, hex_value d, hex_decode cs) of
        (Some a, Some b, Some r) \<Rightarrow> Some (char_of (16 * a + b) # r)
      | _ \<Rightarrow> None)"

subsection \<open>Tokens\<close>

definition NewToken :: "string option \<Rightarrow> string option" where
  "NewToken rnd = map_option hex_encode rnd"

definition Hash :: "(string \<Rightarrow> string) \<Rightarrow> string \<Rightarrow> string" where
  "Hash sha token = hex_encode (sha token)"

definition EqualHash :: "(string \<Rightarrow> string) \<Rightarrow> string \<Rightarrow> string \<Rightarrow> bool" where
  "EqualHash sha hash token =
     (case hex_decode hash of
        None \<Rightarrow> False
      | Some a \<Rightarrow> length a = length (sha token) \<and> a = sha token)"

definition EqualToken :: "(string \<Rightarrow> string) \<Rightarrow> string \<Rightarrow> string \<Rightarrow> bool" where
  "EqualToken sha a b \<longleftrightarrow> sha a = sha b"

subsection \<open>Lemmas\<close>

lemma hex_value_digit: "n < 16 \<Longrightarrow> hex_value (hex_digit n) = Some n"
proof -
  assume "n < 16"
  then have "n \<in> set [0 ..< 16]" by simp
  moreover have "list_all (\<lambda>n. hex_value (hex_digit n) = Some n) [0 ..< 16]" by code_simp
  ultimately show ?thesis by (auto simp: list_all_iff)
qed

lemma hex_roundtrip [simp]: "hex_decode (hex_encode s) = Some s"
proof (induction s)
  case (Cons c s)
  have b: "(of_char c :: nat) < 256" by simp
  have "16 * (of_char c div 16) + of_char c mod 16 = (of_char c :: nat)" by simp
  then have "char_of (16 * (of_char c div 16) + of_char c mod 16 :: nat) = c" by simp
  then show ?case using Cons b by (simp add: hex_value_digit less_mult_imp_div_less)
qed simp

lemma hex_encode_inj [simp]: "hex_encode a = hex_encode b \<longleftrightarrow> a = b"
  by (metis hex_roundtrip option.inject)

lemma EqualHash_Hash [simp]: "EqualHash sha (Hash sha t) u \<longleftrightarrow> sha t = sha u"
  by (auto simp: EqualHash_def Hash_def)

lemma EqualHash_hex [simp]: "EqualHash sha (hex_encode d) u \<longleftrightarrow> d = sha u"
  by (auto simp: EqualHash_def)

lemma EqualHash_empty: "length (sha u) = 32 \<Longrightarrow> \<not> EqualHash sha [] u"
  by (auto simp: EqualHash_def)

end
