(* ===== verification/Sessions.thy ===== *)
theory Sessions
  imports Auth "HOL-Library.AList"
begin

text \<open>
  Who may call the console: the minted sessions of \<^verbatim>\<open>internal/server/sessions.go\<close> and the
  custom roles of \<^verbatim>\<open>internal/server/roles.go\<close>, in file mode.  A session table maps
  tokens to sessions and is written to disk as a whole after every change; the list of outcomes says
  which writes reach the disk (none left: all of them).  Every call reads the clock once.
\<close>

subsection \<open>Sessions\<close>

record console_session =
  cs_Token :: string
  cs_Role :: string
  cs_Actor :: string
  cs_OrgID :: string
  cs_ExpiresAt :: time

record session_store =
  ss_byTok :: "(string \<times> console_session) list"
  ss_disk :: "(string \<times> console_session) list"
  ss_io :: "bool list"

definition sessions_saveLocked :: "session_store \<Rightarrow> session_store" where
  "sessions_saveLocked s =
     (case ss_io s of
        [] \<Rightarrow> s\<lparr>ss_disk := ss_byTok s\<rparr>
      | ok # io \<Rightarrow> s\<lparr>ss_disk := (if ok then ss_byTok s else ss_disk s), ss_io := io\<rparr>)"

definition expired :: "time \<Rightarrow> console_session \<Rightarrow> bool" where
  "expired now v \<longleftrightarrow> cs_ExpiresAt v < now"

definition drop_expired :: "time \<Rightarrow> (string \<times> console_session) list \<Rightarrow> (string \<times> console_session) list" where
  "drop_expired now m = filter (\<lambda>(k, v). \<not> expired now v) m"

definition pruneLocked :: "time \<Rightarrow> session_store \<Rightarrow> session_store" where
  "pruneLocked now s =
     (if list_ex (\<lambda>(k, v). expired now v) (ss_byTok s)
      then sessions_saveLocked (s\<lparr>ss_byTok := drop_expired now (ss_byTok s)\<rparr>) else s)"

text \<open>\<^verbatim>\<open>load\<close>: what is still valid of the file.\<close>

definition newSessionStore :: "time \<Rightarrow> (string \<times> console_session) list \<Rightarrow> session_store" where
  "newSessionStore now disk =
     \<lparr>ss_byTok = filter (\<lambda>(k, v). now < cs_ExpiresAt v) disk, ss_disk = disk, ss_io = []\<rparr>"

definition mint ::
  "string option \<Rightarrow> string \<Rightarrow> string \<Rightarrow> string \<Rightarrow> duration \<Rightarrow> time \<Rightarrow> session_store \<Rightarrow> session_store \<times> console_session option" where
  "mint rnd role actor orgID ttl now s =
     (case NewToken rnd of
        None \<Rightarrow> (s, None)
      | Some tok \<Rightarrow>
          (let sess = \<lparr>cs_Token = tok, cs_Role = role, cs_Actor = actor, cs_OrgID = orgID, cs_ExpiresAt = now + ttl\<rparr>;
               s' = pruneLocked now s
           in (sessions_saveLocked (s'\<lparr>ss_byTok := AList.update tok sess (ss_byTok s')\<rparr>), Some sess)))"

definition get_session :: "string \<Rightarrow> time \<Rightarrow> session_store \<Rightarrow> session_store \<times> console_session option" where
  "get_session tok now s =
     (let s' = pruneLocked now s;
          miss = (sessions_saveLocked (s'\<lparr>ss_byTok := AList.delete tok (ss_byTok s')\<rparr>), None)
      in case map_of (ss_byTok s') tok of
           None \<Rightarrow> miss
         | Some v \<Rightarrow> if expired now v then miss else (s', Some v))"

definition revoke :: "string \<Rightarrow> session_store \<Rightarrow> session_store" where
  "revoke tok s = sessions_saveLocked (s\<lparr>ss_byTok := AList.delete tok (ss_byTok s)\<rparr>)"

datatype rotate_result = Rotated console_session | NoSession | RotateFailed

definition rotate ::
  "string option \<Rightarrow> string \<Rightarrow> duration \<Rightarrow> time \<Rightarrow> session_store \<Rightarrow> session_store \<times> rotate_result" where
  "rotate rnd tok ttl now s =
     (let s' = pruneLocked now s;
          gone = s'\<lparr>ss_byTok := AList.delete tok (ss_byTok s')\<rparr>
      in case map_of (ss_byTok s') tok of
           None \<Rightarrow> (sessions_saveLocked gone, NoSession)
         | Some old \<Rightarrow>
             if expired now old then (sessions_saveLocked gone, NoSession)
             else case NewToken rnd of
                    None \<Rightarrow> (gone, RotateFailed)
                  | Some t \<Rightarrow>
                      (let sess = \<lparr>cs_Token = t, cs_Role = cs_Role old, cs_Actor = cs_Actor old,
                                   cs_OrgID = cs_OrgID old, cs_ExpiresAt = now + ttl\<rparr>
                       in (sessions_saveLocked (gone\<lparr>ss_byTok := AList.update t sess (ss_byTok gone)\<rparr>), Rotated sess)))"

text \<open>The session a token stands for at a moment.\<close>

definition live_entry :: "time \<Rightarrow> (string \<times> console_session) list \<Rightarrow> string \<Rightarrow> console_session option" where
  "live_entry now m tok =
     (case map_of m tok of None \<Rightarrow> None | Some v \<Rightarrow> if expired now v then None else Some v)"

definition session_of :: "time \<Rightarrow> session_store \<Rightarrow> string \<Rightarrow> console_session option" where
  "session_of now s tok = live_entry now (ss_byTok s) tok"

definition ss_ok :: "session_store \<Rightarrow> bool" where
  "ss_ok s \<longleftrightarrow> distinct (map fst (ss_byTok s))"

subsection \<open>Roles\<close>

record stored_role =
  sr_Name :: string
  sr_TokenHash :: string
  sr_Write :: bool
  sr_CreatedAt :: time

record custom_role =
  cr_Name :: string
  cr_Token :: string
  cr_Write :: bool
  cr_CreatedAt :: time

datatype role_error = RoleName | RoleExists | RoleIO

fun roleForToken :: "(string \<Rightarrow> string) \<Rightarrow> string \<Rightarrow> stored_role list \<Rightarrow> string option" where
  "roleForToken sha tok [] = None"
| "roleForToken sha tok (r # rs) =
     (if EqualHash sha (sr_TokenHash r) tok then Some (if sr_Write r then ''admin'' else ''viewer'')
      else roleForToken sha tok rs)"

definition role_list :: "stored_role list \<Rightarrow> custom_role list" where
  "role_list rs = map (\<lambda>r. \<lparr>cr_Name = sr_Name r, cr_Token = [], cr_Write = sr_Write r, cr_CreatedAt = sr_CreatedAt r\<rparr>) rs"

text \<open>\<^verbatim>\<open>create\<close>: a role whose file cannot be written is taken back.\<close>

definition role_create ::
  "(string \<Rightarrow> string) \<Rightarrow> string option \<Rightarrow> bool \<Rightarrow> time \<Rightarrow> string \<Rightarrow> bool \<Rightarrow> stored_role list \<Rightarrow>
   stored_role list \<times> (role_error + custom_role)" where
  "role_create sha rnd saved now name0 wr rs =
     (let name = trim_space name0
      in if name = [] then (rs, Inl RoleName)
         else case NewToken rnd of
                None \<Rightarrow> (rs, Inl RoleIO)
              | Some tok \<Rightarrow>
                  if list_ex (\<lambda>r. to_lower (sr_Name r) = to_lower name) rs then (rs, Inl RoleExists)
                  else if \<not> saved then (rs, Inl RoleIO)
                  else (rs @ [\<lparr>sr_Name = name, sr_TokenHash = Hash sha tok, sr_Write = wr, sr_CreatedAt = now\<rparr>],
                        Inr \<lparr>cr_Name = name, cr_Token = tok, cr_Write = wr, cr_CreatedAt = now\<rparr>))"

fun role_delete :: "string \<Rightarrow> stored_role list \<Rightarrow> stored_role list \<times> bool" where
  "role_delete name [] = ([], False)"
| "role_delete name (r # rs) =
     (if sr_Name r = name then (rs, True)
      else (case role_delete name rs of (rs', b) \<Rightarrow> (r # rs', b)))"

subsection \<open>Lemmas\<close>

lemma save_byTok [simp]: "ss_byTok (sessions_saveLocked s) = ss_byTok s"
  by (simp add: sessions_saveLocked_def split: list.split)

lemma prune_byTok [simp]: "ss_byTok (pruneLocked now s) = drop_expired now (ss_byTok s)"
proof (cases "list_ex (\<lambda>(k, v). expired now v) (ss_byTok s)")
  case False
  then have "drop_expired now (ss_byTok s) = ss_byTok s"
    by (auto simp: drop_expired_def list_ex_iff filter_id_conv)
  then show ?thesis using False by (simp add: pruneLocked_def)
qed (simp add: pruneLocked_def)

lemma map_of_drop_expired: "distinct (map fst m) \<Longrightarrow> map_of (drop_expired now m) k = live_entry now m k"
proof (induction m)
  case (Cons p m)
  then show ?case
    by (cases p) (auto simp: drop_expired_def live_entry_def map_of_eq_None_iff split: option.split)
qed (simp add: drop_expired_def live_entry_def)

lemma distinct_drop_expired: "distinct (map fst m) \<Longrightarrow> distinct (map fst (drop_expired now m))"
  unfolding drop_expired_def by (rule distinct_map_filter)

lemma live_entry_update:
  "live_entry now (AList.update k v m) j = (if j = k then (if expired now v then None else Some v) else live_entry now m j)"
  by (simp add: live_entry_def update_conv')

lemma live_entry_delete: "live_entry now (AList.delete k m) j = (if j = k then None else live_entry now m j)"
  by (simp add: live_entry_def delete_conv')

lemma live_entry_later:
  "distinct (map fst m) \<Longrightarrow> now \<le> now' \<Longrightarrow> live_entry now' (drop_expired now m) k = live_entry now' m k"
  unfolding live_entry_def[of now' "drop_expired now m"]
  by (auto simp: map_of_drop_expired live_entry_def expired_def split: option.split)

lemma live_entry_live: "live_entry now m k = Some v \<Longrightarrow> \<not> expired now v"
  by (auto simp: live_entry_def split: option.splits if_splits)

lemmas session_simps = session_of_def ss_ok_def Let_def map_of_drop_expired live_entry_update live_entry_delete
  live_entry_later distinct_drop_expired distinct_update distinct_delete

lemma get_session_snd: "ss_ok s \<Longrightarrow> snd (get_session tok now s) = session_of now s tok"
  by (auto simp: get_session_def session_simps split: option.split dest: live_entry_live)

lemma ss_ok_get [nodra_inv]: "ss_ok s \<Longrightarrow> ss_ok (fst (get_session tok now s))"
  by (simp add: get_session_def ss_ok_def Let_def distinct_drop_expired distinct_delete split: option.split)

lemma ss_ok_mint [nodra_inv]: "ss_ok s \<Longrightarrow> ss_ok (fst (mint rnd role actor org ttl now s))"
  by (simp add: mint_def ss_ok_def Let_def distinct_drop_expired distinct_update split: option.split)

lemma ss_ok_revoke [nodra_inv]: "ss_ok s \<Longrightarrow> ss_ok (revoke tok s)"
  by (simp add: revoke_def ss_ok_def distinct_delete)

lemma ss_ok_rotate [nodra_inv]: "ss_ok s \<Longrightarrow> ss_ok (fst (rotate rnd tok ttl now s))"
  by (simp add: rotate_def ss_ok_def Let_def distinct_drop_expired distinct_update distinct_delete split: option.split)

text \<open>Looking a session up removes nothing a later lookup would find.\<close>

lemma get_session_byTok:
  assumes "ss_ok s"
  shows "ss_byTok (fst (get_session tok now s)) = drop_expired now (ss_byTok s)"
proof (cases "map_of (drop_expired now (ss_byTok s)) tok")
  case None
  then have "AList.delete tok (drop_expired now (ss_byTok s)) = drop_expired now (ss_byTok s)"
    by (simp add: delete_id map_of_eq_None_iff)
  then show ?thesis using None by (simp add: get_session_def Let_def)
next
  case (Some v)
  then have "\<not> expired now v" using assms by (auto simp: session_simps dest: live_entry_live)
  then show ?thesis using Some by (simp add: get_session_def Let_def)
qed

lemma session_of_get:
  "ss_ok s \<Longrightarrow> now \<le> now' \<Longrightarrow> session_of now' (fst (get_session tok now s)) k = session_of now' s k"
  unfolding session_of_def by (simp only: get_session_byTok) (simp add: session_simps)

lemma session_of_mint:
  assumes "ss_ok s" "NewToken rnd = Some t" "now \<le> now'"
  shows "session_of now' (fst (mint rnd role actor org ttl now s)) k =
    (if k = t then (if now' \<le> now + ttl
        then Some \<lparr>cs_Token = t, cs_Role = role, cs_Actor = actor, cs_OrgID = org, cs_ExpiresAt = now + ttl\<rparr> else None)
     else session_of now' s k)"
  using assms by (simp add: mint_def session_simps expired_def)

lemma session_of_revoke: "session_of now (revoke tok s) k = (if k = tok then None else session_of now s k)"
  by (simp add: revoke_def session_simps)

lemma session_of_rotate_gone:
  "NewToken rnd \<noteq> Some tok \<Longrightarrow> session_of now' (fst (rotate rnd tok ttl now s)) tok = None"
  by (auto simp: rotate_def session_of_def Let_def live_entry_update live_entry_delete split: option.split)

lemma rotate_Rotated:
  assumes "ss_ok s" "snd (rotate rnd tok ttl now s) = Rotated v"
  shows "\<exists>old. session_of now s tok = Some old \<and> cs_Role v = cs_Role old \<and> cs_Actor v = cs_Actor old \<and>
    cs_OrgID v = cs_OrgID old \<and> NewToken rnd = Some (cs_Token v) \<and> cs_ExpiresAt v = now + ttl"
  using assms by (auto simp: rotate_def session_simps split: option.splits if_splits)

lemma session_of_rotate_other:
  assumes "ss_ok s" "now \<le> now'" "k \<noteq> tok" "NewToken rnd \<noteq> Some k"
  shows "session_of now' (fst (rotate rnd tok ttl now s)) k = session_of now' s k"
  using assms by (auto simp: rotate_def session_simps split: option.split)

lemma session_of_rotate_at:
  assumes "snd (rotate rnd tok ttl now s) = Rotated v" "now' \<le> now + ttl"
  shows "session_of now' (fst (rotate rnd tok ttl now s)) (cs_Token v) = Some v"
  using assms by (auto simp: rotate_def session_of_def Let_def live_entry_update expired_def split: option.splits if_splits)

subsection \<open>Properties\<close>

text \<open>C33: refreshing a session replaces its token.  The old token is dead at once; the new one
  stands for the same role, actor and organisation until the new expiry and for nothing
  afterwards; no other token is affected; and a revoked token is dead whatever it stood for.\<close>

theorem session_rotation:
  assumes "ss_ok s" and "session_of now s tok = Some old" and "NewToken rnd = Some t" and "t \<noteq> tok" and "now \<le> now'"
  shows "session_of now' (fst (rotate rnd tok ttl now s)) tok = None \<and>
    session_of now' (fst (rotate rnd tok ttl now s)) t =
      (if now' \<le> now + ttl then Some (old\<lparr>cs_Token := t, cs_ExpiresAt := now + ttl\<rparr>) else None) \<and>
    (\<forall>k. k \<notin> {tok, t} \<longrightarrow> session_of now' (fst (rotate rnd tok ttl now s)) k = session_of now' s k) \<and>
    session_of now' (revoke tok s) tok = None"
proof (intro conjI allI impI)
  show "session_of now' (fst (rotate rnd tok ttl now s)) tok = None" using assms by (intro session_of_rotate_gone) simp
  show "session_of now' (revoke tok s) tok = None" by (simp add: session_of_revoke)
  have m: "map_of (drop_expired now (ss_byTok s)) tok = Some old" "\<not> expired now old"
    using assms(1,2) by (auto simp: session_simps dest: live_entry_live)
  show "session_of now' (fst (rotate rnd tok ttl now s)) t =
      (if now' \<le> now + ttl then Some (old\<lparr>cs_Token := t, cs_ExpiresAt := now + ttl\<rparr>) else None)"
    using m assms(3) by (simp add: rotate_def session_of_def Let_def live_entry_update expired_def)
  show "session_of now' (fst (rotate rnd tok ttl now s)) k = session_of now' s k" if "k \<notin> {tok, t}" for k
    using assms that by (intro session_of_rotate_other) auto
qed

definition demo_sessions :: session_store where
  "demo_sessions = \<lparr>ss_byTok = [(''a'', \<lparr>cs_Token = ''a'', cs_Role = ''admin'', cs_Actor = ''root'', cs_OrgID = [], cs_ExpiresAt = 10\<rparr>)],
     ss_disk = [], ss_io = []\<rparr>"

theorem session_rotation_witness:
  "session_of 20 (fst (rotate (Some ''xy'') ''a'' 60 5 demo_sessions)) ''a'' = None \<and>
   session_of 20 (fst (rotate (Some ''xy'') ''a'' 60 5 demo_sessions)) (hex_encode ''xy'') =
     Some \<lparr>cs_Token = hex_encode ''xy'', cs_Role = ''admin'', cs_Actor = ''root'', cs_OrgID = [], cs_ExpiresAt = 65\<rparr>"
proof -
  let ?old = "\<lparr>cs_Token = ''a'', cs_Role = ''admin'', cs_Actor = ''root'', cs_OrgID = [], cs_ExpiresAt = 10\<rparr>"
  have "ss_ok demo_sessions" "session_of 5 demo_sessions ''a'' = Some ?old"
    by (simp_all add: ss_ok_def demo_sessions_def session_of_def live_entry_def expired_def)
  moreover have "hex_encode ''xy'' \<noteq> ''a''" by code_simp
  ultimately show ?thesis
    using session_rotation[of demo_sessions 5 "''a''" ?old "Some ''xy''" "hex_encode ''xy''" 20 60]
    by (simp add: NewToken_def del: hex_encode.simps)
qed

end
