(* ===== verification/Audit_Trail.thy ===== *)
theory Audit_Trail
  imports Auth Go_Json "HOL-Library.AList" "HOL-Library.Char_ord" "HOL-Library.List_Lexorder"
    "HOL-Library.Product_Lexorder" "HOL-Library.Sublist" "HOL-Library.Multiset"
begin

text \<open>
  The audit trail in file mode, \<^verbatim>\<open>internal/audit/audit.go\<close> and \<^verbatim>\<open>internal/audit/file.go\<close>:
  one file of entries per day, appended to and synced, queried newest first in pages that
  a cursor connects, and pruned by whole days.

  A day is its number of 24-hour periods since the zero time, which stands for the
  \<^verbatim>\<open>YYYYMMDD\<close> in the file name (UTC days of four-digit years, so both orders agree).  A
  line is an entry or bytes that do not parse; lines are shorter than the scanner's four
  megabytes.  The outcome of the writes of one \<^verbatim>\<open>Append\<close> is an argument.
\<close>

subsection \<open>State\<close>

record audit_entry =
  au_ID :: string
  au_Time :: time
  au_Actor :: string
  au_ActorType :: string
  au_Action :: string
  au_Target :: string
  au_SiteID :: string
  au_Result :: string
  au_Message :: string
  au_Detail :: json_map

record audit_filter =
  af_Since :: time
  af_Until :: time
  af_SiteID :: string
  af_SiteIDs :: "string list"
  af_Action :: string
  af_Actor :: string
  af_Limit :: int
  af_Cursor :: string

datatype audit_line = ALine audit_entry | ATorn | AJunk

datatype audit_io = AWritten | AOpenFails | AWriteFails bool | ASyncFails

text \<open>The handle is kept with its day; it is closed but not forgotten when the file of the
  next day cannot be opened.\<close>

record file_log =
  fg_files :: "(int \<times> audit_line list) list"
  fg_cur :: "(int \<times> bool) option"

abbreviation day_length :: duration where
  "day_length \<equiv> 24 * hour"

definition day_of :: "time \<Rightarrow> int" where
  "day_of t = t div day_length"

subsection \<open>Cursors\<close>

text \<open>\<^verbatim>\<open>UnixNano\<close> and \<^verbatim>\<open>time.Unix(0, ns)\<close>.\<close>

definition unix_epoch :: time where
  "unix_epoch = 62135596800 * second"

definition wrap64 :: "int \<Rightarrow> int" where
  "wrap64 n = (n + 2 ^ 63) mod 2 ^ 64 - 2 ^ 63"

definition UnixNano :: "time \<Rightarrow> int" where
  "UnixNano t = wrap64 (t - unix_epoch)"

definition format_int :: "int \<Rightarrow> string" where
  "format_int n = (if n < 0 then CHR ''-'' # format_nat (nat (- n)) else format_nat (nat n))"

definition encodeCursor :: "time \<Rightarrow> string \<Rightarrow> string" where
  "encodeCursor t i = format_int (UnixNano t) @ CHR ''|'' # i"

text \<open>\<^verbatim>\<open>fmt.Sscanf(c, "%d|%s", ...)\<close>: a newline is not skipped as white space.\<close>

definition skip_space :: "string \<Rightarrow> string option" where
  "skip_space s =
     (let r = drop_spaces space2 space3 s
      in if CHR 0x0A \<in> set (take (length s - length r) s) then None else Some r)"

fun scan_word :: "string \<Rightarrow> string" where
  "scan_word [] = []"
| "scan_word (c # cs) = (if drop_spaces space2 space3 (c # cs) = c # cs then c # scan_word cs else [])"

definition scan_sign :: "string \<Rightarrow> int \<times> string" where
  "scan_sign s =
     (case s of
        [] \<Rightarrow> (1, [])
      | c # cs \<Rightarrow> if c = CHR ''-'' then (- 1, cs) else if c = CHR ''+'' then (1, cs) else (1, c # cs))"

definition is_digit :: "char \<Rightarrow> bool" where
  "is_digit c \<longleftrightarrow> char_digit c \<noteq> None"

definition scan_int :: "string \<Rightarrow> (int \<times> string) option" where
  "scan_int s0 =
     do { s1 \<leftarrow> skip_space s0;
          let (sgn, s2) = scan_sign s1;
          let ds = takeWhile is_digit s2;
          n \<leftarrow> (if ds = [] then None else parse_digits 0 ds);
          let v = sgn * int n;
          if - (2 ^ 63) \<le> v \<and> v < 2 ^ 63 then Some (v, drop (length ds) s2) else None }"

definition decodeCursor :: "string \<Rightarrow> (time \<times> string) option" where
  "decodeCursor c =
     (case scan_int c of
        None \<Rightarrow> None
      | Some (ns, r) \<Rightarrow>
          (case r of
             [] \<Rightarrow> None
           | b # r' \<Rightarrow>
               if b \<noteq> CHR ''|'' then None
               else case skip_space r' of
                      None \<Rightarrow> None
                    | Some w \<Rightarrow> if w = [] then None else Some (unix_epoch + ns, scan_word w)))"

subsection \<open>Operations\<close>

definition line_add :: "audit_line list \<Rightarrow> audit_entry \<Rightarrow> audit_line list" where
  "line_add ls e = (if ls \<noteq> [] \<and> last ls = ATorn then butlast ls @ [AJunk] else ls @ [ALine e])"

definition line_torn :: "audit_line list \<Rightarrow> audit_line list" where
  "line_torn ls = (if ls \<noteq> [] \<and> last ls = ATorn then ls else ls @ [ATorn])"

definition day_lines :: "int \<Rightarrow> file_log \<Rightarrow> audit_line list" where
  "day_lines d f = (case map_of (fg_files f) d of None \<Rightarrow> [] | Some ls \<Rightarrow> ls)"

definition set_day :: "int \<Rightarrow> audit_line list \<Rightarrow> file_log \<Rightarrow> file_log" where
  "set_day d ls f = f\<lparr>fg_files := AList.update d ls (fg_files f)\<rparr>"

definition newID :: "string option \<Rightarrow> string" where
  "newID rnd = ''aud_'' @ (case NewToken rnd of None \<Rightarrow> [] | Some t \<Rightarrow> t)"

definition stamp :: "string option \<Rightarrow> time \<Rightarrow> audit_entry \<Rightarrow> audit_entry" where
  "stamp rnd now e =
     (let e1 = (if au_ID e = [] then e\<lparr>au_ID := newID rnd\<rparr> else e)
      in if au_Time e1 = 0 then e1\<lparr>au_Time := now\<rparr> else e1)"

definition Append ::
  "string option \<Rightarrow> time \<Rightarrow> audit_io \<Rightarrow> audit_entry \<Rightarrow> file_log \<Rightarrow> file_log \<times> bool" where
  "Append rnd now io e0 f =
     (let e = stamp rnd now e0;
          day = day_of (au_Time e);
          reopen = (case fg_cur f of None \<Rightarrow> True | Some (d, _) \<Rightarrow> d \<noteq> day)
      in if reopen \<and> io = AOpenFails
         then (f\<lparr>fg_cur := map_option (\<lambda>(d, _). (d, False)) (fg_cur f)\<rparr>, False)
         else let f1 = (if reopen then (set_day day (day_lines day f) f)\<lparr>fg_cur := Some (day, True)\<rparr> else f)
              in if fg_cur f1 \<noteq> Some (day, True) then (f1, False)
                 else case io of
                        AWriteFails torn \<Rightarrow> (if torn then set_day day (line_torn (day_lines day f1)) f1 else f1, False)
                      | ASyncFails \<Rightarrow> (set_day day (line_add (day_lines day f1) e) f1, False)
                      | _ \<Rightarrow> (set_day day (line_add (day_lines day f1) e) f1, True))"

definition dayFiles :: "time \<Rightarrow> time \<Rightarrow> file_log \<Rightarrow> int list" where
  "dayFiles since until f =
     rev (sort (filter (\<lambda>d. \<not> (since \<noteq> 0 \<and> d * day_length < since - since mod day_length) \<and>
                              \<not> (until \<noteq> 0 \<and> until < d * day_length)) (map fst (fg_files f))))"

definition matches :: "audit_filter \<Rightarrow> audit_entry \<Rightarrow> bool" where
  "matches fl e \<longleftrightarrow>
     \<not> (af_Since fl \<noteq> 0 \<and> au_Time e < af_Since fl) \<and>
     \<not> (af_Until fl \<noteq> 0 \<and> af_Until fl < au_Time e) \<and>
     (af_SiteID fl = [] \<or> au_SiteID e = af_SiteID fl) \<and>
     (af_SiteIDs fl = [] \<or> au_SiteID e \<in> set (af_SiteIDs fl)) \<and>
     (af_Action fl = [] \<or> au_Action e = af_Action fl) \<and>
     (af_Actor fl = [] \<or> au_Actor e = af_Actor fl)"

fun line_entries :: "audit_line list \<Rightarrow> audit_entry list" where
  "line_entries [] = []"
| "line_entries (ALine e # ls) = e # line_entries ls"
| "line_entries (_ # ls) = line_entries ls"

definition audit_key :: "audit_entry \<Rightarrow> time \<times> string" where
  "audit_key e = (au_Time e, au_ID e)"

definition page_limit :: "int \<Rightarrow> nat" where
  "page_limit n = (if n \<le> 0 \<or> 1000 < n then 250 else nat n)"

definition after_cursor :: "string \<Rightarrow> audit_entry list \<Rightarrow> audit_entry list" where
  "after_cursor c es =
     (if c = [] then es
      else case decodeCursor c of
             None \<Rightarrow> es
           | Some k \<Rightarrow> dropWhile (\<lambda>e. \<not> audit_key e < k) es)"

text \<open>A page and the cursor of the next one.  \<^verbatim>\<open>readable\<close> says which days can be read.\<close>

definition Query ::
  "(int \<Rightarrow> bool) \<Rightarrow> audit_filter \<Rightarrow> file_log \<Rightarrow> audit_entry list \<times> string" where
  "Query readable fl f =
     (let limit = page_limit (af_Limit fl);
          days = filter readable (dayFiles (af_Since fl) (af_Until fl) f);
          hits = concat (map (\<lambda>d. filter (matches fl) (line_entries (day_lines d f))) days);
          es = after_cursor (af_Cursor fl) (rev (sort_key audit_key hits))
      in if limit < length es
         then (take limit es, encodeCursor (au_Time (es ! (limit - 1))) (au_ID (es ! (limit - 1))))
         else (es, []))"

definition Prune :: "time \<Rightarrow> file_log \<Rightarrow> file_log" where
  "Prune before f =
     f\<lparr>fg_files := filter (\<lambda>(d, _). \<not> ((d + 1) * day_length < before \<and> map_option fst (fg_cur f) \<noteq> Some d)) (fg_files f)\<rparr>"

text \<open>The loop of \<^verbatim>\<open>auditExport\<close>: page after page until the cursor is empty.\<close>

partial_function (option) export_pages :: "audit_filter \<Rightarrow> file_log \<Rightarrow> audit_entry list option" where
  "export_pages fl f =
     (let (es, nx) = Query (\<lambda>_. True) fl f
      in if nx = [] then Some es
         else Option.bind (export_pages (fl\<lparr>af_Cursor := nx\<rparr>) f) (\<lambda>r. Some (es @ r)))"

subsection \<open>Invariant and abstract log\<close>

text \<open>Every day has one file, and an entry is in the file of its day.\<close>

definition flog_ok :: "file_log \<Rightarrow> bool" where
  "flog_ok f \<longleftrightarrow>
     distinct (map fst (fg_files f)) \<and>
     (\<forall>(d, ls) \<in> set (fg_files f). \<forall>e \<in> set (line_entries ls). day_of (au_Time e) = d)"

definition log_entries :: "file_log \<Rightarrow> audit_entry list" where
  "log_entries f = concat (map (\<lambda>(d, ls). line_entries ls) (fg_files f))"

subsection \<open>Lemmas: cursors\<close>

lemma drop_spaces_plain:
  assumes "\<not> ascii_space c" "c \<notin> {CHR 0xC2, CHR 0xE1, CHR 0xE2, CHR 0xE3}"
  shows "drop_spaces space2 space3 (c # cs) = c # cs"
proof -
  have "[c, b] \<notin> set space2" "[c, b, d] \<notin> set space3" for b d
    using assms(2) by (auto simp: space2_def space3_def)
  then show ?thesis
    using assms(1) by (cases cs; cases "tl cs") auto
qed

text \<open>Printable ASCII: what generated IDs consist of.\<close>

definition plain_char :: "char \<Rightarrow> bool" where
  "plain_char c \<longleftrightarrow> 33 \<le> (of_char c :: nat) \<and> (of_char c :: nat) \<le> 126"

lemma plain_drop_spaces:
  assumes "plain_char c"
  shows "drop_spaces space2 space3 (c # cs) = c # cs"
proof (rule drop_spaces_plain)
  show "\<not> ascii_space c" using assms by (auto simp: ascii_space_def plain_char_def)
  show "c \<notin> {CHR 0xC2, CHR 0xE1, CHR 0xE2, CHR 0xE3}" using assms by (auto simp: plain_char_def)
qed

lemma skip_space_plain: "plain_char c \<Longrightarrow> skip_space (c # cs) = Some (c # cs)"
  by (simp add: skip_space_def plain_drop_spaces)

lemma scan_word_plain: "list_all plain_char s \<Longrightarrow> scan_word s = s"
  by (induction s) (simp_all add: plain_drop_spaces)

lemma digit_char_plain:
  assumes "d < 10"
  shows "plain_char (digit_char d) \<and> is_digit (digit_char d) \<and> digit_char d \<notin> {CHR ''-'', CHR ''+''}"
proof -
  have "list_all (\<lambda>d. plain_char (digit_char d) \<and> is_digit (digit_char d) \<and>
      digit_char d \<notin> {CHR ''-'', CHR ''+''}) [0 ..< 10]" by code_simp
  then show ?thesis using assms by (auto simp: list_all_iff)
qed

lemma format_nat_digits: "c \<in> set (format_nat n) \<Longrightarrow> \<exists>d < 10. c = digit_char d"
proof (induction n rule: format_nat.induct)
  case (1 n)
  have "c \<in> set (if n < 10 then [digit_char n] else format_nat (n div 10) @ [digit_char (n mod 10)])"
    using 1(2) unfolding format_nat.simps[of n] .
  then consider "n < 10" "c = digit_char n" | "\<not> n < 10" "c \<in> set (format_nat (n div 10))" | "c = digit_char (n mod 10)"
    by (auto split: if_splits)
  then show ?case
  proof cases
    case 3
    then show ?thesis by (intro exI[of _ "n mod 10"]) simp
  qed (use 1(1) in auto)
qed

lemma format_nat_cons:
  obtains d cs where "format_nat n = digit_char d # cs" "d < 10"
proof (cases "format_nat n")
  case (Cons c cs)
  then show ?thesis using format_nat_digits[of c n] that by auto
qed simp

lemma scan_digits:
  "takeWhile is_digit (format_nat n @ CHR ''|'' # r) = format_nat n"
proof -
  have "\<not> is_digit (CHR ''|'')" by code_simp
  moreover have "\<forall>c \<in> set (format_nat n). is_digit c"
    using format_nat_digits digit_char_plain by blast
  ultimately show ?thesis by (simp add: takeWhile_append2)
qed

lemma scan_int_format:
  assumes "- (2 ^ 63) \<le> v" "v < 2 ^ 63"
  shows "scan_int (format_int v @ CHR ''|'' # r) = Some (v, CHR ''|'' # r)"
proof (cases "v < 0")
  case True
  have "plain_char (CHR ''-'')" by code_simp
  then show ?thesis
    using True assms by (simp add: scan_int_def format_int_def skip_space_plain scan_sign_def scan_digits Let_def)
next
  case False
  obtain d cs where f: "format_nat (nat v) = digit_char d # cs" "d < 10" by (rule format_nat_cons)
  have "skip_space (format_nat (nat v) @ CHR ''|'' # r) = Some (format_nat (nat v) @ CHR ''|'' # r)"
    using f digit_char_plain[of d] by (simp add: skip_space_plain)
  moreover have "scan_sign (format_nat (nat v) @ CHR ''|'' # r) = (1, format_nat (nat v) @ CHR ''|'' # r)"
    using f digit_char_plain[of d] by (simp add: scan_sign_def)
  ultimately show ?thesis
    using False assms by (simp add: scan_int_def format_int_def scan_digits Let_def)
qed

lemma wrap64_range: "- (2 ^ 63) \<le> wrap64 n \<and> wrap64 n < 2 ^ 63"
  unfolding wrap64_def using pos_mod_bound[of "2 ^ 64 :: int" "n + 2 ^ 63"] pos_mod_sign[of "2 ^ 64 :: int" "n + 2 ^ 63"] by simp

definition cursor_ok :: "audit_entry \<Rightarrow> bool" where
  "cursor_ok e \<longleftrightarrow> au_ID e \<noteq> [] \<and> list_all plain_char (au_ID e) \<and> wrap64 (au_Time e - unix_epoch) = au_Time e - unix_epoch"

lemma cursor_roundtrip:
  assumes "cursor_ok e"
  shows "decodeCursor (encodeCursor (au_Time e) (au_ID e)) = Some (audit_key e)"
proof -
  obtain c cs where i: "au_ID e = c # cs" "plain_char c" using assms by (cases "au_ID e") (auto simp: cursor_ok_def)
  have "scan_int (encodeCursor (au_Time e) (au_ID e)) = Some (au_Time e - unix_epoch, CHR ''|'' # au_ID e)"
    using assms wrap64_range[of "au_Time e - unix_epoch"]
    by (simp add: encodeCursor_def UnixNano_def cursor_ok_def scan_int_format)
  then show ?thesis
    using assms i by (simp add: decodeCursor_def audit_key_def cursor_ok_def skip_space_plain plain_drop_spaces scan_word_plain)
qed

lemma encodeCursor_nonempty: "encodeCursor t i \<noteq> []"
  by (simp add: encodeCursor_def)

subsection \<open>Lemmas: the files as one log\<close>

lemma mset_concat_cong: "mset xs = mset ys \<Longrightarrow> mset (concat (map g xs)) = mset (concat (map g ys))"
proof -
  have "mset (concat (map g zs)) = \<Sum>\<^sub># (image_mset (mset \<circ> g) (mset zs))" for zs
    by (induction zs) simp_all
  then show "mset xs = mset ys \<Longrightarrow> ?thesis" by simp
qed

lemma day_lines_mem:
  "distinct (map fst (fg_files f)) \<Longrightarrow> (d, ls) \<in> set (fg_files f) \<Longrightarrow> day_lines d f = ls"
  by (simp add: day_lines_def)

text \<open>A day outside the window of days has no entry inside the window of times.\<close>

lemma day_skipped:
  assumes "day_of (au_Time e) = d" "matches fl e"
  shows "\<not> (af_Since fl \<noteq> 0 \<and> d * day_length < af_Since fl - af_Since fl mod day_length) \<and>
    \<not> (af_Until fl \<noteq> 0 \<and> af_Until fl < d * day_length)"
proof -
  let ?s = "af_Since fl"
  have t: "d * day_length \<le> au_Time e" using assms(1) pos_mod_sign[of day_length "au_Time e"]
      div_mult_mod_eq[of "au_Time e" day_length] by (simp add: day_of_def)
  have "?s - ?s mod day_length = ?s div day_length * day_length"
    by (metis minus_mod_eq_div_mult)
  moreover have "?s div day_length * day_length \<le> d * day_length" if "?s \<le> au_Time e"
    using zdiv_mono1[OF that, of day_length] assms(1) by (simp add: day_of_def)
  ultimately show ?thesis using t assms(2) unfolding matches_def by (smt (verit, best))
qed

definition day_hits :: "audit_filter \<Rightarrow> file_log \<Rightarrow> audit_entry list" where
  "day_hits fl f =
     concat (map (\<lambda>d. filter (matches fl) (line_entries (day_lines d f))) (dayFiles (af_Since fl) (af_Until fl) f))"

lemma day_hits_log:
  assumes "flog_ok f"
  shows "mset (day_hits fl f) = mset (filter (matches fl) (log_entries f))"
proof -
  let ?P = "\<lambda>d. \<not> (af_Since fl \<noteq> 0 \<and> d * day_length < af_Since fl - af_Since fl mod day_length) \<and>
    \<not> (af_Until fl \<noteq> 0 \<and> af_Until fl < d * day_length)"
  let ?g = "\<lambda>d. filter (matches fl) (line_entries (day_lines d f))"
  have d: "distinct (map fst (fg_files f))" using assms by (simp add: flog_ok_def)
  have skip: "?g d = []" if a: "d \<in> set (map fst (fg_files f))" and b: "\<not> ?P d" for d
  proof -
    obtain ls where m: "(d, ls) \<in> set (fg_files f)" using a by auto
    then have "\<forall>e \<in> set (line_entries ls). day_of (au_Time e) = d" using assms by (auto simp: flog_ok_def)
    then have "\<forall>e \<in> set (line_entries ls). \<not> matches fl e" using day_skipped[of _ d fl] b by blast
    then show ?thesis using day_lines_mem[OF d m] by (simp add: filter_empty_conv)
  qed
  have "concat (map ?g (filter ?P xs)) = concat (map ?g xs)" if "set xs \<subseteq> set (map fst (fg_files f))" for xs
    using that
  proof (induction xs)
    case (Cons x xs)
    then show ?case using skip[of x] by (cases "?P x") simp_all
  qed simp
  then have 1: "concat (map ?g (filter ?P (map fst (fg_files f)))) = concat (map ?g (map fst (fg_files f)))" by blast
  have "mset (day_hits fl f) = mset (concat (map ?g (filter ?P (map fst (fg_files f)))))"
    unfolding day_hits_def dayFiles_def by (intro mset_concat_cong) simp
  also have "\<dots> = mset (concat (map ?g (map fst (fg_files f))))" by (simp only: 1)
  also have "map ?g (map fst (fg_files f)) = map (\<lambda>(d, ls). filter (matches fl) (line_entries ls)) (fg_files f)"
    using day_lines_mem[OF d] by (auto intro!: map_cong simp: case_prod_unfold)
  also have "concat \<dots> = filter (matches fl) (log_entries f)"
    by (simp add: log_entries_def filter_concat comp_def case_prod_unfold)
  finally show ?thesis .
qed

text \<open>What a query ranges over: the matching entries, newest first.\<close>

definition newest_first :: "audit_filter \<Rightarrow> file_log \<Rightarrow> audit_entry list" where
  "newest_first fl f = rev (sort_key audit_key (filter (matches fl) (log_entries f)))"

definition keys_distinct :: "audit_filter \<Rightarrow> file_log \<Rightarrow> bool" where
  "keys_distinct fl f \<longleftrightarrow> distinct (map audit_key (filter (matches fl) (log_entries f)))"

lemma sort_hits:
  assumes "flog_ok f" "keys_distinct fl f"
  shows "rev (sort_key audit_key (day_hits fl f)) = newest_first fl f"
proof -
  have m: "mset (day_hits fl f) = mset (filter (matches fl) (log_entries f))" by (rule day_hits_log[OF assms(1)])
  then have "set (day_hits fl f) = set (filter (matches fl) (log_entries f))" by (rule mset_eq_setD)
  then have i: "inj_on audit_key (set (day_hits fl f))" using assms(2) by (simp only: keys_distinct_def distinct_map)
  have "sort_key audit_key (day_hits fl f) = sort_key audit_key (filter (matches fl) (log_entries f))"
  proof (rule sort_key_inj_key_eq[OF _ i])
    show "mset (day_hits fl f) = mset (sort_key audit_key (filter (matches fl) (log_entries f)))" using m by simp
  qed simp
  then show ?thesis by (simp add: newest_first_def)
qed

lemma Query_pages:
  assumes "flog_ok f" "keys_distinct fl f"
  shows "Query (\<lambda>_. True) fl f =
    (let limit = page_limit (af_Limit fl); es = after_cursor (af_Cursor fl) (newest_first fl f)
     in if limit < length es
        then (take limit es, encodeCursor (au_Time (es ! (limit - 1))) (au_ID (es ! (limit - 1)))) else (es, []))"
  using sort_hits[OF assms] by (simp add: Query_def day_hits_def Let_def)

lemma newest_first_desc:
  assumes "keys_distinct fl f"
  shows "sorted_wrt (\<lambda>x y. audit_key y < audit_key x) (newest_first fl f)"
proof -
  let ?xs = "sort_key audit_key (filter (matches fl) (log_entries f))"
  have "mset (map audit_key ?xs) = mset (map audit_key (filter (matches fl) (log_entries f)))" by simp
  then have "distinct (map audit_key ?xs)" using assms mset_eq_imp_distinct_iff unfolding keys_distinct_def by blast
  then have "sorted_wrt (<) (map audit_key ?xs)" by (simp only: strict_sorted_iff) simp
  then show ?thesis by (simp add: newest_first_def sorted_wrt_map sorted_wrt_rev)
qed

lemma drop_while_desc:
  assumes "sorted_wrt (\<lambda>x y. key y < (key x :: 'k :: linorder)) L" "0 < k" "k \<le> length L"
  shows "dropWhile (\<lambda>e. \<not> key e < key (L ! (k - 1))) L = drop k L"
proof -
  have "L = take k L @ drop k L" by simp
  have a: "\<forall>e \<in> set (take k L). \<not> key e < key (L ! (k - 1))"
  proof
    fix e assume "e \<in> set (take k L)"
    then obtain i where i: "i < k" "e = L ! i" using assms(3) by (auto simp: in_set_conv_nth)
    show "\<not> key e < key (L ! (k - 1))"
    proof (cases "i = k - 1")
      case False
      then have "key (L ! (k - 1)) < key (L ! i)" using assms i by (intro sorted_wrt_nth_less[OF assms(1)]) auto
      then show ?thesis using i by simp
    qed (use i in simp)
  qed
  have b: "key (L ! k) < key (L ! (k - 1))" if "k < length L"
    using that assms(2) by (intro sorted_wrt_nth_less[OF assms(1)]) auto
  have "dropWhile (\<lambda>e. \<not> key e < key (L ! (k - 1))) (take k L @ drop k L) = drop k L"
    using a b by (cases "k < length L") (simp_all add: dropWhile_append2 Cons_nth_drop_Suc[symmetric])
  then show ?thesis by simp
qed

subsection \<open>Lemmas: appending and pruning\<close>

lemma line_entries_append [simp]: "line_entries (xs @ ys) = line_entries xs @ line_entries ys"
  by (induction xs rule: line_entries.induct) simp_all

lemma line_entries_torn [simp]: "line_entries (line_torn ls) = line_entries ls"
  by (simp add: line_torn_def)

lemma line_entries_add:
  "line_entries (line_add ls e) = (if ls \<noteq> [] \<and> last ls = ATorn then line_entries ls else line_entries ls @ [e])"
proof (cases "ls \<noteq> [] \<and> last ls = ATorn")
  case True
  then have "line_entries ls = line_entries (butlast ls @ [ATorn])" by (metis append_butlast_last_id)
  then show ?thesis using True by (simp add: line_add_def)
next
  case False
  then have "line_add ls e = ls @ [ALine e]" by (auto simp: line_add_def)
  then show ?thesis using False by auto
qed

lemma set_day_log:
  assumes "distinct (map fst (fg_files f))"
  shows "mset (log_entries (set_day d ls f)) + mset (line_entries (day_lines d f)) = mset (log_entries f) + mset (line_entries ls)"
proof -
  have "distinct (map fst fs) \<Longrightarrow>
    mset (concat (map (\<lambda>(d, ls). line_entries ls) (AList.update d ls fs))) +
      mset (line_entries (case map_of fs d of None \<Rightarrow> [] | Some l \<Rightarrow> l)) =
    mset (concat (map (\<lambda>(d, ls). line_entries ls) fs)) + mset (line_entries ls)" for fs
    by (induction fs) (auto split: option.splits)
  from this[OF assms] show ?thesis by (simp add: log_entries_def set_day_def day_lines_def)
qed

lemma set_day_ok:
  assumes "flog_ok f" "\<forall>e \<in> set (line_entries ls). day_of (au_Time e) = d"
  shows "flog_ok (set_day d ls f)"
proof -
  have "set (AList.update d ls fs) \<subseteq> insert (d, ls) (set fs)" for fs :: "(int \<times> audit_line list) list"
    by (induction fs) auto
  then have "\<forall>(a, b) \<in> set (AList.update d ls (fg_files f)). (a, b) = (d, ls) \<or> (a, b) \<in> set (fg_files f)" by blast
  then show ?thesis using assms unfolding flog_ok_def set_day_def by (fastforce simp: distinct_update)
qed

lemma day_lines_ok: "flog_ok f \<Longrightarrow> e \<in> set (line_entries (day_lines d f)) \<Longrightarrow> day_of (au_Time e) = d"
  by (auto simp: day_lines_def flog_ok_def split: option.splits dest!: map_of_SomeD)

lemma flog_ok_cur [simp]: "flog_ok (f\<lparr>fg_cur := c\<rparr>) = flog_ok f"
  by (simp add: flog_ok_def)

lemma log_entries_cur [simp]: "log_entries (f\<lparr>fg_cur := c\<rparr>) = log_entries f" "day_lines d (f\<lparr>fg_cur := c\<rparr>) = day_lines d f"
  by (simp_all add: log_entries_def day_lines_def)

lemma day_lines_set_day [simp]: "day_lines d (set_day d ls f) = ls"
  by (simp add: day_lines_def set_day_def update_conv')

text \<open>An append that writes adds its entry, unless the last line of the day is torn.\<close>

definition torn_day :: "int \<Rightarrow> file_log \<Rightarrow> bool" where
  "torn_day d f \<longleftrightarrow> day_lines d f \<noteq> [] \<and> last (day_lines d f) = ATorn"

lemma write_day:
  assumes "flog_ok f" "day_of (au_Time e) = d"
  shows "flog_ok (set_day d (line_add (day_lines d f) e) f) \<and>
    (\<not> torn_day d f \<longrightarrow> mset (log_entries (set_day d (line_add (day_lines d f) e) f)) = add_mset e (mset (log_entries f)))"
proof
  show "flog_ok (set_day d (line_add (day_lines d f) e) f)"
    using assms day_lines_ok[OF assms(1)] by (intro set_day_ok) (auto simp: line_entries_add)
  show "\<not> torn_day d f \<longrightarrow> mset (log_entries (set_day d (line_add (day_lines d f) e) f)) = add_mset e (mset (log_entries f))"
  proof
    assume "\<not> torn_day d f"
    then have "line_entries (line_add (day_lines d f) e) = line_entries (day_lines d f) @ [e]"
      unfolding torn_day_def line_entries_add by (simp only: if_False)
    then show "mset (log_entries (set_day d (line_add (day_lines d f) e) f)) = add_mset e (mset (log_entries f))"
      using set_day_log[of f d "line_add (day_lines d f) e"] assms(1) by (simp add: flog_ok_def)
  qed
qed

text \<open>The log once the file of the day is open.\<close>

lemma open_day:
  assumes "flog_ok f"
  shows "flog_ok (set_day d (day_lines d f) f) \<and> mset (log_entries (set_day d (day_lines d f) f)) = mset (log_entries f)"
proof
  show "flog_ok (set_day d (day_lines d f) f)" using assms day_lines_ok[OF assms] by (intro set_day_ok) blast+
  show "mset (log_entries (set_day d (day_lines d f) f)) = mset (log_entries f)"
    using assms set_day_log[of f d "day_lines d f"] by (simp add: flog_ok_def)
qed

lemma torn_ok: "flog_ok f \<Longrightarrow> flog_ok (set_day d (line_torn (day_lines d f)) f)"
  by (rule set_day_ok) (auto dest: day_lines_ok)

lemma Append_log:
  assumes "flog_ok f"
  shows "flog_ok (fst (Append rnd now io e f)) \<and>
    (snd (Append rnd now io e f) \<and> \<not> torn_day (day_of (au_Time (stamp rnd now e))) f \<longrightarrow>
       mset (log_entries (fst (Append rnd now io e f))) = add_mset (stamp rnd now e) (mset (log_entries f)))"
proof -
  define d where "d = day_of (au_Time (stamp rnd now e))"
  define reopen where "reopen = (case fg_cur f of None \<Rightarrow> True | Some (d', _) \<Rightarrow> d' \<noteq> d)"
  define f1 where "f1 = (if reopen then (set_day d (day_lines d f) f)\<lparr>fg_cur := Some (d, True)\<rparr> else f)"
  have f1: "flog_ok f1" "mset (log_entries f1) = mset (log_entries f)" "day_lines d f1 = day_lines d f"
    using open_day[OF assms, of d] assms by (auto simp: f1_def)
  have t: "torn_day d f1 = torn_day d f" using f1(3) by (simp add: torn_day_def)
  have w: "flog_ok (set_day d (line_add (day_lines d f1) (stamp rnd now e)) f1) \<and>
      (\<not> torn_day d f \<longrightarrow> mset (log_entries (set_day d (line_add (day_lines d f1) (stamp rnd now e)) f1)) =
         add_mset (stamp rnd now e) (mset (log_entries f)))"
    using write_day[OF f1(1), of "stamp rnd now e" d] f1(2) t d_def by simp
  have "Append rnd now io e f =
      (if reopen \<and> io = AOpenFails then (f\<lparr>fg_cur := map_option (\<lambda>(d, _). (d, False)) (fg_cur f)\<rparr>, False)
       else if fg_cur f1 \<noteq> Some (d, True) then (f1, False)
       else case io of
              AWriteFails torn \<Rightarrow> (if torn then set_day d (line_torn (day_lines d f1)) f1 else f1, False)
            | ASyncFails \<Rightarrow> (set_day d (line_add (day_lines d f1) (stamp rnd now e)) f1, False)
            | _ \<Rightarrow> (set_day d (line_add (day_lines d f1) (stamp rnd now e)) f1, True))"
    unfolding Append_def Let_def f1_def reopen_def d_def by (rule refl)
  then show ?thesis
    using assms f1(1) w torn_ok[OF f1(1), of d] unfolding d_def[symmetric] by (cases io) simp_all
qed

lemma Prune_log:
  assumes "flog_ok f"
  shows "flog_ok (Prune before f) \<and> set (log_entries (Prune before f)) \<subseteq> set (log_entries f) \<and>
    (\<forall>e \<in> set (log_entries f) - set (log_entries (Prune before f)). au_Time e < before)"
proof (intro conjI ballI)
  show "flog_ok (Prune before f)"
    using assms distinct_map_filter[of fst "fg_files f"] by (auto simp: flog_ok_def Prune_def)
  show "set (log_entries (Prune before f)) \<subseteq> set (log_entries f)" by (auto simp: log_entries_def Prune_def)
  fix e assume "e \<in> set (log_entries f) - set (log_entries (Prune before f))"
  then obtain d ls where m: "(d, ls) \<in> set (fg_files f)" "e \<in> set (line_entries ls)" "(d + 1) * day_length < before"
    by (auto simp: log_entries_def Prune_def)
  have "day_of (au_Time e) = d" using m assms by (auto simp: flog_ok_def)
  then have "au_Time e < (d + 1) * day_length"
    using div_mult_mod_eq[of "au_Time e" day_length] pos_mod_bound[of day_length "au_Time e"]
    by (simp add: day_of_def algebra_simps)
  then show "au_Time e < before" using m(3) by simp
qed

lemma Prune_old:
  assumes "(d, ls) \<in> set (fg_files (Prune before f))" "map_option fst (fg_cur f) \<noteq> Some d"
  shows "before \<le> (d + 1) * day_length"
  using assms by (auto simp: Prune_def)

lemma matches_cursor [simp]: "matches (fl\<lparr>af_Cursor := c\<rparr>) = matches fl"
  by (intro ext) (simp add: matches_def)

lemma newest_first_cursor [simp]: "newest_first (fl\<lparr>af_Cursor := c\<rparr>) f = newest_first fl f"
  by (simp add: newest_first_def)

lemma keys_distinct_cursor [simp]: "keys_distinct (fl\<lparr>af_Cursor := c\<rparr>) f = keys_distinct fl f"
  by (simp add: keys_distinct_def)

lemma export_from:
  assumes "flog_ok f" "keys_distinct fl f" "\<forall>e \<in> set (newest_first fl f). cursor_ok e"
    and "after_cursor (af_Cursor fl) (newest_first fl f) = drop k (newest_first fl f)"
  shows "export_pages fl f = Some (drop k (newest_first fl f))"
  using assms
proof (induction "length (newest_first fl f) - k" arbitrary: fl k rule: less_induct)
  case less
  define L where "L = newest_first fl f"
  define n where "n = page_limit (af_Limit fl)"
  have n: "0 < n" by (simp add: n_def page_limit_def)
  have Q: "Query (\<lambda>_. True) fl f =
      (if n < length (drop k L)
       then (take n (drop k L), encodeCursor (au_Time (drop k L ! (n - 1))) (au_ID (drop k L ! (n - 1)))) else (drop k L, []))"
    using Query_pages[OF less(2,3)] less(5) by (simp add: L_def n_def Let_def)
  show ?case
  proof (cases "n < length (drop k L)")
    case False
    then show ?thesis using Q by (subst export_pages.simps) (simp add: L_def)
  next
    case True
    let ?e = "drop k L ! (n - 1)"
    let ?c = "encodeCursor (au_Time ?e) (au_ID ?e)"
    have e: "?e = L ! (k + n - 1)" using True n by simp
    then have "?e \<in> set L" using True n by simp
    then have dc: "decodeCursor ?c = Some (audit_key ?e)" using less(4) by (simp add: L_def cursor_roundtrip)
    have "after_cursor ?c L = dropWhile (\<lambda>x. \<not> audit_key x < audit_key (L ! (k + n - 1))) L"
      using dc e by (simp add: after_cursor_def encodeCursor_nonempty)
    also have "\<dots> = drop (k + n) L"
      using newest_first_desc[OF less(3)] True n by (intro drop_while_desc) (simp_all add: L_def)
    finally have c: "after_cursor ?c L = drop (k + n) L" .
    have "length L - (k + n) < length L - k" using True n by simp
    then have "export_pages (fl\<lparr>af_Cursor := ?c\<rparr>) f = Some (drop (k + n) L)"
      using less(1)[of "fl\<lparr>af_Cursor := ?c\<rparr>" "k + n"] less(2-4) c by (simp add: L_def)
    moreover have "take n (drop k L) @ drop (k + n) L = drop k L"
      by (metis append_take_drop_id drop_drop add.commute)
    ultimately show ?thesis
      using Q True encodeCursor_nonempty by (subst export_pages.simps) (simp add: L_def)
  qed
qed

lemma Append_torn:
  assumes "flog_ok f" "snd (Append rnd now AWritten e f)" "torn_day (day_of (au_Time (stamp rnd now e))) f"
  shows "mset (log_entries (fst (Append rnd now AWritten e f))) = mset (log_entries f)"
proof -
  define d where "d = day_of (au_Time (stamp rnd now e))"
  define reopen where "reopen = (case fg_cur f of None \<Rightarrow> True | Some (d', _) \<Rightarrow> d' \<noteq> d)"
  define f1 where "f1 = (if reopen then (set_day d (day_lines d f) f)\<lparr>fg_cur := Some (d, True)\<rparr> else f)"
  have f1: "flog_ok f1" "mset (log_entries f1) = mset (log_entries f)" "day_lines d f1 = day_lines d f"
    using open_day[OF assms(1), of d] assms(1) by (auto simp: f1_def)
  have "line_entries (line_add (day_lines d f1) (stamp rnd now e)) = line_entries (day_lines d f1)"
    using assms(3) f1(3) by (simp add: line_entries_add torn_day_def d_def)
  then have "mset (log_entries (set_day d (line_add (day_lines d f1) (stamp rnd now e)) f1)) = mset (log_entries f)"
    using set_day_log[of f1 d "line_add (day_lines d f1) (stamp rnd now e)"] f1 by (simp add: flog_ok_def)
  moreover have "fst (Append rnd now AWritten e f) = set_day d (line_add (day_lines d f1) (stamp rnd now e)) f1"
    using assms(2) unfolding Append_def Let_def f1_def reopen_def d_def by (simp split: if_splits)
  ultimately show ?thesis by simp
qed

subsection \<open>Properties\<close>

definition demo_entry :: "string \<Rightarrow> time \<Rightarrow> audit_entry" where
  "demo_entry i t = \<lparr>au_ID = i, au_Time = t, au_Actor = ''admin'', au_ActorType = ''control-plane'', au_Action = ''login'',
     au_Target = [], au_SiteID = [], au_Result = ''ok'', au_Message = ''console login'', au_Detail = []\<rparr>"

definition demo_log :: file_log where
  "demo_log = \<lparr>fg_files = [(day_of unix_epoch, [ALine (demo_entry ''aud_1'' unix_epoch)]),
       (day_of unix_epoch + 1, [AJunk, ALine (demo_entry ''aud_2'' (unix_epoch + day_length))])],
     fg_cur = Some (day_of unix_epoch + 1, True)\<rparr>"

definition any_filter :: audit_filter where
  "any_filter = \<lparr>af_Since = 0, af_Until = 0, af_SiteID = [], af_SiteIDs = [], af_Action = [], af_Actor = [],
     af_Limit = 1, af_Cursor = []\<rparr>"

lemma day_of_demo: "day_of unix_epoch = 719162" "day_of (unix_epoch + 86400000000000) = 719163"
  by (simp_all add: day_of_def unix_epoch_def)

lemma demo_log_ok: "flog_ok demo_log"
  by (simp add: flog_ok_def demo_log_def day_of_demo demo_entry_def)

lemma demo_log_entries:
  "log_entries demo_log = [demo_entry ''aud_1'' unix_epoch, demo_entry ''aud_2'' (unix_epoch + day_length)]"
  by (simp add: log_entries_def demo_log_def)

lemma demo_cursor_ok: "cursor_ok (demo_entry ''aud_1'' unix_epoch)" "cursor_ok (demo_entry ''aud_2'' (unix_epoch + day_length))"
  by code_simp+

text \<open>C27: an export is complete.  Following the cursors from the first page on, the export
  ends, and its pages put together are the matching entries of all files, each exactly
  once and newest first, whatever the size of a page.  Needed: no two matching entries
  share time and ID, and their IDs are printable, as the generated ones are.\<close>

theorem audit_export:
  assumes "flog_ok f" and "keys_distinct fl f" and "\<forall>e \<in> set (log_entries f). cursor_ok e" and "af_Cursor fl = []"
  shows "\<exists>es. export_pages fl f = Some es \<and> mset es = mset (filter (matches fl) (log_entries f)) \<and>
    sorted_wrt (\<lambda>x y. audit_key y < audit_key x) es"
proof -
  have "set (newest_first fl f) \<subseteq> set (log_entries f)" by (auto simp: newest_first_def)
  then have "export_pages fl f = Some (drop 0 (newest_first fl f))"
    using assms by (intro export_from) (auto simp: after_cursor_def)
  moreover have "mset (newest_first fl f) = mset (filter (matches fl) (log_entries f))" by (simp add: newest_first_def)
  ultimately show ?thesis using newest_first_desc[OF assms(2)] by auto
qed

theorem audit_export_witness:
  "\<exists>es. export_pages any_filter demo_log = Some es \<and>
     mset es = {#demo_entry ''aud_1'' unix_epoch, demo_entry ''aud_2'' (unix_epoch + day_length)#}"
proof -
  have "matches any_filter e" for e by (simp add: matches_def any_filter_def)
  then have m: "filter (matches any_filter) (log_entries demo_log) = log_entries demo_log" by simp
  then have "keys_distinct any_filter demo_log"
    by (simp add: keys_distinct_def demo_log_entries audit_key_def demo_entry_def)
  moreover have "\<forall>e \<in> set (log_entries demo_log). cursor_ok e" using demo_cursor_ok by (simp add: demo_log_entries)
  ultimately show ?thesis
    using audit_export[OF demo_log_ok, of any_filter] m by (auto simp: any_filter_def demo_log_entries)
qed

text \<open>C28: an append that reports success adds exactly its entry to the log, except after a torn
  line: the entry that follows a partial write is joined to it and can never be read, although
  it was reported as written.  Pruning removes only entries older than the cutoff, and of the
  days not being written to it leaves none that ended before the cutoff.\<close>

theorem audit_log_changes:
  assumes "flog_ok f" and "snd (Append rnd now AWritten e f)"
  shows "mset (log_entries (fst (Append rnd now AWritten e f))) =
      (if torn_day (day_of (au_Time (stamp rnd now e))) f then mset (log_entries f)
       else add_mset (stamp rnd now e) (mset (log_entries f))) \<and>
    (\<forall>x \<in> set (log_entries f) - set (log_entries (Prune before f)). au_Time x < before) \<and>
    (\<forall>x \<in> set (log_entries (Prune before f)).
       before \<le> (day_of (au_Time x) + 1) * day_length \<or> map_option fst (fg_cur f) = Some (day_of (au_Time x)))"
proof (intro conjI)
  show "mset (log_entries (fst (Append rnd now AWritten e f))) =
      (if torn_day (day_of (au_Time (stamp rnd now e))) f then mset (log_entries f)
       else add_mset (stamp rnd now e) (mset (log_entries f)))"
  proof (cases "torn_day (day_of (au_Time (stamp rnd now e))) f")
    case False
    then show ?thesis using Append_log[OF assms(1), of rnd now AWritten e] assms(2) by simp
  next
    case True
    then show ?thesis using Append_torn[OF assms(1) assms(2)] by simp
  qed
  show "\<forall>x \<in> set (log_entries f) - set (log_entries (Prune before f)). au_Time x < before"
    using Prune_log[OF assms(1)] by blast
  show "\<forall>x \<in> set (log_entries (Prune before f)).
      before \<le> (day_of (au_Time x) + 1) * day_length \<or> map_option fst (fg_cur f) = Some (day_of (au_Time x))"
  proof
    fix x assume "x \<in> set (log_entries (Prune before f))"
    then obtain d ls where m: "(d, ls) \<in> set (fg_files (Prune before f))" "x \<in> set (line_entries ls)"
      by (auto simp: log_entries_def)
    then have "day_of (au_Time x) = d" using Prune_log[OF assms(1), of before] by (auto simp: flog_ok_def)
    then show "before \<le> (day_of (au_Time x) + 1) * day_length \<or> map_option fst (fg_cur f) = Some (day_of (au_Time x))"
      using Prune_old[OF m(1)] by blast
  qed
qed

theorem audit_log_changes_witness:
  "mset (log_entries (fst (Append None 0 AWritten (demo_entry ''aud_3'' (unix_epoch + day_length)) demo_log))) =
     add_mset (demo_entry ''aud_3'' (unix_epoch + day_length)) (mset (log_entries demo_log))"
proof -
  let ?e = "demo_entry ''aud_3'' (unix_epoch + day_length)"
  have s: "stamp None 0 ?e = ?e" by (simp add: stamp_def demo_entry_def unix_epoch_def)
  have t: "au_Time ?e = unix_epoch + day_length" by (simp add: demo_entry_def)
  have "snd (Append None 0 AWritten ?e demo_log)"
    by (simp add: Append_def s t Let_def day_of_demo) (simp add: demo_log_def day_of_demo)
  moreover have "\<not> torn_day (day_of (au_Time (stamp None 0 ?e))) demo_log"
    by (simp add: s t day_of_demo) (simp add: torn_day_def day_lines_def demo_log_def day_of_demo)
  ultimately show ?thesis using audit_log_changes[OF demo_log_ok, of None 0 ?e 0] s by simp
qed

end
