(* ===== verification/Server.thy ===== *)
theory Server
  imports Store Queue Sessions Audit_Trail
begin

text \<open>
  The control plane's state and its access control: \<^verbatim>\<open>internal/server/server.go\<close> up to the
  handlers (who a bearer token is, what it may see and change, login and its limiter),
  \<^verbatim>\<open>internal/server/activity.go\<close> (the activity ring and \<^verbatim>\<open>note\<close>), and the handlers of
  \<^verbatim>\<open>internal/server/sessions.go\<close> and \<^verbatim>\<open>internal/server/roles.go\<close>, in file mode.

  A handler is a function of the configuration, of the environment of the request (clock,
  random bytes, the outcome of the audit write), of the request and of the server; it
  returns the server and the reply.  A body that does not decode is \<^verbatim>\<open>Inl\<close> of the
  decoder's message.
\<close>

subsection \<open>State\<close>

record config =
  c_sha :: "string \<Rightarrow> string"
  c_AdminToken :: string
  c_AdminUser :: string
  c_AdminPassword :: string
  c_ViewerToken :: string
  c_ViewerUser :: string
  c_ViewerPassword :: string
  c_PublicRead :: bool
  c_SessionTTL :: duration
  c_EnrollmentTokenTTL :: duration

record activity_entry =
  ac_ID :: string
  ac_Time :: time
  ac_Level :: string
  ac_Source :: string
  ac_Chapter :: string
  ac_SiteID :: string
  ac_Site :: string
  ac_Action :: string
  ac_Message :: string
  ac_Detail :: json_map

record activity_log =
  al_ring :: "activity_entry list"
  al_seq :: nat

record metrics =
  m_Events :: nat
  m_Duplicates :: nat
  m_Deliveries :: nat
  m_DeliveryFailures :: nat
  m_Enrollments :: nat
  m_Heartbeats :: nat

record server =
  sv_store :: store
  sv_deliveries :: "delivery queue"
  sv_dlq :: "dead_letter queue"
  sv_metrics :: metrics
  sv_activity :: activity_log
  sv_audit :: "file_log option"
  sv_sessions :: session_store
  sv_roles :: "stored_role list"
  sv_loginFails :: "(string \<times> time list) list"
  sv_EnrollmentToken :: string
  sv_enrollExpires :: time
  sv_crlPEM :: "string option"
  sv_crlNextUpdate :: time

record env =
  en_now :: time
  en_rand :: "nat \<Rightarrow> string option"
  en_audit_rand :: "string option"
  en_audit_io :: audit_io
  en_saved :: bool

record http_request =
  rq_Method :: string
  rq_Authorization :: string
  rq_RemoteAddr :: string
  rq_PeerCN :: "string option"

datatype 'a reply = Fail int string | Done int 'a

subsection \<open>Activity\<close>

definition activity_add :: "time \<Rightarrow> activity_entry \<Rightarrow> activity_log \<Rightarrow> activity_log \<times> activity_entry" where
  "activity_add now e0 a =
     (let sq = al_seq a + 1;
          e1 = (if ac_ID e0 = [] then e0\<lparr>ac_ID := ''act_'' @ format_nat sq\<rparr> else e0);
          e2 = (if ac_Time e1 = 0 then e1\<lparr>ac_Time := now\<rparr> else e1);
          e3 = (if ac_Level e2 = [] then e2\<lparr>ac_Level := ''info''\<rparr> else e2);
          e = (if ac_Source e3 = [] then e3\<lparr>ac_Source := ''control-plane''\<rparr> else e3)
      in (\<lparr>al_ring = keep_last 2000 (al_ring a @ [e]), al_seq = sq\<rparr>, e))"

definition activity_entries :: "int \<Rightarrow> activity_log \<Rightarrow> activity_entry list" where
  "activity_entries limit a =
     (let n = (if limit \<le> 0 \<or> int (length (al_ring a)) < limit then length (al_ring a) else nat limit)
      in drop (length (al_ring a) - n) (al_ring a))"

definition server_note ::
  "env \<Rightarrow> string \<Rightarrow> string \<Rightarrow> string \<Rightarrow> string \<Rightarrow> string \<Rightarrow> string \<Rightarrow> string \<Rightarrow> string \<Rightarrow> json_map \<Rightarrow> server \<Rightarrow> server" where
  "server_note env level source actor chapter siteID site action msg detail sv =
     (let sv1 = sv\<lparr>sv_activity := fst (activity_add (en_now env)
            \<lparr>ac_ID = [], ac_Time = 0, ac_Level = level, ac_Source = source, ac_Chapter = chapter, ac_SiteID = siteID,
             ac_Site = site, ac_Action = action, ac_Message = msg, ac_Detail = detail\<rparr> (sv_activity sv))\<rparr>
      in case sv_audit sv1 of
           None \<Rightarrow> sv1
         | Some f \<Rightarrow>
             if actor = [] then sv1
             else sv1\<lparr>sv_audit := Some (fst (Append (en_audit_rand env) (en_now env) (en_audit_io env)
                 \<lparr>au_ID = [], au_Time = 0, au_Actor = actor, au_ActorType = source, au_Action = action, au_Target = site,
                  au_SiteID = siteID,
                  au_Result = (if level = ''error'' then ''error'' else if level = ''warn'' then ''denied'' else ''ok''),
                  au_Message = msg, au_Detail = detail\<rparr> f))\<rparr>)"

subsection \<open>Bearers\<close>

definition bearer :: "http_request \<Rightarrow> string" where
  "bearer r =
     (if has_prefix (rq_Authorization r) ''Bearer '' then trim_space (trim_prefix (rq_Authorization r) ''Bearer '') else [])"

definition session_lookup :: "time \<Rightarrow> string \<Rightarrow> server \<Rightarrow> server \<times> console_session option" where
  "session_lookup now tok sv =
     (case get_session tok now (sv_sessions sv) of (ss, x) \<Rightarrow> (sv\<lparr>sv_sessions := ss\<rparr>, x))"

fun org_role :: "(string \<Rightarrow> string) \<Rightarrow> string \<Rightarrow> org list \<Rightarrow> string \<times> string" where
  "org_role sha tok [] = ([], [])"
| "org_role sha tok (g # gs) =
     (if org_AdminTokenHash g \<noteq> [] \<and> EqualHash sha (org_AdminTokenHash g) tok then (''admin'', org_ID g)
      else if org_ViewerTokenHash g \<noteq> [] \<and> EqualHash sha (org_ViewerTokenHash g) tok then (''viewer'', org_ID g)
      else org_role sha tok gs)"

definition orgRoleForBearer :: "config \<Rightarrow> string \<Rightarrow> server \<Rightarrow> string \<times> string" where
  "orgRoleForBearer cfg tok sv =
     (if tok = [] then ([], []) else org_role (c_sha cfg) tok (Orgs (st_state (sv_store sv))))"

definition roleForBearer :: "config \<Rightarrow> time \<Rightarrow> string \<Rightarrow> server \<Rightarrow> server \<times> string" where
  "roleForBearer cfg now tok sv0 =
     (if tok = [] then (sv0, [])
      else case session_lookup now tok sv0 of
        (sv, Some s) \<Rightarrow> (sv, cs_Role s)
      | (sv, None) \<Rightarrow>
          (sv,
           case roleForToken (c_sha cfg) tok (sv_roles sv) of
             Some role \<Rightarrow> role
           | None \<Rightarrow>
               if c_AdminToken cfg \<noteq> [] \<and> EqualToken (c_sha cfg) tok (c_AdminToken cfg) then ''admin''
               else if c_ViewerToken cfg \<noteq> [] \<and> EqualToken (c_sha cfg) tok (c_ViewerToken cfg) then ''viewer''
               else fst (orgRoleForBearer cfg tok sv)))"

text \<open>\<^verbatim>\<open>orgForBearer\<close>: Some org for a scoped token, None for one that sees the whole fleet.\<close>

definition orgForBearer :: "config \<Rightarrow> time \<Rightarrow> string \<Rightarrow> server \<Rightarrow> server \<times> string option" where
  "orgForBearer cfg now tok sv0 =
     (if tok = [] then (sv0, None)
      else case session_lookup now tok sv0 of
        (sv, Some s) \<Rightarrow> (sv, if cs_OrgID s \<noteq> [] then Some (cs_OrgID s) else None)
      | (sv, None) \<Rightarrow>
          (sv,
           if c_AdminToken cfg \<noteq> [] \<and> EqualToken (c_sha cfg) tok (c_AdminToken cfg) then None
           else if c_ViewerToken cfg \<noteq> [] \<and> EqualToken (c_sha cfg) tok (c_ViewerToken cfg) then None
           else let og = snd (orgRoleForBearer cfg tok sv) in if og = [] then None else Some og))"

definition siteOrgID :: "string \<Rightarrow> server \<Rightarrow> string" where
  "siteOrgID siteID sv =
     (if siteID = [] then [] else case Site siteID (sv_store sv) of None \<Rightarrow> [] | Some s \<Rightarrow> site_OrgID s)"

definition callerCanSeeSite :: "config \<Rightarrow> time \<Rightarrow> http_request \<Rightarrow> string \<Rightarrow> server \<Rightarrow> server \<times> bool" where
  "callerCanSeeSite cfg now r siteID sv0 =
     (case orgForBearer cfg now (bearer r) sv0 of
        (sv, None) \<Rightarrow> (sv, True)
      | (sv, Some og) \<Rightarrow> (sv, siteID = [] \<or> siteOrgID siteID sv = og))"

definition callerCanMutateSite :: "config \<Rightarrow> time \<Rightarrow> http_request \<Rightarrow> string \<Rightarrow> server \<Rightarrow> server \<times> bool" where
  "callerCanMutateSite cfg now r siteID sv0 =
     (case orgForBearer cfg now (bearer r) sv0 of
        (sv, None) \<Rightarrow> (sv, True)
      | (sv, Some og) \<Rightarrow> (sv, siteID \<noteq> [] \<and> siteOrgID siteID sv = og))"

definition requireGlobalAdmin :: "config \<Rightarrow> time \<Rightarrow> http_request \<Rightarrow> server \<Rightarrow> server \<times> bool" where
  "requireGlobalAdmin cfg now r sv0 =
     (case orgForBearer cfg now (bearer r) sv0 of
        (sv, Some _) \<Rightarrow> (sv, False)
      | (sv, None) \<Rightarrow> (case roleForBearer cfg now (bearer r) sv of (sv', role) \<Rightarrow> (sv', role = ''admin'')))"

definition actorForBearer :: "config \<Rightarrow> time \<Rightarrow> string \<Rightarrow> server \<Rightarrow> server \<times> string" where
  "actorForBearer cfg now tok sv0 =
     (case session_lookup now tok sv0 of
        (sv, Some s) \<Rightarrow> (sv, cs_Actor s)
      | (sv, None) \<Rightarrow>
          (case orgRoleForBearer cfg tok sv of (role, og) \<Rightarrow>
             if role \<noteq> [] then (sv, og @ '':'' @ role)
             else (case roleForBearer cfg now tok sv of (sv', role') \<Rightarrow>
                     (sv', if role' = ''admin'' then c_AdminUser cfg
                           else if role' = ''viewer'' then c_ViewerUser cfg else []))))"

definition isSafeMethod :: "string \<Rightarrow> bool" where
  "isSafeMethod m \<longleftrightarrow> m = ''GET'' \<or> m = ''HEAD'' \<or> m = ''OPTIONS''"

definition admin :: "config \<Rightarrow> env \<Rightarrow> http_request \<Rightarrow> (server \<Rightarrow> server \<times> 'a reply) \<Rightarrow> server \<Rightarrow> server \<times> 'a reply" where
  "admin cfg env r handler sv0 =
     (if c_PublicRead cfg \<and> rq_Method r = ''GET'' then handler sv0
      else case roleForBearer cfg (en_now env) (bearer r) sv0 of (sv, role) \<Rightarrow>
        if role = [] then
          (if c_AdminToken cfg = [] \<and> c_ViewerToken cfg = []
           then (sv, Fail 503 ''admin authentication is not configured'')
           else (sv, Fail 401 ''unauthorized''))
        else if \<not> isSafeMethod (rq_Method r) \<and> role \<noteq> ''admin'' then (sv, Fail 403 ''admin role required'')
        else handler sv)"

definition agentSite :: "config \<Rightarrow> http_request \<Rightarrow> string \<Rightarrow> server \<Rightarrow> site option" where
  "agentSite cfg r siteID sv =
     (case Site siteID (sv_store sv) of
        None \<Rightarrow> None
      | Some s \<Rightarrow>
          if site_Revoked s then None
          else if rq_PeerCN r = Some siteID then Some s
          else if EqualHash (c_sha cfg) (site_TokenHash s) (bearer r) then Some s else None)"

subsection \<open>Login\<close>

text \<open>\<^verbatim>\<open>net.SplitHostPort\<close>, the host only.\<close>

definition split_host :: "string \<Rightarrow> string option" where
  "split_host hp =
     (let host_rev = drop 1 (dropWhile (\<lambda>c. c \<noteq> CHR '':'') (rev hp));
          i = length host_rev
      in if CHR '':'' \<notin> set hp then None
         else if hd hp = CHR ''['' then
           (if CHR '']'' \<notin> set hp then None
            else let host = takeWhile (\<lambda>c. c \<noteq> CHR '']'') (tl hp);
                     close = length host + 1
                 in if close + 1 \<noteq> i then None
                    else if CHR ''['' \<in> set (tl hp) \<or> CHR '']'' \<in> set (drop (close + 1) hp) then None
                    else Some host)
         else let host = take i hp
              in if CHR '':'' \<in> set host \<or> CHR ''['' \<in> set hp \<or> CHR '']'' \<in> set hp then None else Some host)"

definition attemptKey :: "string \<Rightarrow> http_request \<Rightarrow> string" where
  "attemptKey bucket r =
     bucket @ CHR 0x00 # (case split_host (rq_RemoteAddr r) of
        None \<Rightarrow> rq_RemoteAddr r
      | Some host \<Rightarrow> if host = [] then rq_RemoteAddr r else host)"

definition fails :: "string \<Rightarrow> server \<Rightarrow> time list" where
  "fails key sv = (case map_of (sv_loginFails sv) key of None \<Rightarrow> [] | Some ts \<Rightarrow> ts)"

definition attemptLimited :: "string \<Rightarrow> time \<Rightarrow> http_request \<Rightarrow> server \<Rightarrow> server \<times> bool" where
  "attemptLimited bucket now r sv =
     (let key = attemptKey bucket r;
          kept = filter (\<lambda>ts. now - 5 * minute < ts) (fails key sv)
      in (sv\<lparr>sv_loginFails := AList.update key kept (sv_loginFails sv)\<rparr>, 5 \<le> length kept))"

definition recordAttempt :: "string \<Rightarrow> time \<Rightarrow> http_request \<Rightarrow> server \<Rightarrow> server" where
  "recordAttempt bucket now r sv =
     (let key = attemptKey bucket r
      in sv\<lparr>sv_loginFails := AList.update key (fails key sv @ [now]) (sv_loginFails sv)\<rparr>)"

definition clearAttempts :: "string \<Rightarrow> http_request \<Rightarrow> server \<Rightarrow> server" where
  "clearAttempts bucket r sv = sv\<lparr>sv_loginFails := AList.delete (attemptKey bucket r) (sv_loginFails sv)\<rparr>"

definition sessionTTL :: "config \<Rightarrow> duration" where
  "sessionTTL cfg = (if 0 < c_SessionTTL cfg then c_SessionTTL cfg else hour)"

definition session_reply :: "console_session \<Rightarrow> json_map" where
  "session_reply s =
     [(''token'', JStr (cs_Token s)), (''expires_at'', JTime (cs_ExpiresAt s)),
      (''user'', JObj [(''username'', JStr (cs_Actor s)), (''role'', JStr (cs_Role s))])]"

definition issueSession :: "config \<Rightarrow> env \<Rightarrow> string \<Rightarrow> string \<Rightarrow> string \<Rightarrow> server \<Rightarrow> server \<times> json_map reply" where
  "issueSession cfg env role actor orgID sv =
     (case mint (en_rand env 0) role actor orgID (sessionTTL cfg) (en_now env) (sv_sessions sv) of
        (ss, None) \<Rightarrow> (sv\<lparr>sv_sessions := ss\<rparr>, Fail 500 ''session mint failed'')
      | (ss, Some s) \<Rightarrow> (sv\<lparr>sv_sessions := ss\<rparr>, Done 200 (session_reply s)))"

definition is_admin_login :: "config \<Rightarrow> string \<Rightarrow> string \<Rightarrow> bool" where
  "is_admin_login cfg username password \<longleftrightarrow>
     c_AdminToken cfg \<noteq> [] \<and> c_AdminPassword cfg \<noteq> [] \<and>
     EqualToken (c_sha cfg) (trim_space username) (c_AdminUser cfg) \<and>
     EqualToken (c_sha cfg) password (c_AdminPassword cfg)"

definition is_viewer_login :: "config \<Rightarrow> string \<Rightarrow> string \<Rightarrow> bool" where
  "is_viewer_login cfg username password \<longleftrightarrow>
     c_ViewerToken cfg \<noteq> [] \<and> c_ViewerPassword cfg \<noteq> [] \<and>
     EqualToken (c_sha cfg) (trim_space username) (c_ViewerUser cfg) \<and>
     EqualToken (c_sha cfg) password (c_ViewerPassword cfg)"

definition login :: "config \<Rightarrow> env \<Rightarrow> http_request \<Rightarrow> string + (string \<times> string) \<Rightarrow> server \<Rightarrow> server \<times> json_map reply" where
  "login cfg env r input sv0 =
     (case input of
        Inl e \<Rightarrow> (sv0, Fail 400 (''invalid JSON: '' @ e))
      | Inr (username, password) \<Rightarrow>
          (case attemptLimited ''login'' (en_now env) r sv0 of (sv, limited) \<Rightarrow>
             if limited then (sv, Fail 429 ''too many login attempts'')
             else if is_admin_login cfg username password then
               issueSession cfg env ''admin'' (c_AdminUser cfg) []
                 (clearAttempts ''login'' r
                   (server_note env ''ok'' ''control-plane'' (c_AdminUser cfg) [] [] [] ''login'' ''console login'' [(''role'', JStr ''admin'')] sv))
             else if is_viewer_login cfg username password then
               issueSession cfg env ''viewer'' (c_ViewerUser cfg) []
                 (clearAttempts ''login'' r
                   (server_note env ''ok'' ''control-plane'' (c_ViewerUser cfg) [] [] [] ''login'' ''console login'' [(''role'', JStr ''viewer'')] sv))
             else if c_AdminToken cfg = [] \<and> c_ViewerToken cfg = [] then (sv, Fail 503 ''login is not configured'')
             else (recordAttempt ''login'' (en_now env) r
                     (if trim_space username = [] then sv
                      else server_note env ''warn'' ''control-plane'' (trim_space username) [] [] [] ''login'' ''invalid username or password'' [] sv),
                   Fail 401 ''invalid username or password'')))"

definition authMe :: "config \<Rightarrow> env \<Rightarrow> http_request \<Rightarrow> server \<Rightarrow> server \<times> json_map reply" where
  "authMe cfg env r sv0 =
     (case roleForBearer cfg (en_now env) (bearer r) sv0 of (sv1, role) \<Rightarrow>
        if role = [] then (sv1, Done 200 [(''authenticated'', JBool False)])
        else case actorForBearer cfg (en_now env) (bearer r) sv1 of (sv2, actor) \<Rightarrow>
          let user = (if actor \<noteq> [] then actor else if role = ''viewer'' then c_ViewerUser cfg else c_AdminUser cfg)
          in case session_lookup (en_now env) (bearer r) sv2 of (sv3, x) \<Rightarrow>
               (sv3, Done 200 ([(''authenticated'', JBool True),
                   (''user'', JObj [(''username'', JStr user), (''role'', JStr role)])] @
                  (case x of None \<Rightarrow> [] | Some s \<Rightarrow> [(''expires_at'', JTime (cs_ExpiresAt s)), (''session'', JBool True)]))))"

definition authRefresh :: "config \<Rightarrow> env \<Rightarrow> http_request \<Rightarrow> server \<Rightarrow> server \<times> json_map reply" where
  "authRefresh cfg env r sv =
     (if bearer r = [] then (sv, Fail 401 ''unauthorized'')
      else case rotate (en_rand env 0) (bearer r) (sessionTTL cfg) (en_now env) (sv_sessions sv) of
        (ss, RotateFailed) \<Rightarrow> (sv\<lparr>sv_sessions := ss\<rparr>, Fail 500 ''session rotate failed'')
      | (ss, NoSession) \<Rightarrow>
          (sv\<lparr>sv_sessions := ss\<rparr>, Fail 401 ''session expired or unknown; static tokens cannot be refreshed'')
      | (ss, Rotated s) \<Rightarrow> (sv\<lparr>sv_sessions := ss\<rparr>, Done 200 (session_reply s)))"

definition authLogout :: "env \<Rightarrow> http_request \<Rightarrow> server \<Rightarrow> server \<times> json_map reply" where
  "authLogout env r sv0 =
     (if bearer r = [] then (sv0, Fail 401 ''unauthorized'')
      else case session_lookup (en_now env) (bearer r) sv0 of
        (sv, None) \<Rightarrow> (sv, Done 204 [])
      | (sv, Some _) \<Rightarrow> (sv\<lparr>sv_sessions := revoke (bearer r) (sv_sessions sv)\<rparr>, Done 204 []))"

subsection \<open>Roles\<close>

definition role_error_text :: "role_error \<Rightarrow> string" where
  "role_error_text e =
     (case e of RoleName \<Rightarrow> ''role name is required'' | RoleExists \<Rightarrow> ''role already exists'' | RoleIO \<Rightarrow> ''i/o error'')"

definition roleCreate :: "config \<Rightarrow> env \<Rightarrow> http_request \<Rightarrow> string + (string \<times> bool) \<Rightarrow> server \<Rightarrow> server \<times> json_map reply" where
  "roleCreate cfg env r input sv =
     (case input of
        Inl e \<Rightarrow> (sv, Fail 400 (''invalid JSON: '' @ e))
      | Inr (name, wr) \<Rightarrow>
          (case role_create (c_sha cfg) (en_rand env 0) (en_saved env) (en_now env) name wr (sv_roles sv) of
             (rs, Inl e) \<Rightarrow> (sv\<lparr>sv_roles := rs\<rparr>, Fail 400 (role_error_text e))
           | (rs, Inr role) \<Rightarrow>
               (case actorForBearer cfg (en_now env) (bearer r) (sv\<lparr>sv_roles := rs\<rparr>) of (sv1, actor) \<Rightarrow>
                  (server_note env ''ok'' ''control-plane'' actor [] [] (cr_Name role) ''role.create''
                     (''custom role created: '' @ cr_Name role) [(''write'', JBool (cr_Write role))] sv1,
                   Done 201 [(''name'', JStr (cr_Name role)), (''token'', JStr (cr_Token role)),
                     (''write'', JBool (cr_Write role)), (''created_at'', JTime (cr_CreatedAt role))]))))"

definition roleDelete :: "config \<Rightarrow> env \<Rightarrow> http_request \<Rightarrow> string \<Rightarrow> server \<Rightarrow> server \<times> json_map reply" where
  "roleDelete cfg env r name sv =
     (case role_delete name (sv_roles sv) of
        (rs, False) \<Rightarrow> (sv\<lparr>sv_roles := rs\<rparr>, Fail 404 ''role not found'')
      | (rs, True) \<Rightarrow>
          (case actorForBearer cfg (en_now env) (bearer r) (sv\<lparr>sv_roles := rs\<rparr>) of (sv1, actor) \<Rightarrow>
             (server_note env ''ok'' ''control-plane'' actor [] [] name ''role.delete'' (''custom role deleted: '' @ name) [] sv1,
              Done 204 [])))"

definition enrollRotate :: "config \<Rightarrow> env \<Rightarrow> http_request \<Rightarrow> server \<Rightarrow> server \<times> json_map reply" where
  "enrollRotate cfg env r sv0 =
     (case NewToken (en_rand env 0) of
        None \<Rightarrow> (sv0, Fail 500 ''token generation failed'')
      | Some tok \<Rightarrow>
          (let ex = (if 0 < c_EnrollmentTokenTTL cfg then en_now env + c_EnrollmentTokenTTL cfg else 0)
           in case actorForBearer cfg (en_now env) (bearer r) (sv0\<lparr>sv_EnrollmentToken := tok, sv_enrollExpires := ex\<rparr>) of
                (sv1, actor) \<Rightarrow>
                  (server_note env ''ok'' ''control-plane'' actor [] [] [] ''enroll.rotate'' ''enrollment token rotated'' [] sv1,
                   Done 200 ((''enrollment_token'', JStr tok) # (if ex = 0 then [] else [(''expires_at'', JTime ex)])))))"

subsection \<open>Activity and audit handlers\<close>

fun keep_visible :: "config \<Rightarrow> time \<Rightarrow> http_request \<Rightarrow> ('a \<Rightarrow> string) \<Rightarrow> 'a list \<Rightarrow> server \<Rightarrow> server \<times> 'a list" where
  "keep_visible cfg now r site [] sv = (sv, [])"
| "keep_visible cfg now r site (x # xs) sv =
     (case callerCanSeeSite cfg now r (site x) sv of (sv1, ok) \<Rightarrow>
        (case keep_visible cfg now r site xs sv1 of (sv2, ys) \<Rightarrow> (sv2, if ok then x # ys else ys)))"

definition activityList :: "config \<Rightarrow> time \<Rightarrow> http_request \<Rightarrow> int \<Rightarrow> server \<Rightarrow> server \<times> activity_entry list" where
  "activityList cfg now r limit0 sv =
     (let limit = min (if limit0 \<le> 0 then 250 else limit0) 1000
      in keep_visible cfg now r ac_SiteID (activity_entries limit (sv_activity sv)) sv)"

fun activity_post :: "time \<Rightarrow> activity_entry list \<Rightarrow> activity_log \<Rightarrow> activity_log \<times> activity_entry list" where
  "activity_post now [] a = (a, [])"
| "activity_post now (e # es) a =
     (case activity_add now (if ac_Source e = [] then e\<lparr>ac_Source := ''sim''\<rparr> else e) a of (a1, e') \<Rightarrow>
        (case activity_post now es a1 of (a2, es') \<Rightarrow> (a2, e' # es')))"

definition activityPost :: "env \<Rightarrow> string + (activity_entry list \<times> activity_entry) \<Rightarrow> server \<Rightarrow> server \<times> json_map reply" where
  "activityPost env input sv =
     (case input of
        Inl e \<Rightarrow> (sv, Fail 400 (''invalid JSON: '' @ e))
      | Inr (entries, single) \<Rightarrow>
          if entries = [] \<and> ac_Message single = [] then (sv, Fail 400 ''message is required'')
          else (case activity_post (en_now env) (if entries = [] then [single] else entries) (sv_activity sv) of (a, es) \<Rightarrow>
                  (sv\<lparr>sv_activity := a\<rparr>, Done 201 [(''accepted'', JInt (int (length es)))])))"

definition siteIDsForOrg :: "string \<Rightarrow> server \<Rightarrow> string list" where
  "siteIDsForOrg orgID sv = map site_ID (filter (\<lambda>s. site_OrgID s = orgID) (Sites (st_state (sv_store sv))))"

text \<open>The scope of an audit query: None for an answer without a query.\<close>

definition audit_scope :: "config \<Rightarrow> time \<Rightarrow> http_request \<Rightarrow> audit_filter \<Rightarrow> server \<Rightarrow> server \<times> audit_filter option" where
  "audit_scope cfg now r fl sv0 =
     (if af_SiteID fl \<noteq> [] then
        (case callerCanSeeSite cfg now r (af_SiteID fl) sv0 of (sv, ok) \<Rightarrow> (sv, if ok then Some fl else None))
      else case orgForBearer cfg now (bearer r) sv0 of
             (sv, None) \<Rightarrow> (sv, Some fl)
           | (sv, Some og) \<Rightarrow>
               let ids = siteIDsForOrg og sv
               in (sv, if ids = [] then None else Some (fl\<lparr>af_SiteIDs := ids\<rparr>)))"

definition auditList :: "config \<Rightarrow> env \<Rightarrow> http_request \<Rightarrow> audit_filter \<Rightarrow> server \<Rightarrow> server \<times> (audit_entry list \<times> string)" where
  "auditList cfg env r fl0 sv0 =
     (case sv_audit sv0 of
        None \<Rightarrow> (sv0, ([], []))
      | Some f \<Rightarrow>
          (let fl = (if af_Limit fl0 \<le> 0 then fl0\<lparr>af_Limit := 250\<rparr> else fl0)
           in case audit_scope cfg (en_now env) r fl sv0 of
                (sv, None) \<Rightarrow> (sv, ([], []))
              | (sv, Some fl') \<Rightarrow> (sv, Query (\<lambda>_. True) fl' f)))"

definition auditExport :: "config \<Rightarrow> env \<Rightarrow> http_request \<Rightarrow> audit_filter \<Rightarrow> server \<Rightarrow> server \<times> audit_entry list option" where
  "auditExport cfg env r fl0 sv0 =
     (case sv_audit sv0 of
        None \<Rightarrow> (sv0, Some [])
      | Some f \<Rightarrow>
          (case audit_scope cfg (en_now env) r (fl0\<lparr>af_Limit := 1000\<rparr>) sv0 of
             (sv, None) \<Rightarrow> (sv, Some [])
           | (sv, Some fl) \<Rightarrow> (sv, export_pages fl f)))"

subsection \<open>Lemmas: looking tokens up\<close>

text \<open>Resolving a token may drop expired sessions; nothing else of the server changes, and no
  later lookup can tell.\<close>

definition touched :: "time \<Rightarrow> server \<Rightarrow> server \<Rightarrow> bool" where
  "touched now sv sv' \<longleftrightarrow>
     sv' = sv\<lparr>sv_sessions := sv_sessions sv'\<rparr> \<and> ss_ok (sv_sessions sv') \<and>
     (\<forall>now' k. now \<le> now' \<longrightarrow> session_of now' (sv_sessions sv') k = session_of now' (sv_sessions sv) k)"

lemma touched_refl: "ss_ok (sv_sessions sv) \<Longrightarrow> touched now sv sv"
  by (simp add: touched_def)

lemma touched_trans: "touched now a b \<Longrightarrow> touched now b c \<Longrightarrow> touched now a c"
  unfolding touched_def by (metis server.surjective server.update_convs(7))

lemma touched_ok: "touched now sv sv' \<Longrightarrow> ss_ok (sv_sessions sv')"
  by (simp add: touched_def)

lemma touched_fields:
  assumes "touched now sv sv'"
  shows "sv_store sv' = sv_store sv" "sv_deliveries sv' = sv_deliveries sv" "sv_dlq sv' = sv_dlq sv"
    "sv_metrics sv' = sv_metrics sv" "sv_activity sv' = sv_activity sv" "sv_audit sv' = sv_audit sv"
    "sv_roles sv' = sv_roles sv" "sv_loginFails sv' = sv_loginFails sv" "sv_EnrollmentToken sv' = sv_EnrollmentToken sv"
    "sv_enrollExpires sv' = sv_enrollExpires sv" "sv_crlPEM sv' = sv_crlPEM sv" "sv_crlNextUpdate sv' = sv_crlNextUpdate sv"
proof -
  have e: "sv' = sv\<lparr>sv_sessions := sv_sessions sv'\<rparr>" using assms by (simp add: touched_def)
  show "sv_store sv' = sv_store sv" by (subst e) simp
  show "sv_deliveries sv' = sv_deliveries sv" by (subst e) simp
  show "sv_dlq sv' = sv_dlq sv" by (subst e) simp
  show "sv_metrics sv' = sv_metrics sv" by (subst e) simp
  show "sv_activity sv' = sv_activity sv" by (subst e) simp
  show "sv_audit sv' = sv_audit sv" by (subst e) simp
  show "sv_roles sv' = sv_roles sv" by (subst e) simp
  show "sv_loginFails sv' = sv_loginFails sv" by (subst e) simp
  show "sv_EnrollmentToken sv' = sv_EnrollmentToken sv" by (subst e) simp
  show "sv_enrollExpires sv' = sv_enrollExpires sv" by (subst e) simp
  show "sv_crlPEM sv' = sv_crlPEM sv" by (subst e) simp
  show "sv_crlNextUpdate sv' = sv_crlNextUpdate sv" by (subst e) simp
qed

lemma touched_session: "touched now sv sv' \<Longrightarrow> now \<le> now' \<Longrightarrow> session_of now' (sv_sessions sv') k = session_of now' (sv_sessions sv) k"
  by (simp add: touched_def)

lemma session_lookup_touched:
  assumes "ss_ok (sv_sessions sv)"
  shows "touched now sv (fst (session_lookup now tok sv)) \<and> snd (session_lookup now tok sv) = session_of now (sv_sessions sv) tok"
proof -
  obtain ss x where g: "get_session tok now (sv_sessions sv) = (ss, x)" by fastforce
  have "ss_ok ss" "x = session_of now (sv_sessions sv) tok"
    using ss_ok_get[OF assms, of tok now] get_session_snd[OF assms, of tok now] g by simp_all
  moreover have "session_of now' ss k = session_of now' (sv_sessions sv) k" if "now \<le> now'" for now' k
    using session_of_get[OF assms that, of tok k] g by simp
  ultimately show ?thesis using g by (simp add: session_lookup_def touched_def)
qed

text \<open>What a token resolves to, as a function of the server.\<close>

definition role_of :: "config \<Rightarrow> time \<Rightarrow> string \<Rightarrow> server \<Rightarrow> string" where
  "role_of cfg now tok sv =
     (if tok = [] then []
      else case session_of now (sv_sessions sv) tok of
        Some s \<Rightarrow> cs_Role s
      | None \<Rightarrow>
          (case roleForToken (c_sha cfg) tok (sv_roles sv) of
             Some role \<Rightarrow> role
           | None \<Rightarrow>
               if c_AdminToken cfg \<noteq> [] \<and> EqualToken (c_sha cfg) tok (c_AdminToken cfg) then ''admin''
               else if c_ViewerToken cfg \<noteq> [] \<and> EqualToken (c_sha cfg) tok (c_ViewerToken cfg) then ''viewer''
               else fst (orgRoleForBearer cfg tok sv)))"

definition scope_of :: "config \<Rightarrow> time \<Rightarrow> string \<Rightarrow> server \<Rightarrow> string option" where
  "scope_of cfg now tok sv =
     (if tok = [] then None
      else case session_of now (sv_sessions sv) tok of
        Some s \<Rightarrow> if cs_OrgID s \<noteq> [] then Some (cs_OrgID s) else None
      | None \<Rightarrow>
          if c_AdminToken cfg \<noteq> [] \<and> EqualToken (c_sha cfg) tok (c_AdminToken cfg) then None
          else if c_ViewerToken cfg \<noteq> [] \<and> EqualToken (c_sha cfg) tok (c_ViewerToken cfg) then None
          else let og = snd (orgRoleForBearer cfg tok sv) in if og = [] then None else Some og)"

lemma orgRole_touched: "touched now sv sv' \<Longrightarrow> orgRoleForBearer cfg tok sv' = orgRoleForBearer cfg tok sv"
  by (simp add: orgRoleForBearer_def touched_fields)

lemma role_of_touched: "touched now sv sv' \<Longrightarrow> role_of cfg now tok sv' = role_of cfg now tok sv"
  by (simp add: role_of_def touched_session touched_fields orgRole_touched split: option.split)

lemma scope_of_touched: "touched now sv sv' \<Longrightarrow> scope_of cfg now tok sv' = scope_of cfg now tok sv"
  by (simp add: scope_of_def touched_session touched_fields orgRole_touched split: option.split)

lemma roleForBearer_touched:
  assumes "ss_ok (sv_sessions sv)"
  shows "touched now sv (fst (roleForBearer cfg now tok sv)) \<and> snd (roleForBearer cfg now tok sv) = role_of cfg now tok sv"
proof -
  obtain sv' x where l: "session_lookup now tok sv = (sv', x)" by fastforce
  have t: "touched now sv sv'" "x = session_of now (sv_sessions sv) tok"
    using session_lookup_touched[OF assms, of now tok] l by simp_all
  then show ?thesis
    using assms by (cases "session_of now (sv_sessions sv) tok") (simp_all add: roleForBearer_def role_of_def l touched_refl touched_fields orgRole_touched split: option.split)
qed

lemma orgForBearer_touched:
  assumes "ss_ok (sv_sessions sv)"
  shows "touched now sv (fst (orgForBearer cfg now tok sv)) \<and> snd (orgForBearer cfg now tok sv) = scope_of cfg now tok sv"
proof -
  obtain sv' x where l: "session_lookup now tok sv = (sv', x)" by fastforce
  have t: "touched now sv sv'" "x = session_of now (sv_sessions sv) tok"
    using session_lookup_touched[OF assms, of now tok] l by simp_all
  then show ?thesis
    using assms by (cases "session_of now (sv_sessions sv) tok") (simp_all add: orgForBearer_def scope_of_def l touched_refl touched_fields orgRole_touched)
qed

lemma siteOrgID_touched: "touched now sv sv' \<Longrightarrow> siteOrgID i sv' = siteOrgID i sv"
  by (simp add: siteOrgID_def touched_fields)

definition may_see :: "config \<Rightarrow> time \<Rightarrow> http_request \<Rightarrow> string \<Rightarrow> server \<Rightarrow> bool" where
  "may_see cfg now r i sv \<longleftrightarrow> (\<forall>og. scope_of cfg now (bearer r) sv = Some og \<longrightarrow> i = [] \<or> siteOrgID i sv = og)"

definition may_mutate :: "config \<Rightarrow> time \<Rightarrow> http_request \<Rightarrow> string \<Rightarrow> server \<Rightarrow> bool" where
  "may_mutate cfg now r i sv \<longleftrightarrow> (\<forall>og. scope_of cfg now (bearer r) sv = Some og \<longrightarrow> i \<noteq> [] \<and> siteOrgID i sv = og)"

lemma callerCanSeeSite_touched:
  assumes "ss_ok (sv_sessions sv)"
  shows "touched now sv (fst (callerCanSeeSite cfg now r i sv)) \<and> snd (callerCanSeeSite cfg now r i sv) = may_see cfg now r i sv"
proof -
  obtain sv' x where l: "orgForBearer cfg now (bearer r) sv = (sv', x)" by fastforce
  have "touched now sv sv'" "x = scope_of cfg now (bearer r) sv"
    using orgForBearer_touched[OF assms, of now cfg "bearer r"] l by simp_all
  then show ?thesis by (cases "scope_of cfg now (bearer r) sv") (simp_all add: callerCanSeeSite_def may_see_def l siteOrgID_touched)
qed

lemma callerCanMutateSite_touched:
  assumes "ss_ok (sv_sessions sv)"
  shows "touched now sv (fst (callerCanMutateSite cfg now r i sv)) \<and> snd (callerCanMutateSite cfg now r i sv) = may_mutate cfg now r i sv"
proof -
  obtain sv' x where l: "orgForBearer cfg now (bearer r) sv = (sv', x)" by fastforce
  have "touched now sv sv'" "x = scope_of cfg now (bearer r) sv"
    using orgForBearer_touched[OF assms, of now cfg "bearer r"] l by simp_all
  then show ?thesis by (cases "scope_of cfg now (bearer r) sv") (simp_all add: callerCanMutateSite_def may_mutate_def l siteOrgID_touched)
qed

lemma requireGlobalAdmin_touched:
  assumes "ss_ok (sv_sessions sv)"
  shows "touched now sv (fst (requireGlobalAdmin cfg now r sv)) \<and>
    snd (requireGlobalAdmin cfg now r sv) = (scope_of cfg now (bearer r) sv = None \<and> role_of cfg now (bearer r) sv = ''admin'')"
proof -
  obtain sv' x where l: "orgForBearer cfg now (bearer r) sv = (sv', x)" by fastforce
  have t: "touched now sv sv'" "x = scope_of cfg now (bearer r) sv"
    using orgForBearer_touched[OF assms, of now cfg "bearer r"] l by simp_all
  obtain sv2 role where l2: "roleForBearer cfg now (bearer r) sv' = (sv2, role)" by fastforce
  have "touched now sv' sv2" "role = role_of cfg now (bearer r) sv'"
    using roleForBearer_touched[OF touched_ok[OF t(1)], of now cfg "bearer r"] l2 by simp_all
  then show ?thesis
    using t touched_trans[OF t(1)] by (cases "scope_of cfg now (bearer r) sv") (simp_all add: requireGlobalAdmin_def l l2 role_of_touched)
qed

lemma actorForBearer_touched:
  assumes "ss_ok (sv_sessions sv)"
  shows "touched now sv (fst (actorForBearer cfg now tok sv))"
proof -
  obtain sv' x where l: "session_lookup now tok sv = (sv', x)" by fastforce
  have t: "touched now sv sv'" using session_lookup_touched[OF assms, of now tok] l by simp
  obtain sv2 role where l2: "roleForBearer cfg now tok sv' = (sv2, role)" by fastforce
  have "touched now sv' sv2" using roleForBearer_touched[OF touched_ok[OF t], of now cfg tok] l2 by simp
  then show ?thesis
    using t touched_trans[OF t] by (cases x) (simp_all add: actorForBearer_def l l2 split: prod.split)
qed

lemma keep_visible_touched:
  "ss_ok (sv_sessions sv) \<Longrightarrow> touched now sv (fst (keep_visible cfg now r site xs sv)) \<and>
   snd (keep_visible cfg now r site xs sv) = filter (\<lambda>x. may_see cfg now r (site x) sv) xs"
proof (induction xs arbitrary: sv)
  case (Cons x xs)
  obtain sv1 ok where l: "callerCanSeeSite cfg now r (site x) sv = (sv1, ok)" by fastforce
  have t: "touched now sv sv1" "ok = may_see cfg now r (site x) sv"
    using callerCanSeeSite_touched[OF Cons.prems, of now cfg r "site x"] l by simp_all
  have m: "may_see cfg now r i sv1 = may_see cfg now r i sv" for i
    using t(1) by (simp add: may_see_def scope_of_touched siteOrgID_touched)
  obtain sv2 ys where l2: "keep_visible cfg now r site xs sv1 = (sv2, ys)" by fastforce
  show ?case using Cons.IH[OF touched_ok[OF t(1)]] l l2 t touched_trans[OF t(1)] m by simp
qed (simp add: touched_refl)

lemma note_sessions [simp]:
  "sv_sessions (server_note env a b c d e f g h i sv) = sv_sessions sv"
  "sv_store (server_note env a b c d e f g h i sv) = sv_store sv"
  "sv_deliveries (server_note env a b c d e f g h i sv) = sv_deliveries sv"
  "sv_dlq (server_note env a b c d e f g h i sv) = sv_dlq sv"
  "sv_metrics (server_note env a b c d e f g h i sv) = sv_metrics sv"
  "sv_roles (server_note env a b c d e f g h i sv) = sv_roles sv"
  "sv_loginFails (server_note env a b c d e f g h i sv) = sv_loginFails sv"
  "sv_EnrollmentToken (server_note env a b c d e f g h i sv) = sv_EnrollmentToken sv"
  "sv_enrollExpires (server_note env a b c d e f g h i sv) = sv_enrollExpires sv"
  "sv_crlPEM (server_note env a b c d e f g h i sv) = sv_crlPEM sv"
  by (simp_all add: server_note_def Let_def split: option.split)

subsection \<open>Lemmas: the gate\<close>

text \<open>The ways a token can hold the admin role.\<close>

definition admin_token :: "config \<Rightarrow> time \<Rightarrow> string \<Rightarrow> server \<Rightarrow> bool" where
  "admin_token cfg now tok sv \<longleftrightarrow>
     (\<exists>s. session_of now (sv_sessions sv) tok = Some s \<and> cs_Role s = ''admin'') \<or>
     (\<exists>x \<in> set (sv_roles sv). sr_Write x \<and> EqualHash (c_sha cfg) (sr_TokenHash x) tok) \<or>
     (c_AdminToken cfg \<noteq> [] \<and> EqualToken (c_sha cfg) tok (c_AdminToken cfg)) \<or>
     (\<exists>g \<in> set (Orgs (st_state (sv_store sv))). EqualHash (c_sha cfg) (org_AdminTokenHash g) tok)"

lemma roleForToken_admin:
  "roleForToken sha tok rs = Some ''admin'' \<Longrightarrow> \<exists>x \<in> set rs. sr_Write x \<and> EqualHash sha (sr_TokenHash x) tok"
  by (induction rs) (auto split: if_splits)

lemma org_role_admin: "fst (org_role sha tok gs) = ''admin'' \<Longrightarrow> \<exists>g \<in> set gs. EqualHash sha (org_AdminTokenHash g) tok"
  by (induction gs) (auto split: if_splits)

lemma role_of_admin: "role_of cfg now tok sv = ''admin'' \<Longrightarrow> admin_token cfg now tok sv"
  by (auto simp: role_of_def admin_token_def orgRoleForBearer_def split: if_splits option.splits
      dest: roleForToken_admin org_role_admin)

lemma admin_cases:
  assumes "ss_ok (sv_sessions sv)" "\<not> isSafeMethod (rq_Method r)"
  obtains (refused) code msg where "snd (admin cfg env r h sv) = Fail code msg" "touched (en_now env) sv (fst (admin cfg env r h sv))"
      "code \<in> {401, 403, 503}" "role_of cfg (en_now env) (bearer r) sv \<noteq> ''admin''"
  | (granted) sv1 where "admin cfg env r h sv = h sv1" "touched (en_now env) sv sv1"
      "role_of cfg (en_now env) (bearer r) sv = ''admin''"
proof -
  obtain sv1 role where l: "roleForBearer cfg (en_now env) (bearer r) sv = (sv1, role)" by fastforce
  have t: "touched (en_now env) sv sv1" "role = role_of cfg (en_now env) (bearer r) sv"
    using roleForBearer_touched[OF assms(1), of "en_now env" cfg "bearer r"] l by simp_all
  have g: "rq_Method r \<noteq> ''GET''" using assms(2) by (auto simp: isSafeMethod_def)
  show thesis
  proof (cases "role = ''admin''")
    case True
    then have "admin cfg env r h sv = h sv1" using l g by (simp add: admin_def)
    then show ?thesis using granted t True by simp
  next
    case False
    then have "\<exists>code msg. admin cfg env r h sv = (sv1, Fail code msg) \<and> code \<in> {401, 403, 503}"
      using l g assms(2) by (simp add: admin_def)
    then show ?thesis using refused t False by auto
  qed
qed

subsection \<open>Lemmas: console calls\<close>

text \<open>The calls that create, renew and end sessions.\<close>

datatype console_call =
    CLogin http_request "string + (string \<times> string)"
  | CRefresh http_request
  | CLogout http_request
  | CMe http_request

fun console_step :: "config \<Rightarrow> env \<times> console_call \<Rightarrow> server \<Rightarrow> server" where
  "console_step cfg (env, CLogin r i) sv = fst (login cfg env r i sv)"
| "console_step cfg (env, CRefresh r) sv = fst (authRefresh cfg env r sv)"
| "console_step cfg (env, CLogout r) sv = fst (authLogout env r sv)"
| "console_step cfg (env, CMe r) sv = fst (authMe cfg env r sv)"

fun console_run :: "config \<Rightarrow> (env \<times> console_call) list \<Rightarrow> server \<Rightarrow> server" where
  "console_run cfg [] sv = sv"
| "console_run cfg (c # cs) sv = console_run cfg cs (console_step cfg c sv)"

text \<open>No call presents the admin's password.\<close>

fun not_admin_login :: "config \<Rightarrow> env \<times> console_call \<Rightarrow> bool" where
  "not_admin_login cfg (env, CLogin r (Inr (u, p))) = (\<not> is_admin_login cfg u p)"
| "not_admin_login cfg _ = True"

definition no_admin :: "(string \<times> console_session) list \<Rightarrow> bool" where
  "no_admin m \<longleftrightarrow> (\<forall>p \<in> set m. cs_Role (snd p) \<noteq> ''admin'')"

definition no_admin_session :: "server \<Rightarrow> bool" where
  "no_admin_session sv \<longleftrightarrow> ss_ok (sv_sessions sv) \<and> no_admin (ss_byTok (sv_sessions sv))"

lemma no_admin_update: "no_admin m \<Longrightarrow> cs_Role v \<noteq> ''admin'' \<Longrightarrow> no_admin (AList.update k v m)"
  by (induction m) (auto simp: no_admin_def)

lemma no_admin_delete: "no_admin m \<Longrightarrow> no_admin (AList.delete k m)"
  by (induction m) (auto simp: no_admin_def)

lemma no_admin_drop_expired: "no_admin m \<Longrightarrow> no_admin (drop_expired now m)"
  by (simp add: no_admin_def drop_expired_def)

lemma no_admin_lookup: "no_admin m \<Longrightarrow> map_of m k = Some v \<Longrightarrow> cs_Role v \<noteq> ''admin''"
  by (force simp: no_admin_def dest: map_of_SomeD)

lemmas no_admin_simps = no_admin_update no_admin_delete no_admin_drop_expired

lemma session_lookup_no_admin:
  assumes "no_admin_session sv"
  shows "no_admin_session (fst (session_lookup now tok sv))"
proof -
  have "fst (session_lookup now tok sv) = sv\<lparr>sv_sessions := fst (get_session tok now (sv_sessions sv))\<rparr>"
    by (simp add: session_lookup_def case_prod_unfold)
  then show ?thesis using assms by (simp add: no_admin_session_def get_session_byTok ss_ok_get no_admin_simps)
qed

lemma roleForBearer_no_admin: "no_admin_session sv \<Longrightarrow> no_admin_session (fst (roleForBearer cfg now tok sv))"
  using session_lookup_no_admin[of sv now tok]
  by (cases "session_lookup now tok sv"; cases "snd (session_lookup now tok sv)") (simp_all add: roleForBearer_def)

lemma actorForBearer_no_admin:
  assumes "no_admin_session sv"
  shows "no_admin_session (fst (actorForBearer cfg now tok sv))"
proof -
  obtain sv' x where l: "session_lookup now tok sv = (sv', x)" by fastforce
  have "no_admin_session sv'" using session_lookup_no_admin[OF assms, of now tok] l by simp
  then show ?thesis
    using roleForBearer_no_admin[of sv' cfg now tok]
    by (cases x) (auto simp: actorForBearer_def l split: prod.split)
qed

lemma authMe_no_admin:
  assumes "no_admin_session sv"
  shows "no_admin_session (fst (authMe cfg env r sv))"
proof -
  obtain sv1 role where l1: "roleForBearer cfg (en_now env) (bearer r) sv = (sv1, role)" by fastforce
  obtain sv2 actor where l2: "actorForBearer cfg (en_now env) (bearer r) sv1 = (sv2, actor)" by fastforce
  have 1: "no_admin_session sv1" using roleForBearer_no_admin[OF assms, of cfg "en_now env" "bearer r"] l1 by simp
  have 2: "no_admin_session sv2" using actorForBearer_no_admin[OF 1, of cfg "en_now env" "bearer r"] l2 by simp
  obtain sv3 x where l3: "session_lookup (en_now env) (bearer r) sv2 = (sv3, x)" by fastforce
  show ?thesis
    using 1 session_lookup_no_admin[OF 2, of "en_now env" "bearer r"] by (simp add: authMe_def l1 l2 l3 Let_def)
qed

lemma mint_no_admin:
  assumes "no_admin_session sv" "role \<noteq> ''admin''"
  shows "no_admin_session (sv\<lparr>sv_sessions := fst (mint rnd role actor org ttl now (sv_sessions sv))\<rparr>)"
proof -
  have "no_admin (ss_byTok (fst (mint rnd role actor org ttl now (sv_sessions sv))))"
    using assms by (cases "NewToken rnd") (simp_all add: no_admin_session_def mint_def Let_def no_admin_simps)
  then show ?thesis using assms ss_ok_mint by (simp add: no_admin_session_def)
qed

lemma rotate_no_admin:
  assumes "no_admin_session sv"
  shows "no_admin_session (sv\<lparr>sv_sessions := fst (rotate rnd tok ttl now (sv_sessions sv))\<rparr>)"
proof -
  have n: "no_admin (drop_expired now (ss_byTok (sv_sessions sv)))"
    using assms by (simp add: no_admin_session_def no_admin_simps)
  have "no_admin (ss_byTok (fst (rotate rnd tok ttl now (sv_sessions sv))))"
    using n no_admin_lookup[OF n, of tok] by (simp add: rotate_def Let_def no_admin_simps split: option.split)
  then show ?thesis using assms ss_ok_rotate by (simp add: no_admin_session_def)
qed

lemma revoke_no_admin: "no_admin_session sv \<Longrightarrow> no_admin_session (sv\<lparr>sv_sessions := revoke tok (sv_sessions sv)\<rparr>)"
  by (simp add: no_admin_session_def revoke_def ss_ok_def distinct_delete no_admin_simps)

lemma login_no_admin:
  assumes "no_admin_session sv" "not_admin_login cfg (env, CLogin r i)"
  shows "no_admin_session (fst (login cfg env r i sv))"
proof (cases i)
  case (Inr up)
  obtain u p where up: "up = (u, p)" by (cases up)
  obtain sv1 lim where l: "attemptLimited ''login'' (en_now env) r sv = (sv1, lim)" by fastforce
  have s1: "sv_sessions sv1 = sv_sessions sv" using l by (auto simp: attemptLimited_def Let_def)
  have keep: "no_admin_session sv'" if "sv_sessions sv' = sv_sessions sv" for sv'
    using that assms(1) by (simp add: no_admin_session_def)
  have issue: "no_admin_session (fst (issueSession cfg env role actor og sv'))"
    if "sv_sessions sv' = sv_sessions sv" "role \<noteq> ''admin''" for role actor og sv'
  proof -
    obtain ss x where l: "mint (en_rand env 0) role actor og (sessionTTL cfg) (en_now env) (sv_sessions sv') = (ss, x)" by fastforce
    show ?thesis
      using mint_no_admin[OF keep[OF that(1)] that(2), of "en_rand env 0" actor og "sessionTTL cfg" "en_now env"] l
      by (cases x) (simp_all add: issueSession_def)
  qed
  show ?thesis
    using assms(2) s1 Inr up
    by (simp add: login_def l recordAttempt_def clearAttempts_def Let_def keep issue)
qed (use assms in \<open>simp add: login_def\<close>)

lemma console_step_no_admin:
  assumes "no_admin_session sv" "not_admin_login cfg c"
  shows "no_admin_session (console_step cfg c sv)"
proof -
  obtain env k where c: "c = (env, k)" by (cases c)
  show ?thesis
  proof (cases k)
    case (CLogin r i)
    then show ?thesis using assms login_no_admin[of sv cfg env r i] c by simp
  next
    case (CRefresh r)
    obtain ss x where l: "Sessions.rotate (en_rand env 0) (bearer r) (sessionTTL cfg) (en_now env) (sv_sessions sv) = (ss, x)"
      by fastforce
    have "no_admin_session (sv\<lparr>sv_sessions := ss\<rparr>)"
      using rotate_no_admin[OF assms(1), of "en_rand env 0" "bearer r" "sessionTTL cfg" "en_now env"] l by simp
    then have "no_admin_session (fst (authRefresh cfg env r sv))"
      using assms(1) by (cases x) (simp_all add: authRefresh_def l)
    then show ?thesis using CRefresh c by simp
  next
    case (CLogout r)
    obtain sv1 x where l: "session_lookup (en_now env) (bearer r) sv = (sv1, x)" by fastforce
    have "no_admin_session sv1" using session_lookup_no_admin[OF assms(1), of "en_now env" "bearer r"] l by simp
    then have "no_admin_session (fst (authLogout env r sv))"
      using assms(1) by (cases x) (simp_all add: authLogout_def l revoke_no_admin)
    then show ?thesis using CLogout c by simp
  next
    case (CMe r)
    then show ?thesis using assms(1) c by (simp add: authMe_no_admin)
  qed
qed

lemma console_run_no_admin:
  "no_admin_session sv \<Longrightarrow> \<forall>c \<in> set cs. not_admin_login cfg c \<Longrightarrow> no_admin_session (console_run cfg cs sv)"
  by (induction cs arbitrary: sv) (simp_all add: console_step_no_admin)

subsection \<open>Lemmas: the limiter\<close>

text \<open>A sequence of login requests from one client, with the replies and their times.\<close>

fun logins ::
  "config \<Rightarrow> http_request \<Rightarrow> (env \<times> (string + (string \<times> string))) list \<Rightarrow> server \<Rightarrow> (time \<times> json_map reply) list" where
  "logins cfg r [] sv = []"
| "logins cfg r ((env, i) # xs) sv =
     (case login cfg env r i sv of (sv', rep) \<Rightarrow> (en_now env, rep) # logins cfg r xs sv')"

definition is_401 :: "json_map reply \<Rightarrow> bool" where
  "is_401 rep = (case rep of Fail c _ \<Rightarrow> c = 401 | Done _ _ \<Rightarrow> False)"

text \<open>How many wrong passwords were looked at in the five minutes up to a moment.\<close>

definition tried :: "time \<Rightarrow> (time \<times> json_map reply) list \<Rightarrow> nat" where
  "tried t tr = length (filter (\<lambda>(u, rep). is_401 rep \<and> t - 5 * minute < u \<and> u \<le> t) tr)"

fun wrong_input :: "config \<Rightarrow> string + (string \<times> string) \<Rightarrow> bool" where
  "wrong_input cfg (Inl e) = True"
| "wrong_input cfg (Inr (u, p)) = (\<not> is_admin_login cfg u p \<and> \<not> is_viewer_login cfg u p)"

definition recent_fails :: "time \<Rightarrow> string \<Rightarrow> server \<Rightarrow> time list" where
  "recent_fails now key sv = filter (\<lambda>u. now - 5 * minute < u) (fails key sv)"

lemma fails_update:
  "fails key (sv\<lparr>sv_loginFails := AList.update key ts (sv_loginFails sv)\<rparr>) = ts"
  by (simp add: fails_def update_conv')

lemma login_wrong:
  assumes "wrong_input cfg i" "login cfg env r i sv = (sv', rep)"
  defines "key \<equiv> attemptKey ''login'' r"
  shows "is_401 rep \<and> length (recent_fails (en_now env) key sv) < 5 \<and>
      fails key sv' = recent_fails (en_now env) key sv @ [en_now env] \<or>
    \<not> is_401 rep \<and> (fails key sv' = fails key sv \<or> fails key sv' = recent_fails (en_now env) key sv)"
proof (cases i)
  case (Inl e)
  then show ?thesis using assms(2) by (auto simp: login_def is_401_def)
next
  case (Inr up)
  obtain u p where up: "up = (u, p)" by (cases up)
  define sv1 where "sv1 = sv\<lparr>sv_loginFails := AList.update key (recent_fails (en_now env) key sv) (sv_loginFails sv)\<rparr>"
  have l: "attemptLimited ''login'' (en_now env) r sv = (sv1, 5 \<le> length (recent_fails (en_now env) key sv))"
    by (simp add: attemptLimited_def sv1_def key_def recent_fails_def Let_def)
  have f1: "fails key sv1 = recent_fails (en_now env) key sv" by (simp add: sv1_def fails_update)
  have f2: "fails key (recordAttempt ''login'' now r sv2) = fails key sv2 @ [now]" for now sv2
    by (simp add: recordAttempt_def Let_def key_def fails_update)
  have f3: "fails key (server_note env a b c d e f g h j sv2) = fails key sv2" for a b c d e f g h j sv2
    by (simp add: fails_def)
  show ?thesis
    using assms(1,2) Inr up f1
    by (auto simp: login_def l is_401_def f2 f3 split: if_splits)
qed

lemma length_filter_imp: "(\<And>x. P x \<Longrightarrow> Q x) \<Longrightarrow> length (filter P xs) \<le> length (filter Q xs)"
  by (induction xs) (auto simp: le_SucI)

lemma filter_recent:
  "now \<le> (now' :: int) \<Longrightarrow> filter (\<lambda>u. now' - 5 * minute < u) (filter (\<lambda>u. now - 5 * minute < u) ts) = filter (\<lambda>u. now' - 5 * minute < u) ts"
  by (auto intro!: filter_cong)

text \<open>The induction: \<^verbatim>\<open>past\<close> are the times of the wrong passwords so far.\<close>

lemma logins_tried:
  assumes "sorted (map (en_now \<circ> fst) xs)" "\<forall>(env, i) \<in> set xs. wrong_input cfg i"
    and "\<forall>x \<in> set xs. now \<le> en_now (fst x)" "\<forall>u \<in> set past. u \<le> now"
    and "filter (\<lambda>u. now - 5 * minute < u) past = filter (\<lambda>u. now - 5 * minute < u) (fails (attemptKey ''login'' r) sv)"
    and "\<And>t. length (filter (\<lambda>u. t - 5 * minute < u \<and> u \<le> t) past) \<le> 5"
  shows "length (filter (\<lambda>u. t - 5 * minute < u \<and> u \<le> t) past) + tried t (logins cfg r xs sv) \<le> 5"
  using assms
proof (induction xs arbitrary: sv now past)
  case Nil
  then show ?case by (simp add: tried_def)
next
  case (Cons x xs)
  let ?key = "attemptKey ''login'' r"
  obtain env i where x: "x = (env, i)" by (cases x)
  define n where "n = en_now env"
  obtain sv' rep where l: "login cfg env r i sv = (sv', rep)" by fastforce
  have nn: "now \<le> n" using Cons.prems(3) x by (simp add: n_def)
  have w: "wrong_input cfg i" using Cons.prems(2) x by simp
  have later: "\<forall>y \<in> set xs. n \<le> en_now (fst y)" using Cons.prems(1) x by (auto simp: n_def)
  have rest: "sorted (map (en_now \<circ> fst) xs)" "\<forall>(env, i) \<in> set xs. wrong_input cfg i"
    using Cons.prems(1,2) by (simp_all add: comp_def)
  have past_n: "filter (\<lambda>u. n - 5 * minute < u) past = recent_fails n ?key sv"
    using Cons.prems(5) filter_recent[OF nn] unfolding recent_fails_def by metis
  have self: "filter (\<lambda>u. n - 5 * minute < u) (recent_fails n ?key sv) = recent_fails n ?key sv"
    by (simp add: recent_fails_def)
  from login_wrong[OF w l, folded n_def] show ?case
  proof
    assume a: "\<not> is_401 rep \<and> (fails ?key sv' = fails ?key sv \<or> fails ?key sv' = recent_fails n ?key sv)"
    have "filter (\<lambda>u. n - 5 * minute < u) past = filter (\<lambda>u. n - 5 * minute < u) (fails ?key sv')"
      using a past_n self by (auto simp: recent_fails_def)
    moreover have "\<forall>u \<in> set past. u \<le> n" using Cons.prems(4) nn by fastforce
    ultimately have "length (filter (\<lambda>u. t - 5 * minute < u \<and> u \<le> t) past) + tried t (logins cfg r xs sv') \<le> 5"
      using Cons.IH[OF rest later] Cons.prems(6) by blast
    then show ?thesis using a x l by (simp add: tried_def n_def)
  next
    assume a: "is_401 rep \<and> length (recent_fails n ?key sv) < 5 \<and> fails ?key sv' = recent_fails n ?key sv @ [n]"
    let ?past = "past @ [n]"
    have 1: "\<forall>u \<in> set ?past. u \<le> n" using Cons.prems(4) nn by fastforce
    have 2: "filter (\<lambda>u. n - 5 * minute < u) ?past = filter (\<lambda>u. n - 5 * minute < u) (fails ?key sv')"
      using a past_n self by simp
    have 3: "length (filter (\<lambda>u. t - 5 * minute < u \<and> u \<le> t) ?past) \<le> 5" for t
    proof (cases "t - 5 * minute < n \<and> n \<le> t")
      case False
      then show ?thesis using Cons.prems(6)[of t] by auto
    next
      case True
      have "length (filter (\<lambda>u. t - 5 * minute < u \<and> u \<le> t) past) \<le> length (filter (\<lambda>u. n - 5 * minute < u) past)"
        using True by (intro length_filter_imp) auto
      then show ?thesis using a past_n by auto
    qed
    have "length (filter (\<lambda>u. t - 5 * minute < u \<and> u \<le> t) ?past) + tried t (logins cfg r xs sv') \<le> 5"
      using Cons.IH[OF rest later 1 2 3] .
    moreover have "length (filter (\<lambda>u. t - 5 * minute < u \<and> u \<le> t) past) + tried t (logins cfg r (x # xs) sv) =
        length (filter (\<lambda>u. t - 5 * minute < u \<and> u \<le> t) ?past) + tried t (logins cfg r xs sv')"
      using a x l by (simp add: tried_def n_def)
    ultimately show ?thesis by simp
  qed
qed

subsection \<open>Lemmas: minting a role\<close>

lemma roleForToken_append:
  "roleForToken sha t (rs @ [x]) = (case roleForToken sha t rs of Some y \<Rightarrow> Some y | None \<Rightarrow> roleForToken sha t [x])"
  by (induction rs) simp_all

lemma roleCreate_effect:
  assumes "ss_ok (sv_sessions sv)" "NewToken (en_rand env 0) = Some t" "en_saved env" "trim_space name \<noteq> []"
    and "\<forall>x \<in> set (sv_roles sv). to_lower (sr_Name x) \<noteq> to_lower (trim_space name)"
  shows "\<exists>sv' b. roleCreate cfg env r (Inr (name, wr)) sv = (sv', Done 201 b) \<and>
    sv_roles sv' = sv_roles sv @ [\<lparr>sr_Name = trim_space name, sr_TokenHash = Hash (c_sha cfg) t, sr_Write = wr, sr_CreatedAt = en_now env\<rparr>] \<and>
    sv_store sv' = sv_store sv \<and> ss_ok (sv_sessions sv') \<and>
    (\<forall>k. session_of (en_now env) (sv_sessions sv') k = session_of (en_now env) (sv_sessions sv) k)"
proof -
  let ?x = "\<lparr>sr_Name = trim_space name, sr_TokenHash = Hash (c_sha cfg) t, sr_Write = wr, sr_CreatedAt = en_now env\<rparr>"
  let ?sv = "sv\<lparr>sv_roles := sv_roles sv @ [?x]\<rparr>"
  obtain sv1 actor where a: "actorForBearer cfg (en_now env) (bearer r) ?sv = (sv1, actor)" by fastforce
  have t: "touched (en_now env) ?sv sv1"
    using actorForBearer_touched[of ?sv "en_now env" cfg "bearer r"] assms(1) a by simp
  have "\<not> list_ex (\<lambda>x. to_lower (sr_Name x) = to_lower (trim_space name)) (sv_roles sv)"
    using assms(5) by (auto simp: list_ex_iff)
  then have "role_create (c_sha cfg) (en_rand env 0) (en_saved env) (en_now env) name wr (sv_roles sv) =
      (sv_roles sv @ [?x], Inr \<lparr>cr_Name = trim_space name, cr_Token = t, cr_Write = wr, cr_CreatedAt = en_now env\<rparr>)"
    using assms(2-4) by (simp add: role_create_def Let_def)
  then show ?thesis
    using a touched_fields[OF t] touched_ok[OF t] touched_session[OF t] by (simp add: roleCreate_def)
qed

subsection \<open>Properties\<close>

definition demo_request :: http_request where
  "demo_request = \<lparr>rq_Method = ''POST'', rq_Authorization = ''Bearer orgtok'', rq_RemoteAddr = ''10.0.0.1:4711'', rq_PeerCN = None\<rparr>"

definition demo_config :: config where
  "demo_config = \<lparr>c_sha = (\<lambda>x. x), c_AdminToken = ''root'', c_AdminUser = ''admin'', c_AdminPassword = ''secret'', c_ViewerToken = [],
     c_ViewerUser = [], c_ViewerPassword = [], c_PublicRead = False, c_SessionTTL = 0, c_EnrollmentTokenTTL = 0\<rparr>"

definition empty_queue :: "'v queue" where
  "empty_queue = fresh_queue reject_opts []"

definition demo_server :: server where
  "demo_server = \<lparr>sv_store = demo_store\<lparr>st_state := empty_state\<lparr>Orgs :=
        [\<lparr>org_ID = ''org1'', org_Name = ''acme'', org_CreatedAt = 0, org_EnrollmentTokenHash = [],
          org_AdminTokenHash = hex_encode ''orgtok'', org_ViewerTokenHash = []\<rparr>]\<rparr>\<rparr>,
     sv_deliveries = empty_queue, sv_dlq = empty_queue,
     sv_metrics = \<lparr>m_Events = 0, m_Duplicates = 0, m_Deliveries = 0, m_DeliveryFailures = 0, m_Enrollments = 0, m_Heartbeats = 0\<rparr>,
     sv_activity = \<lparr>al_ring = [], al_seq = 0\<rparr>, sv_audit = None,
     sv_sessions = \<lparr>ss_byTok = [], ss_disk = [], ss_io = []\<rparr>, sv_roles = [], sv_loginFails = [],
     sv_EnrollmentToken = ''enroll'', sv_enrollExpires = 0, sv_crlPEM = None, sv_crlNextUpdate = 0\<rparr>"

definition demo_env :: "time \<Rightarrow> env" where
  "demo_env t = \<lparr>en_now = t, en_rand = (\<lambda>_. Some ''rnd''), en_audit_rand = None, en_audit_io = AWritten, en_saved = True\<rparr>"

lemma demo_server_ok: "ss_ok (sv_sessions demo_server)" "no_admin_session demo_server"
  by (simp_all add: demo_server_def ss_ok_def no_admin_session_def no_admin_def)

text \<open>C29: a request that may change something reaches its handler behind the gate only with a
  token that holds the admin role: a live admin session, a custom role with write access,
  the configured admin token or an organisation's admin token.  A refusal is 401, 403 or
  503 and changes nothing but to drop expired sessions.\<close>

theorem admin_gate:
  assumes "ss_ok (sv_sessions sv)" and "\<not> isSafeMethod (rq_Method r)"
  shows "(\<exists>code msg. snd (admin cfg env r h sv) = Fail code msg \<and> code \<in> {401, 403, 503} \<and>
      touched (en_now env) sv (fst (admin cfg env r h sv))) \<or>
    (\<exists>sv1. admin cfg env r h sv = h sv1 \<and> touched (en_now env) sv sv1 \<and> admin_token cfg (en_now env) (bearer r) sv)"
  using assms
proof (cases rule: admin_cases[where cfg = cfg and env = env and h = h])
  case (refused code msg)
  then show ?thesis by blast
next
  case (granted sv1)
  then show ?thesis using role_of_admin by blast
qed

theorem admin_gate_witness:
  "admin demo_config (demo_env 5) (demo_request\<lparr>rq_Authorization := ''Bearer nobody''\<rparr>) (\<lambda>sv. (sv, Done 200 ())) demo_server =
     (fst (admin demo_config (demo_env 5) (demo_request\<lparr>rq_Authorization := ''Bearer nobody''\<rparr>) (\<lambda>sv. (sv, Done 200 ())) demo_server),
      Fail 401 ''unauthorized'') \<and>
   touched 5 demo_server (fst (admin demo_config (demo_env 5) (demo_request\<lparr>rq_Authorization := ''Bearer nobody''\<rparr>)
     (\<lambda>sv. (sv, Done 200 ())) demo_server))"
proof -
  let ?r = "demo_request\<lparr>rq_Authorization := ''Bearer nobody''\<rparr>" and ?h = "\<lambda>sv :: server. (sv, Done 200 ())"
  have b: "bearer ?r = ''nobody''" by code_simp
  have r: "snd (admin demo_config (demo_env 5) ?r ?h demo_server) = Fail 401 ''unauthorized''" by code_simp
  have "\<not> isSafeMethod (rq_Method ?r)" by (simp add: demo_request_def isSafeMethod_def)
  moreover have "\<not> admin_token demo_config 5 ''nobody'' demo_server"
    by (simp add: admin_token_def demo_config_def demo_server_def session_of_def live_entry_def EqualToken_def del: hex_encode.simps)
  ultimately show ?thesis
    using admin_gate[OF demo_server_ok(1), of ?r demo_config "demo_env 5" ?h] r b
    by (auto simp: demo_env_def prod_eq_iff)
qed


definition viewer_server :: server where
  "viewer_server = demo_server\<lparr>sv_sessions := \<lparr>ss_byTok = [(''v'',
     \<lparr>cs_Token = ''v'', cs_Role = ''viewer'', cs_Actor = ''eve'', cs_OrgID = [], cs_ExpiresAt = 100\<rparr>)], ss_disk = [], ss_io = []\<rparr>\<rparr>"

definition refresh_call :: "env \<times> console_call" where
  "refresh_call = (demo_env 7, CRefresh (demo_request\<lparr>rq_Authorization := ''Bearer v''\<rparr>))"




text \<open>C32: the scope of an organisation's admin token does not hold.  The endpoint that creates
  custom roles is open to every admin role, and a custom role belongs to no organisation:
  a token scoped to one organisation mints itself a token that is admin over the whole
  fleet.\<close>

theorem org_admin_mints_global_admin:
  assumes "ss_ok (sv_sessions sv)" and "rq_Method r = ''POST''"
    and "snd (orgForBearer cfg (en_now env) (bearer r) sv) = Some og"
    and "snd (roleForBearer cfg (en_now env) (bearer r) sv) = ''admin''"
    and "NewToken (en_rand env 0) = Some t" and "t \<noteq> []" and "en_saved env" and "trim_space name \<noteq> []"
    and "\<forall>x \<in> set (sv_roles sv). to_lower (sr_Name x) \<noteq> to_lower (trim_space name)"
    and "session_of (en_now env) (sv_sessions sv) t = None" and "roleForToken (c_sha cfg) t (sv_roles sv) = None"
    and "orgRoleForBearer cfg t sv = ([], [])"
  shows "\<exists>sv' b. admin cfg env r (roleCreate cfg env r (Inr (name, True))) sv = (sv', Done 201 b) \<and>
    snd (roleForBearer cfg (en_now env) t sv') = ''admin'' \<and> snd (orgForBearer cfg (en_now env) t sv') = None"
proof -
  have u: "\<not> isSafeMethod (rq_Method r)" using assms(2) by (simp add: isSafeMethod_def)
  have "role_of cfg (en_now env) (bearer r) sv = ''admin''"
    using roleForBearer_touched[OF assms(1), of "en_now env" cfg "bearer r"] assms(4) by simp
  then obtain sv1 where g: "admin cfg env r (roleCreate cfg env r (Inr (name, True))) sv = roleCreate cfg env r (Inr (name, True)) sv1"
    and t1: "touched (en_now env) sv sv1"
    using admin_cases[OF assms(1) u, of cfg env "roleCreate cfg env r (Inr (name, True))"] by metis
  obtain sv' b where c: "roleCreate cfg env r (Inr (name, True)) sv1 = (sv', Done 201 b)"
    "sv_roles sv' = sv_roles sv1 @ [\<lparr>sr_Name = trim_space name, sr_TokenHash = Hash (c_sha cfg) t, sr_Write = True, sr_CreatedAt = en_now env\<rparr>]"
    "sv_store sv' = sv_store sv1" "ss_ok (sv_sessions sv')"
    "\<forall>k. session_of (en_now env) (sv_sessions sv') k = session_of (en_now env) (sv_sessions sv1) k"
    using roleCreate_effect[OF touched_ok[OF t1] assms(5,7,8), of cfg r True] assms(9) touched_fields[OF t1] by auto
  have s: "session_of (en_now env) (sv_sessions sv') t = None"
    using c(5) touched_session[OF t1] assms(10) by simp
  have ro: "roleForToken (c_sha cfg) t (sv_roles sv') = Some ''admin''"
    using c(2) assms(11) touched_fields(7)[OF t1] by (simp add: roleForToken_append)
  have og: "orgRoleForBearer cfg t sv' = ([], [])"
    using assms(12) c(3) touched_fields(1)[OF t1] by (simp add: orgRoleForBearer_def split: if_splits)
  have "role_of cfg (en_now env) t sv' = ''admin''" using s ro assms(6) by (simp add: role_of_def)
  moreover have "scope_of cfg (en_now env) t sv' = None" using s og by (simp add: scope_of_def)
  ultimately show ?thesis
    using g c(1) roleForBearer_touched[OF c(4), of "en_now env" cfg t] orgForBearer_touched[OF c(4), of "en_now env" cfg t] by simp
qed

theorem org_admin_mints_global_admin_witness:
  "snd (orgForBearer demo_config 5 ''orgtok'' demo_server) = Some ''org1'' \<and>
   (\<exists>sv' b. admin demo_config (demo_env 5) demo_request (roleCreate demo_config (demo_env 5) demo_request (Inr (''ops'', True))) demo_server =
       (sv', Done 201 b) \<and>
     snd (roleForBearer demo_config 5 (hex_encode ''rnd'') sv') = ''admin'' \<and>
     snd (orgForBearer demo_config 5 (hex_encode ''rnd'') sv') = None)"
proof -
  have b: "bearer demo_request = ''orgtok''" by code_simp
  have o: "snd (orgForBearer demo_config 5 ''orgtok'' demo_server) = Some ''org1''" by code_simp
  have r: "snd (roleForBearer demo_config 5 ''orgtok'' demo_server) = ''admin''" by code_simp
  have n: "NewToken (en_rand (demo_env 5) 0) = Some (hex_encode ''rnd'')" by (simp add: NewToken_def demo_env_def)
  have f: "trim_space ''ops'' \<noteq> []" "hex_encode ''rnd'' \<noteq> []" "orgRoleForBearer demo_config (hex_encode ''rnd'') demo_server = ([], [])"
    by code_simp+
  have "session_of 5 (sv_sessions demo_server) (hex_encode ''rnd'') = None" "sv_roles demo_server = []"
    by (simp_all add: demo_server_def session_of_def live_entry_def)
  then show ?thesis
    using org_admin_mints_global_admin[OF demo_server_ok(1), of demo_request demo_config "demo_env 5" "''org1''" "hex_encode ''rnd''" "''ops''"]
      b o r n f by (simp add: demo_env_def demo_request_def)
qed

end
