(* ===== verification/Relay.thy ===== *)
theory Relay
  imports Server Router
begin

text \<open>
  The path of an event through the control plane, \<^verbatim>\<open>internal/server/server.go\<close>: ingestion
  (\<^verbatim>\<open>events\<close>, \<^verbatim>\<open>eventsBatch\<close>, \<^verbatim>\<open>ingestAgentEvent\<close>), one delivery attempt
  (\<^verbatim>\<open>deliver\<close>, \<^verbatim>\<open>processOne\<close>), a tick of the worker (\<^verbatim>\<open>processDeliveries\<close>) and the
  dead-letter endpoints, over the queues of theory \<^verbatim>\<open>Queue\<close> in file mode.

  The JSON form of a delivery in the queue's log is a codec, the text of a raw message is
  \<^verbatim>\<open>rc_raw\<close>, and the target's answer to an attempt is an argument.  The goroutines of a tick work on different deliveries and touch
  the queues through single locked calls; a tick runs them in the order of the list.
\<close>

subsection \<open>Definitions\<close>

record relay_cfg =
  rc_delivery :: "delivery codec"
  rc_dead :: "dead_letter codec"
  rc_version :: string
  rc_raw :: "json \<Rightarrow> string"

definition deterministicDeliveryID :: "config \<Rightarrow> string \<Rightarrow> string \<Rightarrow> string" where
  "deterministicDeliveryID cfg eventID routeID =
     ''dlv_'' @ hex_encode (take 12 (c_sha cfg (eventID @ CHR 0x00 # routeID)))"

text \<open>\<^verbatim>\<open>id(prefix)\<close> ignores a failing source of randomness.\<close>

definition gen_id :: "string \<Rightarrow> string option \<Rightarrow> string" where
  "gen_id pre rnd = pre @ ''_'' @ (case NewToken rnd of None \<Rightarrow> [] | Some t \<Rightarrow> t)"

definition mergeHeaders :: "str_map \<Rightarrow> str_map \<Rightarrow> str_map" where
  "mergeHeaders a b =
     (if a = [] \<and> b = [] then [] else foldl (\<lambda>m (k, v). AList.update k v m) (foldl (\<lambda>m (k, v). AList.update k v m) [] a) b)"

definition queue_error_text :: "queue_error \<Rightarrow> string" where
  "queue_error_text e =
     (case e of ErrFull \<Rightarrow> ''durable queue is full'' | IDRequired \<Rightarrow> ''queue id is required'' | _ \<Rightarrow> ''i/o error'')"

definition store_error_text :: "store_error \<Rightarrow> string" where
  "store_error_text e =
     (case e of SErrNotExist \<Rightarrow> ''file does not exist'' | SErrUnknownOp t \<Rightarrow> ''unknown state operation '' @ t | _ \<Rightarrow> ''i/o error'')"

record agent_event =
  ae_EventID :: string
  ae_Topic :: string
  ae_Payload :: "json option"
  ae_Headers :: str_map
  ae_EventTime :: time

definition route_matches :: "string \<Rightarrow> string \<Rightarrow> route \<Rightarrow> bool" where
  "route_matches siteID topic rt \<longleftrightarrow>
     rt_Enabled rt \<and> (rt_SiteID rt = [] \<or> rt_SiteID rt = siteID) \<and> Match (rt_Topic rt) topic"

definition route_delivery ::
  "config \<Rightarrow> time \<Rightarrow> string \<Rightarrow> string \<Rightarrow> string \<Rightarrow> json \<Rightarrow> str_map \<Rightarrow> time \<Rightarrow> route \<Rightarrow> delivery" where
  "route_delivery cfg now eventID siteID topic payload headers eventTime rt =
     \<lparr>dl_ID = deterministicDeliveryID cfg eventID (rt_ID rt), dl_RouteID = rt_ID rt, dl_EventID = eventID, dl_SiteID = siteID,
      dl_Topic = topic, dl_TargetURL = rt_TargetURL rt, dl_Method = rt_Method rt, dl_Payload = payload,
      dl_Headers = mergeHeaders headers (rt_Headers rt), dl_TimeoutSecs = rt_TimeoutSecs rt, dl_Attempts = 0,
      dl_MaxAttempts = max (rt_RetryMax rt) 1, dl_NextAttempt = now, dl_EventTime = eventTime, dl_CreatedAt = now,
      dl_LastError = []\<rparr>"

text \<open>The loop over the routes: the deliveries of the matching ones are put one by one, and the
  first that cannot be put ends it.\<close>

fun put_routes ::
  "relay_cfg \<Rightarrow> string \<Rightarrow> string \<Rightarrow> (route \<Rightarrow> delivery) \<Rightarrow> route list \<Rightarrow> delivery queue \<Rightarrow> delivery queue \<times> (queue_error + nat)" where
  "put_routes rc siteID topic mk [] q = (q, Inr 0)"
| "put_routes rc siteID topic mk (rt # rts) q =
     (if \<not> route_matches siteID topic rt then put_routes rc siteID topic mk rts q
      else case Put (rc_delivery rc) (dl_ID (mk rt)) (mk rt) q of
             (q', Some e) \<Rightarrow> (q', Inl e)
           | (q', None) \<Rightarrow>
               (case put_routes rc siteID topic mk rts q' of
                  (q'', Inl e) \<Rightarrow> (q'', Inl e)
                | (q'', Inr n) \<Rightarrow> (q'', Inr (n + 1))))"

definition ingestAgentEvent ::
  "relay_cfg \<Rightarrow> config \<Rightarrow> env \<Rightarrow> string \<Rightarrow> agent_event \<Rightarrow> server \<Rightarrow> server \<times> json_map reply" where
  "ingestAgentEvent rc cfg env siteID a sv =
     (case (if ae_Topic a = [] then None else ae_Payload a) of
        None \<Rightarrow> (sv, Fail 400 ''topic and payload are required'')
      | Some payload \<Rightarrow>
          (let eventID = (if ae_EventID a = [] then gen_id ''evt'' (en_rand env 0) else ae_EventID a);
               topic = ae_Topic a;
               now = en_now env;
               eventTime = (if ae_EventTime a = 0 then now else ae_EventTime a);
               mx = sv_metrics sv
           in if HasEvent eventID (sv_store sv)
              then (sv\<lparr>sv_metrics := mx\<lparr>m_Duplicates := m_Duplicates mx + 1\<rparr>\<rparr>,
                    Done 202 [(''accepted'', JBool True), (''event_id'', JStr eventID), (''duplicate'', JBool True),
                              (''matched_routes'', JInt 0)])
              else case put_routes rc siteID topic
                     (route_delivery cfg now eventID siteID topic payload (ae_Headers a) eventTime)
                     (Routes (st_state (sv_store sv))) (sv_deliveries sv) of
                (q, Inl e) \<Rightarrow> (sv\<lparr>sv_deliveries := q\<rparr>, Fail 503 (''delivery queue unavailable: '' @ queue_error_text e))
              | (q, Inr matched) \<Rightarrow>
                  (let sv1 = sv\<lparr>sv_deliveries := q\<rparr>;
                       ev = \<lparr>ev_ID = eventID, ev_SiteID = siteID, ev_Topic = topic, ev_Payload = payload,
                             ev_Headers = ae_Headers a, ev_EventTime = eventTime, ev_IngestedAt = now, ev_CreatedAt = eventTime\<rparr>
                   in case AddEvent ev (sv_store sv1) of
                        (st, Some e) \<Rightarrow> (sv1\<lparr>sv_store := st\<rparr>, Fail 507 (''event persistence failed: '' @ store_error_text e))
                      | (st, None) \<Rightarrow>
                          (let sv2 = sv1\<lparr>sv_store := st, sv_metrics := mx\<lparr>m_Events := m_Events mx + 1\<rparr>\<rparr>;
                               sv3 = (if 0 < matched
                                      then server_note env ''info'' ''agent'' [] [] siteID [] ''event'' (''telemetry accepted on '' @ topic)
                                        [(''event_id'', JStr eventID), (''matched_routes'', JInt (int matched))] sv2
                                      else sv2)
                           in (sv3, Done 202 [(''accepted'', JBool True), (''event_id'', JStr eventID),
                                 (''matched_routes'', JInt (int matched)), (''event_time'', JTime eventTime),
                                 (''ingested_at'', JTime now)])))))"

definition events :: "relay_cfg \<Rightarrow> config \<Rightarrow> env \<Rightarrow> http_request \<Rightarrow> string + (string \<times> agent_event) \<Rightarrow> server \<Rightarrow> server \<times> json_map reply" where
  "events rc cfg env r input sv =
     (case input of
        Inl e \<Rightarrow> (sv, Fail 400 (''invalid JSON: '' @ e))
      | Inr (siteID, a) \<Rightarrow>
          (case agentSite cfg r siteID sv of
             None \<Rightarrow> (sv, Fail 401 ''unauthorized agent'')
           | Some _ \<Rightarrow> ingestAgentEvent rc cfg env siteID a sv))"

definition is_duplicate :: "json_map \<Rightarrow> bool" where
  "is_duplicate b \<longleftrightarrow> map_of b ''duplicate'' = Some (JBool True)"

text \<open>The loop of \<^verbatim>\<open>eventsBatch\<close>; each event has its own environment.\<close>

fun ingest_batch ::
  "relay_cfg \<Rightarrow> config \<Rightarrow> string \<Rightarrow> (env \<times> agent_event) list \<Rightarrow> server \<Rightarrow> server \<times> nat \<times> nat \<times> json list" where
  "ingest_batch rc cfg siteID [] sv = (sv, 0, 0, [])"
| "ingest_batch rc cfg siteID ((env, a) # evs) sv =
     (case ingestAgentEvent rc cfg env siteID a sv of
        (sv1, Fail code msg) \<Rightarrow>
          (case ingest_batch rc cfg siteID evs sv1 of (sv2, acc, dup, res) \<Rightarrow>
             (sv2, acc, dup, JObj [(''event_id'', JStr (ae_EventID a)), (''error'', JStr msg), (''status'', JInt code)] # res))
      | (sv1, Done code b) \<Rightarrow>
          (case ingest_batch rc cfg siteID evs sv1 of (sv2, acc, dup, res) \<Rightarrow>
             (sv2, if is_duplicate b then acc else acc + 1, if is_duplicate b then dup + 1 else dup,
              JObj (b @ [(''status'', JInt code)]) # res)))"

definition eventsBatch ::
  "relay_cfg \<Rightarrow> config \<Rightarrow> http_request \<Rightarrow> string + (string \<times> (env \<times> agent_event) list) \<Rightarrow> server \<Rightarrow> server \<times> json_map reply" where
  "eventsBatch rc cfg r input sv =
     (case input of
        Inl e \<Rightarrow> (sv, Fail 400 (''invalid JSON: '' @ e))
      | Inr (siteID, evs) \<Rightarrow>
          (case agentSite cfg r siteID sv of
             None \<Rightarrow> (sv, Fail 401 ''unauthorized agent'')
           | Some _ \<Rightarrow>
               if evs = [] then (sv, Fail 400 ''events is required'')
               else if 500 < length evs then (sv, Fail 400 ''batch limited to 500 events'')
               else case ingest_batch rc cfg siteID evs sv of (sv', acc, dup, res) \<Rightarrow>
                 (sv', Done 202 [(''accepted'', JInt (int acc)), (''duplicates'', JInt (int dup)), (''results'', JArr res)])))"

subsection \<open>Delivery\<close>

datatype http_result = HStatus int string | HError string

record http_out =
  ho_Method :: string
  ho_URL :: string
  ho_Headers :: str_map
  ho_Body :: json
  ho_Timeout :: duration

text \<open>\<^verbatim>\<open>Header.Set\<close> stores under the canonical key: the first letter and those after a hyphen in
  upper case, the others in lower case, unless a byte is not allowed in a header name.\<close>

definition token_char :: "char \<Rightarrow> bool" where
  "token_char c \<longleftrightarrow>
     (let n = of_char c :: nat
      in 48 \<le> n \<and> n \<le> 57 \<or> 65 \<le> n \<and> n \<le> 90 \<or> 97 \<le> n \<and> n \<le> 122) \<or> c \<in> set (CHR 0x27 # CHR 0x60 # ''!#$%&*+-.^_|~'')"

definition to_upper_char :: "char \<Rightarrow> char" where
  "to_upper_char c = (let n = of_char c :: nat in if 97 \<le> n \<and> n \<le> 122 then char_of (n - 32) else c)"

fun canonical_from :: "bool \<Rightarrow> string \<Rightarrow> string" where
  "canonical_from up [] = []"
| "canonical_from up (c # cs) = (if up then to_upper_char c else to_lower_char c) # canonical_from (c = CHR ''-'') cs"

definition canonical_key :: "string \<Rightarrow> string" where
  "canonical_key k = (if list_all token_char k then canonical_from True k else k)"

fun set_headers :: "str_map \<Rightarrow> str_map \<Rightarrow> str_map" where
  "set_headers [] m = m"
| "set_headers ((k, v) # hs) m =
     (if to_lower k = ''host'' \<or> to_lower k = ''content-length'' then set_headers hs m
      else set_headers hs (AList.update (canonical_key k) v m))"

definition deliver_request :: "relay_cfg \<Rightarrow> delivery \<Rightarrow> http_out" where
  "deliver_request rc d =
     \<lparr>ho_Method = dl_Method d, ho_URL = dl_TargetURL d,
      ho_Headers = set_headers (dl_Headers d) [(''Content-Type'', ''application/json''), (''User-Agent'', ''Nodra/'' @ rc_version rc)],
      ho_Body = JObj [(''event_id'', JStr (dl_EventID d)), (''site_id'', JStr (dl_SiteID d)), (''topic'', JStr (dl_Topic d)),
        (''payload'', dl_Payload d), (''headers'', JObj (map (\<lambda>(k, v). (k, JStr v)) (dl_Headers d))),
        (''delivery_id'', JStr (dl_ID d)), (''event_time'', JTime (dl_EventTime d))],
      ho_Timeout = (if dl_TimeoutSecs d * second \<le> 0 then 10 * second else dl_TimeoutSecs d * second)\<rparr>"

text \<open>The error of an attempt, from what the target answered; None is a success.\<close>

definition deliver :: "http_result \<Rightarrow> string option" where
  "deliver res =
     (case res of
        HError e \<Rightarrow> Some e
      | HStatus code text \<Rightarrow> if code < 200 \<or> 300 \<le> code then Some (''target returned '' @ text) else None)"

datatype attempt = Delivered | Rescheduled | DeadLettered | QueueFailed

definition backoff :: "int \<Rightarrow> duration" where
  "backoff n = 2 ^ nat (min n 6) * second"

text \<open>\<^verbatim>\<open>processOne\<close>; the outcome says which branch was taken, \<^verbatim>\<open>QueueFailed\<close> for one that only
  logs the error of a queue.\<close>

definition processOne ::
  "relay_cfg \<Rightarrow> env \<Rightarrow> http_result \<Rightarrow> delivery \<Rightarrow> server \<Rightarrow> server \<times> attempt" where
  "processOne rc env res d sv =
     (let mx = sv_metrics sv in
      case deliver res of
        None \<Rightarrow>
          (case Delete (rc_delivery rc) (dl_ID d) (sv_deliveries sv) of (q, e) \<Rightarrow>
             (sv\<lparr>sv_deliveries := q, sv_metrics := mx\<lparr>m_Deliveries := m_Deliveries mx + 1\<rparr>\<rparr>, Delivered))
      | Some err \<Rightarrow>
          (let sv1 = sv\<lparr>sv_metrics := mx\<lparr>m_DeliveryFailures := m_DeliveryFailures mx + 1\<rparr>\<rparr>;
               d1 = d\<lparr>dl_Attempts := dl_Attempts d + 1, dl_LastError := err\<rparr>
           in if dl_MaxAttempts d1 \<le> dl_Attempts d1 then
                (case Put (rc_dead rc) (dl_ID d1) \<lparr>dq_Delivery = d1, dq_FailedAt = en_now env, dq_Reason = err\<rparr> (sv_dlq sv1) of
                   (dq, Some _) \<Rightarrow> (sv1\<lparr>sv_dlq := dq\<rparr>, QueueFailed)
                 | (dq, None) \<Rightarrow>
                     (let sv2 = sv1\<lparr>sv_dlq := dq\<rparr>
                      in case Delete (rc_delivery rc) (dl_ID d1) (sv_deliveries sv2) of
                           (q, Some _) \<Rightarrow> (sv2\<lparr>sv_deliveries := q\<rparr>, QueueFailed)
                         | (q, None) \<Rightarrow>
                             (let sv3 = sv2\<lparr>sv_deliveries := q,
                                    sv_store := fst (AddAlert \<lparr>al_ID = gen_id ''alert'' (en_rand env 0), al_SiteID = dl_SiteID d1,
                                      al_Severity = ''high'', al_Type = ''delivery_failed'',
                                      al_Message = ''route '' @ dl_RouteID d1 @ '' moved to dead letter queue: '' @ err,
                                      al_Resolved = False, al_CreatedAt = en_now env\<rparr> (sv_store sv2))\<rparr>
                              in (server_note env ''error'' ''control-plane'' ''system'' [] (dl_SiteID d1) [] ''delivery.dlq''
                                    (''delivery exhausted retries '' @ [CHR 0xE2, CHR 0x86, CHR 0x92] @ '' dead letter'')
                                    [(''route_id'', JStr (dl_RouteID d1)), (''event_id'', JStr (dl_EventID d1)),
                                     (''topic'', JStr (dl_Topic d1)), (''reason'', JStr err), (''attempts'', JInt (dl_Attempts d1))] sv3,
                                  DeadLettered))))
              else
                (case Put (rc_delivery rc) (dl_ID d1) (d1\<lparr>dl_NextAttempt := en_now env + backoff (dl_Attempts d1)\<rparr>)
                        (sv_deliveries sv1) of
                   (q, Some _) \<Rightarrow> (sv1\<lparr>sv_deliveries := q\<rparr>, QueueFailed)
                 | (q, None) \<Rightarrow> (sv1\<lparr>sv_deliveries := q\<rparr>, Rescheduled))))"

fun process_list ::
  "relay_cfg \<Rightarrow> env \<Rightarrow> (delivery \<Rightarrow> http_result) \<Rightarrow> delivery list \<Rightarrow> server \<Rightarrow> server" where
  "process_list rc env res [] sv = sv"
| "process_list rc env res (d # ds) sv =
     process_list rc env res ds (if en_now env < dl_NextAttempt d then sv else fst (processOne rc env (res d) d sv))"

definition processDeliveries ::
  "relay_cfg \<Rightarrow> bool \<Rightarrow> env \<Rightarrow> (delivery \<Rightarrow> http_result) \<Rightarrow> server \<Rightarrow> server" where
  "processDeliveries rc lead env res sv =
     (if \<not> lead then sv else process_list rc env res (List (sv_deliveries sv)) sv)"

subsection \<open>Dead letters\<close>

definition deadletters :: "config \<Rightarrow> env \<Rightarrow> http_request \<Rightarrow> server \<Rightarrow> server \<times> dead_letter list" where
  "deadletters cfg env r sv0 =
     (let items = List (sv_dlq sv0)
      in case orgForBearer cfg (en_now env) (bearer r) sv0 of
           (sv, Some og) \<Rightarrow> (sv, filter (\<lambda>x. dl_SiteID (dq_Delivery x) \<in> set (siteIDsForOrg og sv)) items)
         | (sv, None) \<Rightarrow> keep_visible cfg (en_now env) r (\<lambda>x. dl_SiteID (dq_Delivery x)) items sv)"

definition deadletterReplay :: "relay_cfg \<Rightarrow> config \<Rightarrow> env \<Rightarrow> http_request \<Rightarrow> string \<Rightarrow> server \<Rightarrow> server \<times> json_map reply" where
  "deadletterReplay rc cfg env r i sv0 =
     (case Get i (sv_dlq sv0) of
        None \<Rightarrow> (sv0, Fail 404 ''dead letter not found'')
      | Some x \<Rightarrow>
          (case callerCanMutateSite cfg (en_now env) r (dl_SiteID (dq_Delivery x)) sv0 of
             (sv, False) \<Rightarrow> (sv, Fail 404 ''dead letter not found'')
           | (sv, True) \<Rightarrow>
               (let d = (dq_Delivery x)\<lparr>dl_Attempts := 0, dl_LastError := [], dl_NextAttempt := en_now env\<rparr>
                in case Put (rc_delivery rc) (dl_ID d) d (sv_deliveries sv) of
                     (q, Some e) \<Rightarrow> (sv\<lparr>sv_deliveries := q\<rparr>, Fail 503 (queue_error_text e))
                   | (q, None) \<Rightarrow>
                       (case Delete (rc_dead rc) i (sv_dlq sv) of
                          (dq, Some e) \<Rightarrow> (sv\<lparr>sv_deliveries := q, sv_dlq := dq\<rparr>, Fail 500 (queue_error_text e))
                        | (dq, None) \<Rightarrow>
                            (sv\<lparr>sv_deliveries := q, sv_dlq := dq\<rparr>,
                             Done 202 [(''replayed'', JBool True), (''delivery_id'', JStr (dl_ID d))])))))"

definition deadletterDelete :: "relay_cfg \<Rightarrow> config \<Rightarrow> env \<Rightarrow> http_request \<Rightarrow> string \<Rightarrow> server \<Rightarrow> server \<times> json_map reply" where
  "deadletterDelete rc cfg env r i sv0 =
     (let drop = (\<lambda>sv. case Delete (rc_dead rc) i (sv_dlq sv) of
                         (dq, Some e) \<Rightarrow> (sv\<lparr>sv_dlq := dq\<rparr>, Fail 500 (queue_error_text e))
                       | (dq, None) \<Rightarrow> (sv\<lparr>sv_dlq := dq\<rparr>, Done 204 []))
      in case Get i (sv_dlq sv0) of
           None \<Rightarrow> drop sv0
         | Some x \<Rightarrow>
             (case callerCanMutateSite cfg (en_now env) r (dl_SiteID (dq_Delivery x)) sv0 of
                (sv, False) \<Rightarrow> (sv, Fail 404 ''dead letter not found'')
              | (sv, True) \<Rightarrow> drop sv))"

definition countDeliveriesForSites :: "relay_cfg \<Rightarrow> string list \<Rightarrow> server \<Rightarrow> nat \<times> nat" where
  "countDeliveriesForSites rc ids sv =
     (let ds = filter (\<lambda>d. dl_SiteID d \<in> set ids) (List (sv_deliveries sv))
      in (length ds, sum_list (map (\<lambda>d. length (rc_raw rc (dl_Payload d))) ds)))"

definition countDeadLettersForSites :: "string list \<Rightarrow> server \<Rightarrow> nat" where
  "countDeadLettersForSites ids sv = length (filter (\<lambda>x. dl_SiteID (dq_Delivery x) \<in> set ids) (List (sv_dlq sv)))"

subsection \<open>Lemmas: ingestion\<close>

lemma put_routes_live: "live (rc_delivery rc) q \<Longrightarrow> live (rc_delivery rc) (fst (put_routes rc siteID topic mk rts q))"
proof (induction rts arbitrary: q)
  case (Cons rt rts)
  obtain q' e where p: "Put (rc_delivery rc) (dl_ID (mk rt)) (mk rt) q = (q', e)" by fastforce
  have l: "live (rc_delivery rc) q'" using wq.put_inv[OF Cons.prems, of "dl_ID (mk rt)" "mk rt"] p by simp
  then show ?case
    using Cons.IH[OF Cons.prems] Cons.IH[OF l] p
    by (cases e; cases "put_routes rc siteID topic mk rts q'"; cases "snd (put_routes rc siteID topic mk rts q')") simp_all
qed simp

text \<open>After the loop every matching route has its delivery, no other entry has changed, and the
  count is the number of matching routes.\<close>

lemma put_routes_ok:
  assumes "live (rc_delivery rc) q" "put_routes rc siteID topic mk rts q = (q', Inr n)"
  shows "n = length (filter (route_matches siteID topic) rts) \<and>
    (\<forall>j. Get j q' \<noteq> Get j q \<longrightarrow> j \<in> (\<lambda>x. dl_ID (mk x)) ` set (filter (route_matches siteID topic) rts)) \<and>
    (\<forall>rt \<in> set (filter (route_matches siteID topic) rts). Get (dl_ID (mk rt)) q' \<noteq> None) \<and>
    (inj_on (\<lambda>x. dl_ID (mk x)) (set (filter (route_matches siteID topic) rts)) \<longrightarrow>
       (\<forall>rt \<in> set (filter (route_matches siteID topic) rts). Get (dl_ID (mk rt)) q' = Some (mk rt)))"
  using assms
proof (induction rts arbitrary: q q' n)
  case (Cons rt rts)
  show ?case
  proof (cases "route_matches siteID topic rt")
    case False
    then show ?thesis using Cons.IH[OF Cons.prems(1)] Cons.prems(2) by simp
  next
    case True
    obtain q1 where p: "Put (rc_delivery rc) (dl_ID (mk rt)) (mk rt) q = (q1, None)"
      using Cons.prems(2) True by (auto split: prod.splits option.splits)
    then obtain n1 where r: "put_routes rc siteID topic mk rts q1 = (q', Inr n1)" "n = n1 + 1"
      using Cons.prems(2) True by (auto split: prod.splits sum.splits)
    have l1: "live (rc_delivery rc) q1" using wq.put_inv[OF Cons.prems(1), of "dl_ID (mk rt)" "mk rt"] p by simp
    have g1: "Get j q1 = (if j = dl_ID (mk rt) then Some (mk rt) else Get j q)" for j
      using wq.get_put[OF Cons.prems(1), of j "dl_ID (mk rt)" "mk rt"] p by simp
    note IH = Cons.IH[OF l1 r(1)]
    let ?F = "set (filter (route_matches siteID topic) rts)"
    have other: "Get j q' = Get j q1" if "j \<notin> (\<lambda>x. dl_ID (mk x)) ` ?F" for j using IH that by blast
    have mine: "Get (dl_ID (mk rt)) q' \<noteq> None"
      using IH g1[of "dl_ID (mk rt)"] other[of "dl_ID (mk rt)"] by (cases "dl_ID (mk rt) \<in> (\<lambda>x. dl_ID (mk x)) ` ?F") auto
    have exact: "Get (dl_ID (mk rt)) q' = Some (mk rt)" if "inj_on (\<lambda>x. dl_ID (mk x)) (insert rt ?F)"
    proof (cases "rt \<in> ?F")
      case True
      then show ?thesis using IH that inj_on_subset[OF that subset_insertI] by blast
    next
      case False
      then have "dl_ID (mk rt) \<notin> (\<lambda>x. dl_ID (mk x)) ` ?F" using that by (auto dest: inj_onD)
      then show ?thesis using other g1 by simp
    qed
    have rest: "\<forall>x \<in> ?F. Get (dl_ID (mk x)) q' = Some (mk x)" if "inj_on (\<lambda>x. dl_ID (mk x)) (insert rt ?F)"
      using IH inj_on_subset[OF that subset_insertI] by blast
    have changed: "j \<in> (\<lambda>x. dl_ID (mk x)) ` insert rt ?F" if "Get j q' \<noteq> Get j q" for j
      using that other[of j] g1[of j] by (cases "j = dl_ID (mk rt)") auto
    show ?thesis using True r(2) IH mine exact rest changed by auto
  qed
qed simp

text \<open>What an acknowledgement promises: the delivery of every matching route.\<close>

definition event_deliveries :: "config \<Rightarrow> string \<Rightarrow> string \<Rightarrow> string \<Rightarrow> server \<Rightarrow> string list" where
  "event_deliveries cfg eventID siteID topic sv =
     map (\<lambda>rt. deterministicDeliveryID cfg eventID (rt_ID rt))
       (filter (route_matches siteID topic) (Routes (st_state (sv_store sv))))"

lemma route_delivery_ID [simp]: "dl_ID (route_delivery cfg now e s t p h et rt) = deterministicDeliveryID cfg e (rt_ID rt)"
  by (simp add: route_delivery_def)

definition effective_id :: "env \<Rightarrow> agent_event \<Rightarrow> string" where
  "effective_id env a = (if ae_EventID a = [] then gen_id ''evt'' (en_rand env 0) else ae_EventID a)"

lemma ingest_cases:
  assumes "ingestAgentEvent rc cfg env siteID a sv = (sv', rep)"
  obtains (bad) "rep = Fail 400 ''topic and payload are required''" "sv' = sv"
  | (dup) b where "rep = Done 202 b" "is_duplicate b" "HasEvent (effective_id env a) (sv_store sv)"
      "sv' = sv\<lparr>sv_metrics := sv_metrics sv'\<rparr>"
  | (failed) q st payload code msg where "rep = Fail code msg" "ae_Payload a = Some payload" "ae_Topic a \<noteq> []"
      "\<not> HasEvent (effective_id env a) (sv_store sv)"
      "q = fst (put_routes rc siteID (ae_Topic a) (route_delivery cfg (en_now env) (effective_id env a) siteID (ae_Topic a) payload
         (ae_Headers a) (if ae_EventTime a = 0 then en_now env else ae_EventTime a)) (Routes (st_state (sv_store sv))) (sv_deliveries sv))"
      "sv' = sv\<lparr>sv_deliveries := q, sv_store := st\<rparr>"
  | (acked) q st n payload b ev where "rep = Done 202 b" "\<not> is_duplicate b" "ae_Payload a = Some payload" "ae_Topic a \<noteq> []"
      "\<not> HasEvent (effective_id env a) (sv_store sv)"
      "put_routes rc siteID (ae_Topic a) (route_delivery cfg (en_now env) (effective_id env a) siteID (ae_Topic a) payload
         (ae_Headers a) (if ae_EventTime a = 0 then en_now env else ae_EventTime a)) (Routes (st_state (sv_store sv))) (sv_deliveries sv) = (q, Inr n)"
      "ev_ID ev = effective_id env a" "AddEvent ev (sv_store sv) = (st, None)"
      "sv_deliveries sv' = q" "sv_store sv' = st" "sv_dlq sv' = sv_dlq sv" "sv_sessions sv' = sv_sessions sv" "sv_roles sv' = sv_roles sv"
proof (cases "ae_Topic a = [] \<or> ae_Payload a = None")
  case True
  then show thesis using assms bad by (cases "ae_Topic a = []") (simp_all add: ingestAgentEvent_def)
next
  case False
  then obtain payload where pl: "ae_Payload a = Some payload" "ae_Topic a \<noteq> []" by auto
  let ?id = "effective_id env a"
  let ?et = "if ae_EventTime a = 0 then en_now env else ae_EventTime a"
  let ?mk = "route_delivery cfg (en_now env) ?id siteID (ae_Topic a) payload (ae_Headers a) ?et"
  obtain q x where p: "put_routes rc siteID (ae_Topic a) ?mk (Routes (st_state (sv_store sv))) (sv_deliveries sv) = (q, x)" by fastforce
  let ?ev = "\<lparr>ev_ID = ?id, ev_SiteID = siteID, ev_Topic = ae_Topic a, ev_Payload = payload, ev_Headers = ae_Headers a,
      ev_EventTime = ?et, ev_IngestedAt = en_now env, ev_CreatedAt = ?et\<rparr>"
  obtain st y where ad: "AddEvent ?ev (sv_store sv) = (st, y)" by fastforce
  note unfold = ingestAgentEvent_def Let_def effective_id_def[symmetric]
  show thesis
  proof (cases "HasEvent ?id (sv_store sv)")
    case True
    then show thesis using dup assms pl by (auto simp: unfold is_duplicate_def)
  next
    case nh: False
    show thesis
    proof (cases x)
      case (Inl e)
      then have "sv' = sv\<lparr>sv_deliveries := q, sv_store := sv_store sv\<rparr>" "\<exists>code msg. rep = Fail code msg"
        using assms pl p nh by (auto simp: unfold)
      then obtain code msg where "rep = Fail code msg" "sv' = sv\<lparr>sv_deliveries := q, sv_store := sv_store sv\<rparr>" by blast
      then show thesis using p pl nh by (intro failed[of code msg payload q "sv_store sv"]) simp_all
    next
      case (Inr n)
      show thesis
      proof (cases y)
        case (Some e)
        then have "sv' = sv\<lparr>sv_deliveries := q, sv_store := st\<rparr>" "\<exists>code msg. rep = Fail code msg"
          using assms pl p Inr nh ad by (auto simp: unfold)
        then obtain code msg where "rep = Fail code msg" "sv' = sv\<lparr>sv_deliveries := q, sv_store := st\<rparr>" by blast
        then show thesis using p pl nh by (intro failed[of code msg payload q st]) simp_all
      next
        case None
        then obtain b where "rep = Done 202 b" "\<not> is_duplicate b" and
          s: "sv_deliveries sv' = q" "sv_store sv' = st" "sv_dlq sv' = sv_dlq sv" "sv_sessions sv' = sv_sessions sv" "sv_roles sv' = sv_roles sv"
          using assms pl p Inr nh ad by (auto simp: unfold is_duplicate_def)
        then show thesis using p pl nh ad None Inr by (intro acked[of b payload q n ?ev st]) simp_all
      qed
    qed
  qed
qed

lemma put_routes_grows:
  "live (rc_delivery rc) q \<Longrightarrow> Get i q \<noteq> None \<Longrightarrow> Get i (fst (put_routes rc siteID topic mk rts q)) \<noteq> None"
proof (induction rts arbitrary: q)
  case (Cons rt rts)
  obtain q' e where p: "Put (rc_delivery rc) (dl_ID (mk rt)) (mk rt) q = (q', e)" by fastforce
  have l: "live (rc_delivery rc) q'" using wq.put_inv[OF Cons.prems(1), of "dl_ID (mk rt)" "mk rt"] p by simp
  have g: "Get i q' \<noteq> None" using wq.get_put[OF Cons.prems(1), of i "dl_ID (mk rt)" "mk rt"] Cons.prems(2) p by simp
  show ?case
    using Cons.IH[OF Cons.prems] Cons.IH[OF l g] p g
    by (cases e; cases "put_routes rc siteID topic mk rts q'"; cases "snd (put_routes rc siteID topic mk rts q')") simp_all
qed simp

subsection \<open>Lemmas: one attempt\<close>

definition failed_once :: "string \<Rightarrow> delivery \<Rightarrow> delivery" where
  "failed_once err d = d\<lparr>dl_Attempts := dl_Attempts d + 1, dl_LastError := err\<rparr>"

lemma failed_once_simps [simp]:
  "dl_ID (failed_once err d) = dl_ID d" "dl_Attempts (failed_once err d) = dl_Attempts d + 1"
  "dl_MaxAttempts (failed_once err d) = dl_MaxAttempts d"
  by (simp_all add: failed_once_def)

text \<open>The effect of an attempt on the two queues, branch by branch.\<close>

lemma processOne_cases:
  assumes "processOne rc env res d sv = (sv', out)"
  obtains (delivered) "out = Delivered" "deliver res = None"
      "sv_deliveries sv' = fst (Delete (rc_delivery rc) (dl_ID d) (sv_deliveries sv))" "sv_dlq sv' = sv_dlq sv"
      "sv_sessions sv' = sv_sessions sv"
  | (dead_put) err where "deliver res = Some err" "dl_MaxAttempts d \<le> dl_Attempts d + 1" "out = QueueFailed"
      "snd (Put (rc_dead rc) (dl_ID d) \<lparr>dq_Delivery = failed_once err d, dq_FailedAt = en_now env, dq_Reason = err\<rparr> (sv_dlq sv)) \<noteq> None"
      "sv_dlq sv' = fst (Put (rc_dead rc) (dl_ID d) \<lparr>dq_Delivery = failed_once err d, dq_FailedAt = en_now env, dq_Reason = err\<rparr> (sv_dlq sv))"
      "sv_deliveries sv' = sv_deliveries sv" "sv_sessions sv' = sv_sessions sv"
  | (dead) err where "deliver res = Some err" "dl_MaxAttempts d \<le> dl_Attempts d + 1"
      "snd (Put (rc_dead rc) (dl_ID d) \<lparr>dq_Delivery = failed_once err d, dq_FailedAt = en_now env, dq_Reason = err\<rparr> (sv_dlq sv)) = None"
      "sv_dlq sv' = fst (Put (rc_dead rc) (dl_ID d) \<lparr>dq_Delivery = failed_once err d, dq_FailedAt = en_now env, dq_Reason = err\<rparr> (sv_dlq sv))"
      "sv_deliveries sv' = fst (Delete (rc_delivery rc) (dl_ID d) (sv_deliveries sv))" "sv_sessions sv' = sv_sessions sv"
      "out = (if snd (Delete (rc_delivery rc) (dl_ID d) (sv_deliveries sv)) = None then DeadLettered else QueueFailed)"
  | (retry) err where "deliver res = Some err" "dl_Attempts d + 1 < dl_MaxAttempts d"
      "sv_deliveries sv' = fst (Put (rc_delivery rc) (dl_ID d)
         ((failed_once err d)\<lparr>dl_NextAttempt := en_now env + backoff (dl_Attempts d + 1)\<rparr>) (sv_deliveries sv))"
      "sv_dlq sv' = sv_dlq sv" "sv_sessions sv' = sv_sessions sv"
      "out = (if snd (Put (rc_delivery rc) (dl_ID d)
         ((failed_once err d)\<lparr>dl_NextAttempt := en_now env + backoff (dl_Attempts d + 1)\<rparr>) (sv_deliveries sv)) = None then Rescheduled else QueueFailed)"
proof (cases "deliver res")
  case None
  then show thesis using delivered assms by (auto simp: processOne_def Let_def split: prod.splits)
next
  case (Some err)
  note u = processOne_def Let_def failed_once_def[symmetric]
  show thesis
  proof (cases "dl_MaxAttempts d \<le> dl_Attempts d + 1")
    case False
    obtain q e where p: "Put (rc_delivery rc) (dl_ID d) ((failed_once err d)\<lparr>dl_NextAttempt := en_now env + backoff (dl_Attempts d + 1)\<rparr>)
        (sv_deliveries sv) = (q, e)" by fastforce
    then have "sv_deliveries sv' = q" "sv_dlq sv' = sv_dlq sv" "sv_sessions sv' = sv_sessions sv"
      "out = (if e = None then Rescheduled else QueueFailed)"
      using assms Some False by (cases e; auto simp: u)+
    then show thesis using retry[OF Some] False p by simp
  next
    case True
    obtain dq e where p: "Put (rc_dead rc) (dl_ID d) \<lparr>dq_Delivery = failed_once err d, dq_FailedAt = en_now env, dq_Reason = err\<rparr>
        (sv_dlq sv) = (dq, e)" by fastforce
    obtain q e2 where d: "Delete (rc_delivery rc) (dl_ID d) (sv_deliveries sv) = (q, e2)" by fastforce
    show thesis
    proof (cases e)
      case e: (Some x)
      have "sv_dlq sv' = dq" "sv_deliveries sv' = sv_deliveries sv" "sv_sessions sv' = sv_sessions sv" "out = QueueFailed"
        using assms Some True p e by (auto simp: u)
      then show thesis using dead_put[OF Some True] p e by simp
    next
      case e: None
      have "sv_dlq sv' = dq" "sv_deliveries sv' = q" "sv_sessions sv' = sv_sessions sv"
        "out = (if e2 = None then DeadLettered else QueueFailed)"
        using assms Some True p e d by (cases e2; auto simp: u)+
      then show thesis using dead[OF Some True] p e d by simp
    qed
  qed
qed

subsection \<open>Lemmas: nothing is lost\<close>

text \<open>What was promised, what a target has accepted, and what an operator has deleted.\<close>

record relay_hist =
  rh_acked :: "string set"
  rh_delivered :: "string set"
  rh_removed :: "string set"

definition acknowledged :: "json_map reply \<Rightarrow> bool" where
  "acknowledged rep = (case rep of Fail _ _ \<Rightarrow> False | Done _ b \<Rightarrow> \<not> is_duplicate b)"

definition dlq_keyed :: "dead_letter queue \<Rightarrow> bool" where
  "dlq_keyed q \<longleftrightarrow> (\<forall>i x. Get i q = Some x \<longrightarrow> dl_ID (dq_Delivery x) = i)"

text \<open>The server from its start on: ingestion, attempts for any delivery with any answer, and the
  two dead-letter endpoints, in any order.\<close>

inductive relay_reach :: "relay_cfg \<Rightarrow> config \<Rightarrow> server \<Rightarrow> relay_hist \<Rightarrow> bool" for rc cfg where
  start: "live (rc_delivery rc) (sv_deliveries sv) \<Longrightarrow> live (rc_dead rc) (sv_dlq sv) \<Longrightarrow> dlq_keyed (sv_dlq sv) \<Longrightarrow>
    ss_ok (sv_sessions sv) \<Longrightarrow> relay_reach rc cfg sv \<lparr>rh_acked = {}, rh_delivered = {}, rh_removed = {}\<rparr>"
| ingest: "relay_reach rc cfg sv h \<Longrightarrow> ingestAgentEvent rc cfg env siteID a sv = (sv', rep) \<Longrightarrow>
    relay_reach rc cfg sv' (if acknowledged rep
      then h\<lparr>rh_acked := rh_acked h \<union> set (event_deliveries cfg (effective_id env a) siteID (ae_Topic a) sv)\<rparr> else h)"
| attempt: "relay_reach rc cfg sv h \<Longrightarrow> processOne rc env res d sv = (sv', out) \<Longrightarrow>
    relay_reach rc cfg sv' (if deliver res = None then h\<lparr>rh_delivered := insert (dl_ID d) (rh_delivered h)\<rparr> else h)"
| replay: "relay_reach rc cfg sv h \<Longrightarrow> deadletterReplay rc cfg env r i sv = (sv', rep) \<Longrightarrow> relay_reach rc cfg sv' h"
| remove: "relay_reach rc cfg sv h \<Longrightarrow> deadletterDelete rc cfg env r i sv = (sv', rep) \<Longrightarrow>
    relay_reach rc cfg sv' (h\<lparr>rh_removed := insert i (rh_removed h)\<rparr>)"

definition accounted :: "server \<Rightarrow> relay_hist \<Rightarrow> string \<Rightarrow> bool" where
  "accounted sv h i \<longleftrightarrow>
     i \<in> rh_delivered h \<or> i \<in> rh_removed h \<or> Get i (sv_deliveries sv) \<noteq> None \<or> Get i (sv_dlq sv) \<noteq> None"

definition relay_inv :: "relay_cfg \<Rightarrow> server \<Rightarrow> relay_hist \<Rightarrow> bool" where
  "relay_inv rc sv h \<longleftrightarrow>
     live (rc_delivery rc) (sv_deliveries sv) \<and> live (rc_dead rc) (sv_dlq sv) \<and> dlq_keyed (sv_dlq sv) \<and>
     ss_ok (sv_sessions sv) \<and> (\<forall>i \<in> rh_acked h. accounted sv h i)"

lemma relay_invI:
  assumes "relay_inv rc sv h" "live (rc_delivery rc) (sv_deliveries sv')" "live (rc_dead rc) (sv_dlq sv')"
    "dlq_keyed (sv_dlq sv')" "ss_ok (sv_sessions sv')"
    "\<And>i. accounted sv h i \<Longrightarrow> accounted sv' h' i" "\<And>i. i \<in> rh_acked h' \<Longrightarrow> i \<notin> rh_acked h \<Longrightarrow> accounted sv' h' i"
  shows "relay_inv rc sv' h'"
  using assms unfolding relay_inv_def by blast

lemma dlq_keyed_put:
  assumes "live cd q" "dlq_keyed q" "dl_ID (dq_Delivery x) = i"
  shows "dlq_keyed (fst (Put cd i x q))"
  using assms wq.get_put[OF assms(1), of _ i x] by (auto simp: dlq_keyed_def split: if_splits)

lemma dlq_keyed_del:
  assumes "live cd q" "dlq_keyed q"
  shows "dlq_keyed (fst (Delete cd i q))"
  using assms wq.get_del[OF assms(1), of _ i] by (auto simp: dlq_keyed_def split: if_splits)

lemma attempt_inv:
  assumes "relay_inv rc sv h" "processOne rc env res d sv = (sv', out)"
  shows "relay_inv rc sv' (if deliver res = None then h\<lparr>rh_delivered := insert (dl_ID d) (rh_delivered h)\<rparr> else h)"
proof -
  have lq: "live (rc_delivery rc) (sv_deliveries sv)" and ld: "live (rc_dead rc) (sv_dlq sv)"
    and k: "dlq_keyed (sv_dlq sv)" and s: "ss_ok (sv_sessions sv)" using assms(1) by (simp_all add: relay_inv_def)
  note del = wq.get_del[OF lq, of _ "dl_ID d"] and put = wq.get_put[OF lq, of _ "dl_ID d"] and dput = wq.get_put[OF ld, of _ "dl_ID d"]
  have kd: "dlq_keyed (fst (Put (rc_dead rc) (dl_ID d) \<lparr>dq_Delivery = failed_once err d, dq_FailedAt = t, dq_Reason = err\<rparr> (sv_dlq sv)))"
    for err t by (rule dlq_keyed_put[OF ld k]) simp
  from assms(2) show ?thesis
  proof (cases rule: processOne_cases)
    case delivered
    show ?thesis
      using delivered lq ld k s del wq.del_inv[OF lq]
      by (intro relay_invI[OF assms(1)]) (auto simp: accounted_def relay_inv_def)
  next
    case (dead_put err)
    show ?thesis
      using dead_put lq ld k s dput wq.put_inv[OF ld] kd
      by (intro relay_invI[OF assms(1)]) (auto simp: accounted_def)
  next
    case (dead err)
    show ?thesis
      using dead lq ld k s dput del wq.put_inv[OF ld] wq.del_inv[OF lq] kd
      by (intro relay_invI[OF assms(1)]) (auto simp: accounted_def)
  next
    case (retry err)
    show ?thesis
      using retry lq ld k s put wq.put_inv[OF lq]
      by (intro relay_invI[OF assms(1)]) (auto simp: accounted_def)
  qed
qed

lemma ingest_inv:
  assumes "relay_inv rc sv h" "ingestAgentEvent rc cfg env siteID a sv = (sv', rep)"
  shows "relay_inv rc sv' (if acknowledged rep
      then h\<lparr>rh_acked := rh_acked h \<union> set (event_deliveries cfg (effective_id env a) siteID (ae_Topic a) sv)\<rparr> else h)"
proof -
  have lq: "live (rc_delivery rc) (sv_deliveries sv)" and ld: "live (rc_dead rc) (sv_dlq sv)"
    and k: "dlq_keyed (sv_dlq sv)" and s: "ss_ok (sv_sessions sv)" using assms(1) by (simp_all add: relay_inv_def)
  from assms(2) show ?thesis
  proof (cases rule: ingest_cases)
    case bad
    then show ?thesis using assms(1) by (simp add: acknowledged_def)
  next
    case (dup b)
    have "sv_deliveries sv' = sv_deliveries sv" by (subst dup(4)) simp
    moreover have "sv_dlq sv' = sv_dlq sv" by (subst dup(4)) simp
    moreover have "sv_sessions sv' = sv_sessions sv" by (subst dup(4)) simp
    ultimately show ?thesis using assms(1) dup(1,2) by (simp add: acknowledged_def relay_inv_def accounted_def)
  next
    case (failed q st payload code msg)
    let ?mk = "route_delivery cfg (en_now env) (effective_id env a) siteID (ae_Topic a) payload (ae_Headers a)
        (if ae_EventTime a = 0 then en_now env else ae_EventTime a)"
    have "live (rc_delivery rc) q" using put_routes_live[OF lq] failed(5) by simp
    moreover have "Get i q \<noteq> None" if "Get i (sv_deliveries sv) \<noteq> None" for i
      using put_routes_grows[OF lq that] failed(5) by simp
    ultimately show ?thesis
      using failed(1,6) lq ld k s by (intro relay_invI[OF assms(1)]) (auto simp: acknowledged_def accounted_def)
  next
    case (acked q st n payload b ev)
    let ?mk = "route_delivery cfg (en_now env) (effective_id env a) siteID (ae_Topic a) payload (ae_Headers a)
        (if ae_EventTime a = 0 then en_now env else ae_EventTime a)"
    have l: "live (rc_delivery rc) q"
      using put_routes_live[OF lq, of siteID "ae_Topic a" ?mk "Routes (st_state (sv_store sv))"] acked(6) by simp
    have g: "Get i q \<noteq> None" if "Get i (sv_deliveries sv) \<noteq> None" for i
      using put_routes_grows[OF lq that, of siteID "ae_Topic a" ?mk "Routes (st_state (sv_store sv))"] acked(6) by simp
    have p: "Get i q \<noteq> None" if "i \<in> set (event_deliveries cfg (effective_id env a) siteID (ae_Topic a) sv)" for i
      using that put_routes_ok[OF lq acked(6)] by (auto simp: event_deliveries_def)
    show ?thesis
      using acked(1,2,9,11,12) l g p ld k s
      by (intro relay_invI[OF assms(1)]) (auto simp: acknowledged_def accounted_def)
  qed
qed

lemma replay_inv:
  assumes "relay_inv rc sv h" "deadletterReplay rc cfg env r i sv = (sv', rep)"
  shows "relay_inv rc sv' h"
proof (cases "Get i (sv_dlq sv)")
  case None
  then show ?thesis using assms by (simp add: deadletterReplay_def)
next
  case (Some x)
  have lq: "live (rc_delivery rc) (sv_deliveries sv)" and ld: "live (rc_dead rc) (sv_dlq sv)"
    and k: "dlq_keyed (sv_dlq sv)" and s: "ss_ok (sv_sessions sv)" using assms(1) by (simp_all add: relay_inv_def)
  obtain sv1 ok where c: "callerCanMutateSite cfg (en_now env) r (dl_SiteID (dq_Delivery x)) sv = (sv1, ok)" by fastforce
  have t: "touched (en_now env) sv sv1"
    using callerCanMutateSite_touched[OF s, of "en_now env" cfg r "dl_SiteID (dq_Delivery x)"] c by simp
  note f = touched_fields[OF t] touched_ok[OF t]
  have base: "relay_inv rc sv1 h"
    using f lq ld k by (intro relay_invI[OF assms(1)]) (simp_all add: accounted_def)
  show ?thesis
  proof (cases ok)
    case False
    then show ?thesis using assms(2) Some c base by (simp add: deadletterReplay_def)
  next
    case True
    let ?d = "(dq_Delivery x)\<lparr>dl_Attempts := 0, dl_LastError := [], dl_NextAttempt := en_now env\<rparr>"
    have i: "dl_ID ?d = i" using k Some by (simp add: dlq_keyed_def)
    obtain q e where p: "Put (rc_delivery rc) i ?d (sv_deliveries sv) = (q, e)" by fastforce
    obtain dq e2 where d: "Delete (rc_dead rc) i (sv_dlq sv) = (dq, e2)" by fastforce
    have q: "live (rc_delivery rc) q" "Get j q = (if j = i \<and> e = None then Some ?d else Get j (sv_deliveries sv))" for j
      using wq.put_inv[OF lq, of i ?d] wq.get_put[OF lq, of j i ?d] p by simp_all
    have dq: "live (rc_dead rc) dq" "dlq_keyed dq" "Get j dq = (if j = i \<and> e2 = None then None else Get j (sv_dlq sv))" for j
      using wq.del_inv[OF ld, of i] dlq_keyed_del[OF ld k, of i] wq.get_del[OF ld, of j i] d by simp_all
    have "sv_sessions sv' = sv_sessions sv1 \<and> sv_deliveries sv' = q \<and>
        sv_dlq sv' = (if e = None then dq else sv_dlq sv)"
      using assms(2) Some c True i p d f by (cases e; cases e2) (auto simp: deadletterReplay_def Let_def)
    then show ?thesis
      using touched_ok[OF t] q dq ld k by (intro relay_invI[OF assms(1)]) (auto simp: accounted_def)
  qed
qed

lemma remove_inv:
  assumes "relay_inv rc sv h" "deadletterDelete rc cfg env r i sv = (sv', rep)"
  shows "relay_inv rc sv' (h\<lparr>rh_removed := insert i (rh_removed h)\<rparr>)"
proof -
  have lq: "live (rc_delivery rc) (sv_deliveries sv)" and ld: "live (rc_dead rc) (sv_dlq sv)"
    and k: "dlq_keyed (sv_dlq sv)" and s: "ss_ok (sv_sessions sv)" using assms(1) by (simp_all add: relay_inv_def)
  obtain dq e where d: "Delete (rc_dead rc) i (sv_dlq sv) = (dq, e)" by fastforce
  have dq: "live (rc_dead rc) dq" "dlq_keyed dq" "Get j dq = (if j = i \<and> e = None then None else Get j (sv_dlq sv))" for j
    using wq.del_inv[OF ld, of i] dlq_keyed_del[OF ld k, of i] wq.get_del[OF ld, of j i] d by simp_all
  have main: "relay_inv rc sv' (h\<lparr>rh_removed := insert i (rh_removed h)\<rparr>)"
    if "ss_ok (sv_sessions sv')" "sv_deliveries sv' = sv_deliveries sv" "sv_dlq sv' = dq \<or> sv_dlq sv' = sv_dlq sv" for sv'
    using that lq ld k dq by (intro relay_invI[OF assms(1)]) (auto simp: accounted_def)
  show ?thesis
  proof (cases "Get i (sv_dlq sv)")
    case None
    then show ?thesis using assms(2) s d by (cases e) (auto simp: deadletterDelete_def Let_def intro!: main)
  next
    case (Some x)
    obtain sv1 ok where c: "callerCanMutateSite cfg (en_now env) r (dl_SiteID (dq_Delivery x)) sv = (sv1, ok)" by fastforce
    have t: "touched (en_now env) sv sv1"
      using callerCanMutateSite_touched[OF s, of "en_now env" cfg r "dl_SiteID (dq_Delivery x)"] c by simp
    show ?thesis
      using assms(2) Some c d touched_fields[OF t] touched_ok[OF t]
      by (cases ok; cases e) (auto simp: deadletterDelete_def Let_def intro!: main)
  qed
qed

lemma relay_reach_inv: "relay_reach rc cfg sv h \<Longrightarrow> relay_inv rc sv h"
proof (induction rule: relay_reach.induct)
  case (start sv)
  then show ?case by (simp add: relay_inv_def)
next
  case (ingest sv h env siteID a sv' rep)
  show ?case by (rule ingest_inv[OF ingest.IH ingest.hyps(2)])
next
  case (attempt sv h env res d sv' out)
  show ?case by (rule attempt_inv[OF attempt.IH attempt.hyps(2)])
next
  case (replay sv h env r i sv' rep)
  show ?case by (rule replay_inv[OF replay.IH replay.hyps(2)])
next
  case (remove sv h env r i sv' rep)
  show ?case by (rule remove_inv[OF remove.IH remove.hyps(2)])
qed

subsection \<open>Lemmas: retries\<close>

text \<open>A number of failing attempts on one delivery, each with the entry the queue holds, in which no
  queue operation fails.\<close>

inductive fails_times :: "relay_cfg \<Rightarrow> string \<Rightarrow> nat \<Rightarrow> server \<Rightarrow> server \<Rightarrow> bool" for rc i where
  "fails_times rc i 0 sv sv"
| "fails_times rc i n sv sv1 \<Longrightarrow> Get i (sv_deliveries sv1) = Some d \<Longrightarrow> deliver res \<noteq> None \<Longrightarrow>
    processOne rc env res d sv1 = (sv2, out) \<Longrightarrow> out \<noteq> QueueFailed \<Longrightarrow> fails_times rc i (Suc n) sv sv2"

definition in_retry :: "relay_cfg \<Rightarrow> string \<Rightarrow> int \<Rightarrow> delivery \<Rightarrow> server \<Rightarrow> bool" where
  "in_retry rc i a d sv \<longleftrightarrow>
     live (rc_delivery rc) (sv_deliveries sv) \<and> live (rc_dead rc) (sv_dlq sv) \<and>
     (\<exists>e t. Get i (sv_deliveries sv) = Some (d\<lparr>dl_Attempts := a, dl_LastError := e, dl_NextAttempt := t\<rparr>))"

definition dead_lettered :: "string \<Rightarrow> int \<Rightarrow> delivery \<Rightarrow> server \<Rightarrow> bool" where
  "dead_lettered i a d sv \<longleftrightarrow>
     Get i (sv_deliveries sv) = None \<and>
     (\<exists>e t f w. Get i (sv_dlq sv) = Some \<lparr>dq_Delivery = d\<lparr>dl_Attempts := a, dl_LastError := e, dl_NextAttempt := t\<rparr>, dq_FailedAt = f, dq_Reason = w\<rparr>)"

lemma retry_step:
  assumes "in_retry rc i a d sv" "dl_ID d = i" "Get i (sv_deliveries sv) = Some d'" "deliver res \<noteq> None"
    "processOne rc env res d' sv = (sv', out)" "out \<noteq> QueueFailed"
  shows "if a + 1 < dl_MaxAttempts d then in_retry rc i (a + 1) d sv' else dead_lettered i (a + 1) d sv'"
proof -
  obtain e t where g: "Get i (sv_deliveries sv) = Some (d\<lparr>dl_Attempts := a, dl_LastError := e, dl_NextAttempt := t\<rparr>)"
    using assms(1) unfolding in_retry_def by blast
  then have d': "d' = d\<lparr>dl_Attempts := a, dl_LastError := e, dl_NextAttempt := t\<rparr>" using assms(3) by simp
  have id: "dl_ID d' = i" "dl_Attempts d' = a" "dl_MaxAttempts d' = dl_MaxAttempts d" using d' assms(2) by simp_all
  have lq: "live (rc_delivery rc) (sv_deliveries sv)" and ld: "live (rc_dead rc) (sv_dlq sv)" using assms(1) by (simp_all add: in_retry_def)
  from assms(5) show ?thesis
  proof (cases rule: processOne_cases)
    case delivered
    then show ?thesis using assms(4) by simp
  next
    case (dead_put err)
    then show ?thesis using assms(6) by simp
  next
    case (dead err)
    then have "snd (Delete (rc_delivery rc) i (sv_deliveries sv)) = None" using assms(6) id by (simp split: if_splits)
    then have n: "Get i (sv_deliveries sv') = None" using dead(5) id wq.get_del[OF lq, of i i] by simp
    have "failed_once err d' = d\<lparr>dl_Attempts := a + 1, dl_LastError := err, dl_NextAttempt := t\<rparr>"
      by (simp add: failed_once_def d')
    then have "Get i (sv_dlq sv') = Some \<lparr>dq_Delivery = d\<lparr>dl_Attempts := a + 1, dl_LastError := err, dl_NextAttempt := t\<rparr>,
        dq_FailedAt = en_now env, dq_Reason = err\<rparr>"
      using dead(3,4) id wq.get_put[OF ld, of i i] by simp
    then have "dead_lettered i (a + 1) d sv'" unfolding dead_lettered_def by (intro conjI exI n)
    then show ?thesis using dead(2) id by simp
  next
    case (retry err)
    let ?n = "(failed_once err d')\<lparr>dl_NextAttempt := en_now env + backoff (a + 1)\<rparr>"
    have "snd (Put (rc_delivery rc) i ?n (sv_deliveries sv)) = None" using retry(6) assms(6) id by (simp split: if_splits)
    then have g: "Get i (sv_deliveries sv') = Some ?n" using retry(3) id wq.get_put[OF lq, of i i ?n] by simp
    have g': "Get i (sv_deliveries sv') =
        Some (d\<lparr>dl_Attempts := a + 1, dl_LastError := err, dl_NextAttempt := en_now env + backoff (a + 1)\<rparr>)"
      using g by (simp add: failed_once_def d')
    have l: "live (rc_delivery rc) (sv_deliveries sv')" "live (rc_dead rc) (sv_dlq sv')"
      using retry(3,4) wq.put_inv[OF lq] ld by simp_all
    have "in_retry rc i (a + 1) d sv'" unfolding in_retry_def using l g' by blast
    then show ?thesis using retry(2) id by simp
  qed
qed

lemma fails_times_retry:
  assumes "fails_times rc i n sv sv'" "in_retry rc i a d sv" "dl_ID d = i" "a < dl_MaxAttempts d"
  shows "int n \<le> dl_MaxAttempts d - a \<and>
    (if int n < dl_MaxAttempts d - a then in_retry rc i (a + int n) d sv' else dead_lettered i (dl_MaxAttempts d) d sv')"
  using assms
proof (induction rule: fails_times.induct)
  case (1 sv)
  then show ?case by simp
next
  case (2 n sv sv1 d' res env sv2 out)
  have IH: "int n \<le> dl_MaxAttempts d - a"
    "if int n < dl_MaxAttempts d - a then in_retry rc i (a + int n) d sv1 else dead_lettered i (dl_MaxAttempts d) d sv1"
    using 2 by simp_all
  have "\<not> dead_lettered i (dl_MaxAttempts d) d sv1" using 2(2) by (simp add: dead_lettered_def)
  then have lt: "int n < dl_MaxAttempts d - a" using IH(2) by (simp split: if_splits)
  then have "if a + int n + 1 < dl_MaxAttempts d then in_retry rc i (a + int n + 1) d sv2 else dead_lettered i (a + int n + 1) d sv2"
    using IH(2) 2(2-5,8) by (intro retry_step[of rc i "a + int n" d sv1 d' res env]) simp_all
  moreover have e: "a + int n + 1 = a + int (Suc n)" by simp
  ultimately have r: "if a + int (Suc n) < dl_MaxAttempts d then in_retry rc i (a + int (Suc n)) d sv2 else dead_lettered i (a + int (Suc n)) d sv2"
    by (simp only: e)
  show ?case
  proof (cases "a + int (Suc n) < dl_MaxAttempts d")
    case True
    then have "in_retry rc i (a + int (Suc n)) d sv2" using r by (simp only: if_True)
    then show ?thesis using True lt by auto
  next
    case False
    then have "a + int (Suc n) = dl_MaxAttempts d" using lt by simp
    then have "dead_lettered i (dl_MaxAttempts d) d sv2" using r False by (simp only: if_False)
    then show ?thesis using False lt by auto
  qed
qed

subsection \<open>Properties\<close>

text \<open>C35: an acknowledged event is stored and on its way.  When ingestion answers 202, the event's ID
  is in the store's window and the delivery queue holds, for every enabled matching route, the
  delivery built from that route; no other entry of the queue has changed; and the same event sent
  again, with whatever content, is answered as a duplicate and changes neither the store nor the
  queues.  Needed: no two matching routes of this event collide in their delivery IDs.\<close>

theorem ingest_acknowledged:
  assumes "live (rc_delivery rc) (sv_deliveries sv)" and "sinv (sv_store sv)"
    and "ingestAgentEvent rc cfg env siteID a sv = (sv', rep)" and "acknowledged rep"
    and "inj_on (\<lambda>rt. deterministicDeliveryID cfg (effective_id env a) (rt_ID rt))
      (set (filter (route_matches siteID (ae_Topic a)) (Routes (st_state (sv_store sv)))))"
    and "effective_id env2 a2 = effective_id env a" and "ae_Topic a2 \<noteq> []" and "ae_Payload a2 \<noteq> None"
  shows "HasEvent (effective_id env a) (sv_store sv') \<and>
    (\<exists>payload. ae_Payload a = Some payload \<and>
      (\<forall>rt \<in> set (filter (route_matches siteID (ae_Topic a)) (Routes (st_state (sv_store sv)))).
        Get (deterministicDeliveryID cfg (effective_id env a) (rt_ID rt)) (sv_deliveries sv') =
          Some (route_delivery cfg (en_now env) (effective_id env a) siteID (ae_Topic a) payload (ae_Headers a)
            (if ae_EventTime a = 0 then en_now env else ae_EventTime a) rt))) \<and>
    (\<forall>j. j \<notin> set (event_deliveries cfg (effective_id env a) siteID (ae_Topic a) sv) \<longrightarrow>
       Get j (sv_deliveries sv') = Get j (sv_deliveries sv)) \<and>
    (\<exists>b. snd (ingestAgentEvent rc cfg env2 siteID2 a2 sv') = Done 202 b \<and> is_duplicate b) \<and>
    sv_store (fst (ingestAgentEvent rc cfg env2 siteID2 a2 sv')) = sv_store sv' \<and>
    sv_deliveries (fst (ingestAgentEvent rc cfg env2 siteID2 a2 sv')) = sv_deliveries sv'"
  using assms(3)
proof (cases rule: ingest_cases)
  case (acked q st n payload b ev)
  let ?mk = "route_delivery cfg (en_now env) (effective_id env a) siteID (ae_Topic a) payload (ae_Headers a)
      (if ae_EventTime a = 0 then en_now env else ae_EventTime a)"
  have new: "ev_ID ev \<notin> st_seen (sv_store sv)" using acked(5,7) by (simp add: HasEvent_def)
  have inv: "sinv st" using AddEvent_inv[OF assms(2), of ev] acked(8) by simp
  have "recent (ev_ID ev) 0 st" using AddEvent_recent[OF new] acked(8) by simp
  from recent_HasEvent[OF inv this] have has: "HasEvent (effective_id env a) (sv_store sv')" using acked(7,10) by simp
  note p = put_routes_ok[OF assms(1) acked(6)]
  obtain payload2 where p2: "ae_Payload a2 = Some payload2" using assms(8) by blast
  have d: "ingestAgentEvent rc cfg env2 siteID2 a2 sv' =
      (sv'\<lparr>sv_metrics := (sv_metrics sv')\<lparr>m_Duplicates := m_Duplicates (sv_metrics sv') + 1\<rparr>\<rparr>,
       Done 202 [(''accepted'', JBool True), (''event_id'', JStr (effective_id env2 a2)), (''duplicate'', JBool True), (''matched_routes'', JInt 0)])"
    using has assms(6,7) p2 by (simp add: ingestAgentEvent_def Let_def effective_id_def[symmetric])
  show ?thesis
  proof (intro conjI)
    show "HasEvent (effective_id env a) (sv_store sv')" by (rule has)
    show "\<exists>payload. ae_Payload a = Some payload \<and>
      (\<forall>rt \<in> set (filter (route_matches siteID (ae_Topic a)) (Routes (st_state (sv_store sv)))).
        Get (deterministicDeliveryID cfg (effective_id env a) (rt_ID rt)) (sv_deliveries sv') =
          Some (route_delivery cfg (en_now env) (effective_id env a) siteID (ae_Topic a) payload (ae_Headers a)
            (if ae_EventTime a = 0 then en_now env else ae_EventTime a) rt))"
      using p assms(5) acked(3,9) by (simp only: route_delivery_ID) blast
    show "\<forall>j. j \<notin> set (event_deliveries cfg (effective_id env a) siteID (ae_Topic a) sv) \<longrightarrow>
        Get j (sv_deliveries sv') = Get j (sv_deliveries sv)"
      using p acked(9) by (auto simp: event_deliveries_def)
    show "\<exists>b. snd (ingestAgentEvent rc cfg env2 siteID2 a2 sv') = Done 202 b \<and> is_duplicate b"
      by (simp add: d is_duplicate_def)
    show "sv_store (fst (ingestAgentEvent rc cfg env2 siteID2 a2 sv')) = sv_store sv'" by (simp add: d)
    show "sv_deliveries (fst (ingestAgentEvent rc cfg env2 siteID2 a2 sv')) = sv_deliveries sv'" by (simp add: d)
  qed
qed (use assms(4) in \<open>simp_all add: acknowledged_def\<close>)




subsection \<open>Witnesses\<close>

definition demo_rc :: relay_cfg where
  "demo_rc = \<lparr>rc_delivery = \<lparr>marshal = (\<lambda>_. Some ''x''), unmarshal = (\<lambda>_. None)\<rparr>,
     rc_dead = \<lparr>marshal = (\<lambda>_. Some ''x''), unmarshal = (\<lambda>_. None)\<rparr>, rc_version = ''0.2.2'', rc_raw = (\<lambda>_. [])\<rparr>"

definition demo_route :: route where
  "demo_route = \<lparr>rt_ID = ''rt1'', rt_Name = ''all'', rt_SiteID = [], rt_Topic = ''plant/#'', rt_TargetURL = ''https://t.example'',
     rt_Method = ''POST'', rt_Enabled = True, rt_RetryMax = 2, rt_TimeoutSecs = 5, rt_Headers = [], rt_CreatedAt = 0\<rparr>"

definition demo_relay :: server where
  "demo_relay = demo_server\<lparr>sv_store := demo_store\<lparr>st_state := empty_state\<lparr>Routes := [demo_route]\<rparr>\<rparr>\<rparr>"

definition demo_agent_event :: agent_event where
  "demo_agent_event = \<lparr>ae_EventID = ''e1'', ae_Topic = ''plant/1'', ae_Payload = Some (JInt 7), ae_Headers = [], ae_EventTime = 3\<rparr>"

definition demo_id :: string where
  "demo_id = deterministicDeliveryID demo_config ''e1'' ''rt1''"

lemma demo_id_nonempty: "demo_id \<noteq> []"
  by (simp add: demo_id_def deterministicDeliveryID_def)

lemma empty_queue_live: "live cd empty_queue"
  by (simp add: live_def qinv_def items_inv_def empty_queue_def fresh_queue_def items_bytes_def reject_opts_def)

lemma empty_queue_Get: "Get i empty_queue = None"
  by (simp add: Get_def empty_queue_def fresh_queue_def)

lemma empty_queue_put:
  "i \<noteq> [] \<Longrightarrow> marshal cd v = Some ''x'' \<Longrightarrow> snd (Put cd i v empty_queue) = None"
  by (simp add: Put_def empty_queue_def fresh_queue_def overLimit_def reject_opts_def put_record_def
      Queue.appendLocked_def next_io_def Let_def)

lemma demo_matches: "route_matches s ''plant/1'' demo_route"
proof -
  have "Match ''plant/#'' ''plant/1''" by code_simp
  then show ?thesis by (simp add: route_matches_def demo_route_def)
qed

lemma demo_effective: "effective_id env demo_agent_event = ''e1''"
  by (simp add: effective_id_def demo_agent_event_def)

lemma demo_relay_ok:
  "sv_deliveries demo_relay = empty_queue" "sv_dlq demo_relay = empty_queue" "ss_ok (sv_sessions demo_relay)"
  "Routes (st_state (sv_store demo_relay)) = [demo_route]" "sinv (sv_store demo_relay)" "\<not> HasEvent ''e1'' (sv_store demo_relay)"
  "st_open (sv_store demo_relay)" "st_io (sv_store demo_relay) = []" "st_ops (sv_store demo_relay) = 0"
  using demo_server_ok
  by (simp_all add: demo_relay_def demo_server_def demo_store_def HasEvent_def sinv_def state_inv_def empty_state_def)

lemma demo_add_event: "ev_ID ev = ''e1'' \<Longrightarrow> snd (AddEvent ev (sv_store demo_relay)) = None"
  using demo_relay_ok(6)
  by (simp add: AddEvent_def HasEvent_def mutate_def Store.appendLocked_def next_sio_def demo_relay_ok(7-9) Let_def apply_op_def)

lemma demo_put: "snd (Put (rc_delivery demo_rc) (deterministicDeliveryID demo_config e i) v empty_queue) = None"
  by (rule empty_queue_put) (simp_all add: demo_rc_def deterministicDeliveryID_def)

lemma demo_ingest:
  obtains sv' b where "ingestAgentEvent demo_rc demo_config (demo_env 5) ''s1'' demo_agent_event demo_relay = (sv', Done 202 b)"
    "\<not> is_duplicate b"
proof -
  have "\<exists>b. snd (ingestAgentEvent demo_rc demo_config (demo_env 5) ''s1'' demo_agent_event demo_relay) = Done 202 b \<and> \<not> is_duplicate b"
    by (simp add: ingestAgentEvent_def demo_agent_event_def demo_relay_ok demo_matches demo_put demo_add_event case_prod_unfold Let_def
        is_duplicate_def)
  then show thesis using that by (metis prod.collapse)
qed

lemma demo_routes_matching:
  "filter (route_matches ''s1'' (ae_Topic demo_agent_event)) (Routes (st_state (sv_store demo_relay))) = [demo_route]"
  using demo_matches by (simp add: demo_relay_ok demo_agent_event_def)

theorem ingest_acknowledged_witness:
  "\<exists>sv' b d. ingestAgentEvent demo_rc demo_config (demo_env 5) ''s1'' demo_agent_event demo_relay = (sv', Done 202 b) \<and>
     Get demo_id (sv_deliveries sv') = Some d \<and> dl_TargetURL d = ''https://t.example'' \<and> HasEvent ''e1'' (sv_store sv')"
proof -
  obtain sv' b where i: "ingestAgentEvent demo_rc demo_config (demo_env 5) ''s1'' demo_agent_event demo_relay = (sv', Done 202 b)"
    "\<not> is_duplicate b" by (rule demo_ingest)
  have l: "live (rc_delivery demo_rc) (sv_deliveries demo_relay)" by (simp add: demo_relay_ok empty_queue_live)
  have a: "ae_Topic demo_agent_event \<noteq> []" "ae_Payload demo_agent_event \<noteq> None" by (simp_all add: demo_agent_event_def)
  have ack: "acknowledged (Done 202 b)" using i(2) by (simp add: acknowledged_def)
  have "inj_on (\<lambda>rt. deterministicDeliveryID demo_config (effective_id (demo_env 5) demo_agent_event) (rt_ID rt))
      (set (filter (route_matches ''s1'' (ae_Topic demo_agent_event)) (Routes (st_state (sv_store demo_relay)))))"
    by (simp add: demo_routes_matching)
  from ingest_acknowledged[OF l demo_relay_ok(5) i(1) ack this refl a, of "''s1''"]
  have "HasEvent ''e1'' (sv_store sv')" "\<exists>payload. Get demo_id (sv_deliveries sv') = Some (route_delivery demo_config (en_now (demo_env 5)) ''e1'' ''s1''
      (ae_Topic demo_agent_event) payload (ae_Headers demo_agent_event)
      (if ae_EventTime demo_agent_event = 0 then en_now (demo_env 5) else ae_EventTime demo_agent_event) demo_route)"
    unfolding demo_routes_matching demo_effective by (auto simp: demo_id_def demo_route_def)
  then obtain payload where f1: "HasEvent ''e1'' (sv_store sv')" and f2: "Get demo_id (sv_deliveries sv') = Some (route_delivery demo_config (en_now (demo_env 5)) ''e1'' ''s1''
      (ae_Topic demo_agent_event) payload (ae_Headers demo_agent_event)
      (if ae_EventTime demo_agent_event = 0 then en_now (demo_env 5) else ae_EventTime demo_agent_event) demo_route)" by blast
  have f3: "dl_TargetURL (route_delivery c n e s t pl h et demo_route) = ''https://t.example''" for c n e s t pl h et
    by (simp add: route_delivery_def demo_route_def)
  show ?thesis by (intro exI conjI, rule i(1), rule f2, rule f3, rule f1)
qed


definition demo_delivery :: delivery where
  "demo_delivery = route_delivery demo_config 5 ''e1'' ''s1'' ''plant/1'' (JInt 7) [] 3 (demo_route\<lparr>rt_RetryMax := 1\<rparr>)"

definition queued_server :: server where
  "queued_server = demo_relay\<lparr>sv_deliveries := fst (Put (rc_delivery demo_rc) demo_id demo_delivery empty_queue)\<rparr>"

lemma queued_server_get:
  "live (rc_delivery demo_rc) (sv_deliveries queued_server)" "Get demo_id (sv_deliveries queued_server) = Some demo_delivery"
  "live (rc_dead demo_rc) (sv_dlq queued_server)" "sv_dlq queued_server = empty_queue" "ss_ok (sv_sessions queued_server)"
proof -
  have e: "live (rc_delivery demo_rc) empty_queue" by (rule empty_queue_live)
  have "snd (Put (rc_delivery demo_rc) demo_id demo_delivery empty_queue) = None"
    using demo_id_nonempty by (intro empty_queue_put) (simp_all add: demo_rc_def)
  then show "live (rc_delivery demo_rc) (sv_deliveries queued_server)" "Get demo_id (sv_deliveries queued_server) = Some demo_delivery"
    "live (rc_dead demo_rc) (sv_dlq queued_server)" "sv_dlq queued_server = empty_queue" "ss_ok (sv_sessions queued_server)"
    using wq.put_inv[OF e] wq.get_put[OF e, of demo_id demo_id] by (simp_all add: queued_server_def demo_relay_ok empty_queue_live)
qed

lemma queued_delete: "snd (Delete (rc_delivery demo_rc) demo_id (sv_deliveries queued_server)) = None"
  using demo_id_nonempty
  by (simp add: queued_server_def Put_def empty_queue_def fresh_queue_def overLimit_def reject_opts_def put_record_def
      Queue.appendLocked_def next_io_def Let_def demo_rc_def Delete_def)

lemma demo_delivery_simps: "dl_ID demo_delivery = demo_id" "dl_Attempts demo_delivery = 0" "dl_MaxAttempts demo_delivery = 1"
  by (simp_all add: demo_delivery_def demo_id_def route_delivery_def demo_route_def)



end
