(* ===== verification/Pki.thy ===== *)
theory Pki
  imports Auth Prelude
begin

text \<open>
  The certificate authority of the control plane, \<^verbatim>\<open>internal/pki/pki.go\<close>: what it puts into
  a client certificate and into a revocation list, and when a certificate is due for
  rotation.

  ASN.1, PEM and ECDSA are parameters, the fields of record \<^verbatim>\<open>ca\<close>: reading a request
  (\<^verbatim>\<open>pem.Decode\<close>, \<^verbatim>\<open>x509.ParseCertificateRequest\<close>, \<^verbatim>\<open>CheckSignature\<close>) gives an error or
  the public key, and the two \<^verbatim>\<open>x509.Create\<close> functions turn a template into PEM text or an
  error.  The numbers of \<^verbatim>\<open>rand.Int\<close> are arguments, None for a failure.
\<close>

record cert_template =
  ct_Serial :: nat
  ct_CommonName :: string
  ct_Organization :: string
  ct_NotBefore :: time
  ct_NotAfter :: time
  ct_CRLDistributionPoints :: "string list"

record revoked_cert =
  rv_Serial :: int
  rv_RevokedAt :: time

record crl_template =
  cl_Number :: nat
  cl_ThisUpdate :: time
  cl_NextUpdate :: time
  cl_Entries :: "revoked_cert list"

record ca =
  ca_CertPEM :: string
  ca_read_csr :: "string \<Rightarrow> string + string"
  ca_create :: "cert_template \<Rightarrow> string \<Rightarrow> string + string"
  ca_create_crl :: "crl_template \<Rightarrow> string + string"

record signed =
  sg_CertPEM :: string
  sg_Serial :: string
  sg_ExpiresAt :: time

text \<open>\<^verbatim>\<open>(*big.Int).Text(16)\<close> of a natural number, and \<^verbatim>\<open>SetString(s, 16)\<close>: an optional sign,
  then at least one hexadecimal digit.\<close>

fun hex_text :: "nat \<Rightarrow> string" where
  "hex_text n = (if n < 16 then [hex_digit n] else hex_text (n div 16) @ [hex_digit (n mod 16)])"

declare hex_text.simps [simp del]

fun hex_digits :: "nat \<Rightarrow> string \<Rightarrow> nat option" where
  "hex_digits acc [] = Some acc"
| "hex_digits acc (c # cs) =
     (case hex_value c of None \<Rightarrow> None | Some d \<Rightarrow> hex_digits (16 * acc + d) cs)"

definition parse_hex :: "string \<Rightarrow> int option" where
  "parse_hex s =
     (let neg = (s \<noteq> [] \<and> hd s = CHR ''-'');
          ds = (if s \<noteq> [] \<and> (hd s = CHR ''-'' \<or> hd s = CHR ''+'') then tl s else s)
      in if ds = [] then None
         else map_option (\<lambda>n. if neg then - int n else int n) (hex_digits 0 ds))"

definition SignCSR ::
  "ca \<Rightarrow> string \<Rightarrow> string \<Rightarrow> duration \<Rightarrow> string list \<Rightarrow> nat option \<Rightarrow> time \<Rightarrow> string + signed" where
  "SignCSR ca csrPEM commonName ttl0 points rnd now =
     (case ca_read_csr ca csrPEM of
        Inl e \<Rightarrow> Inl e
      | Inr key \<Rightarrow>
          (case rnd of
             None \<Rightarrow> Inl ''rand''
           | Some serial \<Rightarrow>
               (let ttl = (if ttl0 \<le> 0 then 90 * 24 * hour else ttl0);
                    ex = now + ttl
                in case ca_create ca \<lparr>ct_Serial = serial, ct_CommonName = commonName, ct_Organization = ''Zyvor Nodra Edge'',
                       ct_NotBefore = now - 5 * minute, ct_NotAfter = ex, ct_CRLDistributionPoints = points\<rparr> key of
                     Inl e \<Rightarrow> Inl e
                   | Inr pem \<Rightarrow> Inr \<lparr>sg_CertPEM = pem, sg_Serial = hex_text serial, sg_ExpiresAt = ex\<rparr>)))"

definition ShouldRotate :: "time \<Rightarrow> time \<Rightarrow> duration \<Rightarrow> bool" where
  "ShouldRotate expiresAt now before = (if expiresAt = 0 then False else \<not> (now < expiresAt - before))"

definition GenerateCRL :: "ca \<Rightarrow> revoked_cert list \<Rightarrow> time \<Rightarrow> time \<Rightarrow> nat option \<Rightarrow> string + string" where
  "GenerateCRL ca revoked thisUpdate nextUpdate rnd =
     (case rnd of
        None \<Rightarrow> Inl ''rand''
      | Some number \<Rightarrow>
          ca_create_crl ca \<lparr>cl_Number = number, cl_ThisUpdate = thisUpdate, cl_NextUpdate = nextUpdate,
            cl_Entries = map (\<lambda>rc. \<lparr>rv_Serial = rv_Serial rc, rv_RevokedAt = rv_RevokedAt rc\<rparr>) revoked\<rparr>)"

subsection \<open>Lemmas\<close>

lemma hex_digits_append:
  "hex_digits acc (xs @ ys) = (case hex_digits acc xs of None \<Rightarrow> None | Some n \<Rightarrow> hex_digits n ys)"
  by (induction xs arbitrary: acc) (auto split: option.splits)

lemma hex_digits_text: "hex_digits 0 (hex_text n) = Some n"
proof (induction n rule: hex_text.induct)
  case (1 n)
  then show ?case
    by (subst hex_text.simps) (simp add: hex_value_digit hex_digits_append)
qed

lemma hex_text_nonempty [simp]: "hex_text n \<noteq> []"
  by (subst hex_text.simps) simp

lemma hd_hex_text: "hex_value (hd (hex_text n)) \<noteq> None"
proof (induction n rule: hex_text.induct)
  case (1 n)
  then show ?case by (subst hex_text.simps) (simp add: hex_value_digit)
qed

text \<open>The serial a signed certificate carries is read back from its text.\<close>

lemma parse_hex_text [simp]: "parse_hex (hex_text n) = Some (int n)"
proof -
  have "hd (hex_text n) \<noteq> CHR ''-'' \<and> hd (hex_text n) \<noteq> CHR ''+''"
    using hd_hex_text[of n] by (auto simp: hex_value_def)
  then show ?thesis by (simp add: parse_hex_def hex_digits_text)
qed

lemma SignCSR_serial: "SignCSR ca csr cn ttl ps rnd now = Inr s \<Longrightarrow> \<exists>n. rnd = Some n \<and> sg_Serial s = hex_text n"
  by (auto simp: SignCSR_def Let_def split: sum.splits option.splits)

lemma SignCSR_expiry:
  "SignCSR ca csr cn ttl ps rnd now = Inr s \<Longrightarrow> 0 < ttl \<Longrightarrow> sg_ExpiresAt s = now + ttl"
  by (auto simp: SignCSR_def Let_def split: sum.splits option.splits)

end
