(* ===== verification/Fleet.thy ===== *)
theory Fleet
  imports Relay Pki
begin

text \<open>
  The fleet endpoints of \<^verbatim>\<open>internal/server/server.go\<close> and \<^verbatim>\<open>internal/server/ztp.go\<close>: enrolment,
  heartbeats, sites and their certificates, routes, devices, twins, organisations, alerts and
  the event list.

  Where a console handler is reached through \<^verbatim>\<open>s.admin\<close>, the definition is the handler
  behind it.  \<^verbatim>\<open>url.ParseRequestURI\<close> (scheme and host), \<^verbatim>\<open>strconv.Quote\<close>, the RFC 3339
  text of an instant and the text of a \<^verbatim>\<open>time.ParseDuration\<close> error are parameters, and so are the random numbers of a certificate
  (\<^verbatim>\<open>srl\<close>) and of a revocation list (\<^verbatim>\<open>num\<close>).
\<close>

subsection \<open>Configuration\<close>

record fleet_cfg =
  fc_ca :: "ca option"
  fc_PublicBaseURL :: string
  fc_CertExpiryWarnBefore :: duration
  fc_ParseRequestURI :: "string \<Rightarrow> (string \<times> string) option"
  fc_Quote :: "string \<Rightarrow> string"
  fc_RFC3339 :: "time \<Rightarrow> string"
  fc_DurationError :: "string \<Rightarrow> string"

definition trim_right_slash :: "string \<Rightarrow> string" where
  "trim_right_slash s = rev (dropWhile (\<lambda>c. c = CHR ''/'') (rev s))"

text \<open>\<^verbatim>\<open>strings.ToUpper\<close>: the ASCII letters, and the two runes outside ASCII (dotless i and long
  s) whose upper case is an ASCII letter.  Other runes stay outside ASCII in Go and are left
  alone here.\<close>

fun to_upper :: "string \<Rightarrow> string" where
  "to_upper (a # b # cs) =
     (if a = CHR 0xC4 \<and> b = CHR 0xB1 then CHR ''I'' # to_upper cs
      else if a = CHR 0xC5 \<and> b = CHR 0xBF then CHR ''S'' # to_upper cs
      else to_upper_char a # to_upper (b # cs))"
| "to_upper [a] = [to_upper_char a]"
| "to_upper [] = []"

text \<open>\<^verbatim>\<open>s.note(..., s.actorForBearer(bearer(r)), "", ...)\<close> with the source \<^verbatim>\<open>control-plane\<close>.\<close>

definition bearer_note ::
  "config \<Rightarrow> env \<Rightarrow> http_request \<Rightarrow> string \<Rightarrow> string \<Rightarrow> string \<Rightarrow> string \<Rightarrow> string \<Rightarrow> json_map \<Rightarrow> server \<Rightarrow> server" where
  "bearer_note cfg env r level siteID site action msg detail sv0 =
     (case actorForBearer cfg (en_now env) (bearer r) sv0 of (sv, actor) \<Rightarrow>
        server_note env level ''control-plane'' actor [] siteID site action msg detail sv)"

subsection \<open>Enrolment\<close>

fun enrolling_org :: "config \<Rightarrow> string \<Rightarrow> org list \<Rightarrow> string option" where
  "enrolling_org cfg tok [] = None"
| "enrolling_org cfg tok (g # gs) =
     (if org_EnrollmentTokenHash g \<noteq> [] \<and> EqualHash (c_sha cfg) (org_EnrollmentTokenHash g) tok then Some (org_ID g)
      else enrolling_org cfg tok gs)"

text \<open>The switch on the enrolment token: the organisation it enrols into, \<^verbatim>\<open>""\<close> for the fleet.\<close>

definition enrollment_org :: "config \<Rightarrow> time \<Rightarrow> string \<Rightarrow> server \<Rightarrow> string + string" where
  "enrollment_org cfg now tok sv =
     (if sv_EnrollmentToken sv \<noteq> [] \<and> EqualToken (c_sha cfg) tok (sv_EnrollmentToken sv)
      then (if sv_enrollExpires sv \<noteq> 0 \<and> sv_enrollExpires sv < now then Inl ''enrollment token expired'' else Inr [])
      else case enrolling_org cfg tok (Orgs (st_state (sv_store sv))) of
             None \<Rightarrow> Inl ''invalid enrollment token''
           | Some og \<Rightarrow> Inr og)"

definition crlDistributionPoints :: "fleet_cfg \<Rightarrow> string list" where
  "crlDistributionPoints fc =
     (if fc_PublicBaseURL fc = [] then [] else [trim_right_slash (fc_PublicBaseURL fc) @ ''/api/v1/ca/crl''])"

record enroll_input =
  ei_Name :: string
  ei_EnrollmentToken :: string
  ei_Metadata :: str_map
  ei_CSRPem :: string

definition new_site :: "config \<Rightarrow> env \<Rightarrow> string \<Rightarrow> str_map \<Rightarrow> string \<Rightarrow> string \<Rightarrow> site" where
  "new_site cfg env name metadata tok orgID =
     zero_site\<lparr>site_ID := gen_id ''site'' (en_rand env 1), site_Name := name, site_TokenHash := Hash (c_sha cfg) tok,
       site_Status := ''online'', site_CreatedAt := en_now env, site_LastSeen := en_now env,
       site_Metadata := metadata, site_OrgID := orgID\<rparr>"

text \<open>The certificate of a request that brings one, when there is a CA.\<close>

definition client_cert :: "fleet_cfg \<Rightarrow> env \<Rightarrow> nat option \<Rightarrow> string \<Rightarrow> string \<Rightarrow> (string + signed) option" where
  "client_cert fc env srl csr siteID =
     (case fc_ca fc of
        None \<Rightarrow> None
      | Some ca \<Rightarrow>
          if csr = [] then None
          else Some (SignCSR ca csr siteID (90 * 24 * hour) (crlDistributionPoints fc) srl (en_now env)))"

definition ca_pem :: "fleet_cfg \<Rightarrow> string" where
  "ca_pem fc = (case fc_ca fc of None \<Rightarrow> [] | Some ca \<Rightarrow> ca_CertPEM ca)"

record enrolled =
  eo_agent_token :: string
  eo_client_certificate :: "string option"
  eo_ca_certificate :: "string option"
  eo_site :: site

definition enroll ::
  "fleet_cfg \<Rightarrow> config \<Rightarrow> env \<Rightarrow> nat option \<Rightarrow> http_request \<Rightarrow> string + enroll_input \<Rightarrow> server \<Rightarrow> server \<times> enrolled reply" where
  "enroll fc cfg env srl r input sv0 =
     (case input of
        Inl e \<Rightarrow> (sv0, Fail 400 (''invalid JSON: '' @ e))
      | Inr i \<Rightarrow>
          (case attemptLimited ''enroll'' (en_now env) r sv0 of (sv, limited) \<Rightarrow>
             if limited then (sv, Fail 429 ''too many enrollment attempts'')
             else case enrollment_org cfg (en_now env) (ei_EnrollmentToken i) sv of
               Inl e \<Rightarrow> (recordAttempt ''enroll'' (en_now env) r sv, Fail 401 e)
             | Inr orgID \<Rightarrow>
                 if trim_space (ei_Name i) = [] then (sv, Fail 400 ''site name is required'')
                 else case NewToken (en_rand env 0) of
                   None \<Rightarrow> (sv, Fail 500 ''token generation failed'')
                 | Some tok \<Rightarrow>
                     (let site0 = new_site cfg env (ei_Name i) (ei_Metadata i) tok orgID;
                          add = (\<lambda>site cc cac.
                            case AddSite site (sv_store sv) of
                              (st, Some e) \<Rightarrow> (sv\<lparr>sv_store := st\<rparr>, Fail 507 (''site persistence failed: '' @ store_error_text e))
                            | (st, None) \<Rightarrow>
                                (server_note env ''ok'' ''control-plane'' (site_ID site) [] (site_ID site) (site_Name site) ''enroll''
                                   ''site enrolled and agent token issued''
                                   [(''metadata'', JObj (map (\<lambda>(k, v). (k, JStr v)) (ei_Metadata i)))]
                                   (clearAttempts ''enroll'' r
                                     (sv\<lparr>sv_store := st, sv_metrics := (sv_metrics sv)\<lparr>m_Enrollments := m_Enrollments (sv_metrics sv) + 1\<rparr>\<rparr>)),
                                 Done 201 \<lparr>eo_agent_token = tok, eo_client_certificate = cc, eo_ca_certificate = cac,
                                   eo_site = site\<lparr>site_TokenHash := []\<rparr>\<rparr>))
                      in case client_cert fc env srl (ei_CSRPem i) (site_ID site0) of
                           None \<Rightarrow> add site0 None None
                         | Some (Inl e) \<Rightarrow> (sv, Fail 400 (''invalid certificate request: '' @ e))
                         | Some (Inr s) \<Rightarrow>
                             add (site0\<lparr>site_CertificateSerial := sg_Serial s, site_CertificateExpiresAt := sg_ExpiresAt s\<rparr>)
                               (Some (sg_CertPEM s)) (Some (ca_pem fc)))))"

record ztp_input = enroll_input +
  zi_Listen :: string
  zi_MQTTListen :: string

text \<open>\<^verbatim>\<open>ztpBootstrap\<close>; the answer carries the agent's configuration.\<close>

definition ztp_config :: "fleet_cfg \<Rightarrow> string \<Rightarrow> ztp_input \<Rightarrow> site \<Rightarrow> string \<Rightarrow> string \<Rightarrow> bool \<Rightarrow> json_map" where
  "ztp_config fc host i site tok localTok cert =
     [(''server_url'', JStr (trim_right_slash (if fc_PublicBaseURL fc = [] then ''http://'' @ host else fc_PublicBaseURL fc))),
      (''site_name'', JStr (site_Name site)), (''site_id'', JStr (site_ID site)), (''agent_token'', JStr tok),
      (''data_dir'', JStr ''./nodra-agent-data''),
      (''listen'', JStr (if zi_Listen i = [] then ''127.0.0.1:9091'' else zi_Listen i)),
      (''mqtt_listen'', JStr (if zi_MQTTListen i = [] then ''127.0.0.1:1883'' else zi_MQTTListen i)),
      (''local_token'', JStr localTok), (''heartbeat'', JStr ''30s''), (''flush_interval'', JStr ''5s''), (''runner'', JStr ''none''),
      (''max_spool_bytes'', JInt (2 * 2 ^ 30)), (''max_spool_events'', JInt 1000000), (''spool_policy'', JStr ''reject'')] @
     (if cert then [(''request_certificate'', JBool False)] else [])"

definition ztpBootstrap ::
  "fleet_cfg \<Rightarrow> config \<Rightarrow> env \<Rightarrow> nat option \<Rightarrow> string \<Rightarrow> http_request \<Rightarrow> string + ztp_input \<Rightarrow> server \<Rightarrow> server \<times> json_map reply" where
  "ztpBootstrap fc cfg env srl host r input sv0 =
     (case input of
        Inl e \<Rightarrow> (sv0, Fail 400 (''invalid JSON: '' @ e))
      | Inr i \<Rightarrow>
          (case attemptLimited ''enroll'' (en_now env) r sv0 of (sv, limited) \<Rightarrow>
             if limited then (sv, Fail 429 ''too many enrollment attempts'')
             else if trim_space (ei_Name i) = [] then (sv, Fail 400 ''site name is required'')
             else case enrollment_org cfg (en_now env) (ei_EnrollmentToken i) sv of
               Inl e \<Rightarrow> (recordAttempt ''enroll'' (en_now env) r sv, Fail 401 e)
             | Inr orgID \<Rightarrow>
                 (case (NewToken (en_rand env 0), NewToken (en_rand env 2)) of
                   (Some tok, Some localTok) \<Rightarrow>
                     (let site = new_site cfg env (ei_Name i) (ei_Metadata i) tok orgID;
                          add = (\<lambda>cert extra.
                            case AddSite site (sv_store sv) of
                              (st, Some e) \<Rightarrow> (sv\<lparr>sv_store := st\<rparr>, Fail 507 (store_error_text e))
                            | (st, None) \<Rightarrow>
                                (server_note env ''ok'' ''control-plane'' (site_Name site) [] (site_ID site) (site_Name site) ''ztp.bootstrap''
                                   (''ZTP bootstrap enrolled site: '' @ site_Name site) [(''site_id'', JStr (site_ID site))]
                                   (clearAttempts ''enroll'' r (sv\<lparr>sv_store := st\<rparr>)),
                                 Done 201 ([(''site_id'', JStr (site_ID site)), (''agent_token'', JStr tok),
                                   (''agent_config'', JObj (ztp_config fc host i site tok localTok cert))] @ extra)))
                      in case client_cert fc env srl (ei_CSRPem i) (site_ID site) of
                           None \<Rightarrow> add False []
                         | Some (Inl e) \<Rightarrow> (sv, Fail 400 (''csr sign failed: '' @ e))
                         | Some (Inr s) \<Rightarrow>
                             add True [(''client_certificate'', JStr (sg_CertPEM s)), (''ca_certificate'', JStr (ca_pem fc))])
                 | _ \<Rightarrow> (sv, Fail 500 ''token generation failed''))))"

subsection \<open>Agents\<close>

definition heartbeat ::
  "config \<Rightarrow> env \<Rightarrow> http_request \<Rightarrow> string + (string \<times> string \<times> json_map) \<Rightarrow> server \<Rightarrow> server \<times> json_map reply" where
  "heartbeat cfg env r input sv =
     (case input of
        Inl e \<Rightarrow> (sv, Fail 400 (''invalid JSON: '' @ e))
      | Inr (siteID, version, metrics) \<Rightarrow>
          (case agentSite cfg r siteID sv of
             None \<Rightarrow>
               (case Site siteID (sv_store sv) of
                  Some s \<Rightarrow> if site_Revoked s then (sv, Fail 403 ''site_revoked'') else (sv, Fail 401 ''unauthorized agent'')
                | None \<Rightarrow> (sv, Fail 401 ''unauthorized agent''))
           | Some _ \<Rightarrow>
               (case UpdateSite siteID (\<lambda>v. v\<lparr>site_Status := ''online'', site_LastSeen := en_now env,
                        site_Version := version, site_Metrics := metrics\<rparr>) (sv_store sv) of
                  (st, Some _) \<Rightarrow> (sv\<lparr>sv_store := st\<rparr>, Fail 507 ''heartbeat persistence failed'')
                | (st, None) \<Rightarrow>
                    (sv\<lparr>sv_store := st, sv_metrics := (sv_metrics sv)\<lparr>m_Heartbeats := m_Heartbeats (sv_metrics sv) + 1\<rparr>\<rparr>,
                     Done 200 [(''ok'', JBool True), (''server_time'', JTime (en_now env))]))))"

definition registerDevice ::
  "config \<Rightarrow> env \<Rightarrow> http_request \<Rightarrow> string + device \<Rightarrow> server \<Rightarrow> server \<times> device reply" where
  "registerDevice cfg env r input sv =
     (case input of
        Inl e \<Rightarrow> (sv, Fail 400 (''invalid JSON: '' @ e))
      | Inr i \<Rightarrow>
          (case agentSite cfg r (dev_SiteID i) sv of
             None \<Rightarrow> (sv, Fail 401 ''unauthorized agent'')
           | Some _ \<Rightarrow>
               if dev_Name i = [] \<or> dev_Protocol i = [] then (sv, Fail 400 ''name and protocol are required'')
               else
                 (let d = i\<lparr>dev_ID := (if dev_ID i = [] then gen_id ''dev'' (en_rand env 0) else dev_ID i), dev_Status := ''online'',
                            dev_CreatedAt := (if dev_CreatedAt i = 0 then en_now env else dev_CreatedAt i), dev_LastSeen := en_now env\<rparr>
                  in case AddDevice d (sv_store sv) of
                       (st, Some e) \<Rightarrow> (sv\<lparr>sv_store := st\<rparr>, Fail 507 (store_error_text e))
                     | (st, None) \<Rightarrow>
                         (let st' = (case Twin (dev_ID d) st of
                                       Some _ \<Rightarrow> st
                                     | None \<Rightarrow> fst (SetTwin (zero_twin\<lparr>tw_DeviceID := dev_ID d, tw_SiteID := dev_SiteID d,
                                                                        tw_UpdatedAt := en_now env\<rparr>) st))
                          in (server_note env ''ok'' ''agent'' (dev_SiteID d) [] (dev_SiteID d) [] ''device.register''
                                (''device registered: '' @ dev_Name d)
                                [(''device_id'', JStr (dev_ID d)), (''protocol'', JStr (dev_Protocol d))] (sv\<lparr>sv_store := st'\<rparr>),
                              Done 201 d)))))"

subsection \<open>Sites\<close>

definition overview :: "relay_cfg \<Rightarrow> config \<Rightarrow> env \<Rightarrow> http_request \<Rightarrow> server \<Rightarrow> server \<times> json_map" where
  "overview rc cfg env r sv0 =
     (let st = st_state (sv_store sv0); now = en_now env in
      case orgForBearer cfg now (bearer r) sv0 of (sv1, scope) \<Rightarrow>
      let mine = filter (\<lambda>v. case scope of None \<Rightarrow> True | Some og \<Rightarrow> site_OrgID v = og) (Sites st);
          online = filter (\<lambda>v. \<not> site_Revoked v \<and> now - 90 * second < site_LastSeen v) mine
      in case keep_visible cfg now r dev_SiteID (Devices st) sv1 of (sv2, ds) \<Rightarrow>
         case keep_visible cfg now r tw_SiteID (Twins st) sv2 of (sv3, ts) \<Rightarrow>
         case keep_visible cfg now r rt_SiteID (Routes st) sv3 of (sv4, rs) \<Rightarrow>
         case keep_visible cfg now r dp_SiteID (Deployments st) sv4 of (sv5, ps) \<Rightarrow>
         case keep_visible cfg now r al_SiteID (filter (\<lambda>v. \<not> al_Resolved v) (Alerts st)) sv5 of (sv6, as) \<Rightarrow>
         case keep_visible cfg now r ev_SiteID (Events st) sv6 of (sv7, es) \<Rightarrow>
         case orgForBearer cfg now (bearer r) sv7 of (sv8, scope2) \<Rightarrow>
         let dq = Stats (sv_deliveries sv8);
             (pending, pendingBytes, dead) =
               (case scope2 of
                  None \<Rightarrow> (int (qs_Items dq), qs_Bytes dq, int (qs_Items (Stats (sv_dlq sv8))))
                | Some og \<Rightarrow>
                    (case countDeliveriesForSites rc (siteIDsForOrg og sv8) sv8 of (n, b) \<Rightarrow>
                       (int n, int b, int (countDeadLettersForSites (siteIDsForOrg og sv8) sv8))))
         in (sv8, [(''sites'', JInt (int (length mine))), (''online_sites'', JInt (int (length online))),
               (''devices'', JInt (int (length ds))), (''twins'', JInt (int (length ts))), (''routes'', JInt (int (length rs))),
               (''deployments'', JInt (int (length ps))), (''open_alerts'', JInt (int (length as))),
               (''pending_deliveries'', JInt pending), (''delivery_queue_bytes'', JInt pendingBytes),
               (''dead_letters'', JInt dead), (''events'', JInt (int (length es)))]))"

definition shown_site :: "time \<Rightarrow> site \<Rightarrow> site" where
  "shown_site now v =
     (if site_Revoked v then v\<lparr>site_Status := ''revoked''\<rparr>
      else if site_LastSeen v < now - 90 * second then v\<lparr>site_Status := ''offline''\<rparr> else v)\<lparr>site_TokenHash := []\<rparr>"

definition sites :: "config \<Rightarrow> env \<Rightarrow> http_request \<Rightarrow> server \<Rightarrow> server \<times> site list" where
  "sites cfg env r sv0 =
     (let v = Sites (st_state (sv_store sv0))
      in case orgForBearer cfg (en_now env) (bearer r) sv0 of (sv, scope) \<Rightarrow>
           (sv, map (shown_site (en_now env)) (case scope of None \<Rightarrow> v | Some og \<Rightarrow> filter (\<lambda>s. site_OrgID s = og) v)))"

text \<open>The revoked certificates a revocation list has to carry.\<close>

definition revoked_certs :: "time \<Rightarrow> site list \<Rightarrow> revoked_cert list" where
  "revoked_certs now ss = List.map_filter (\<lambda>s.
     if \<not> site_Revoked s \<or> site_CertificateSerial s = [] then None
     else map_option (\<lambda>n. \<lparr>rv_Serial = n, rv_RevokedAt = (if site_RevokedAt s = 0 then now else site_RevokedAt s)\<rparr>)
            (parse_hex (site_CertificateSerial s))) ss"

definition refreshCRL :: "fleet_cfg \<Rightarrow> env \<Rightarrow> nat option \<Rightarrow> server \<Rightarrow> server" where
  "refreshCRL fc env num sv =
     (case fc_ca fc of
        None \<Rightarrow> sv
      | Some ca \<Rightarrow>
          (let nxt = en_now env + 15 * minute
           in case GenerateCRL ca (revoked_certs (en_now env) (Sites (st_state (sv_store sv)))) (en_now env) nxt num of
                Inl _ \<Rightarrow> sv
              | Inr pem \<Rightarrow> sv\<lparr>sv_crlPEM := Some pem, sv_crlNextUpdate := nxt\<rparr>))"

definition siteRevoke ::
  "fleet_cfg \<Rightarrow> config \<Rightarrow> env \<Rightarrow> nat option \<Rightarrow> http_request \<Rightarrow> string \<Rightarrow> server \<Rightarrow> server \<times> json_map reply" where
  "siteRevoke fc cfg env num r idv sv0 =
     (case orgForBearer cfg (en_now env) (bearer r) sv0 of (sv, scope) \<Rightarrow>
        let foreign = (case scope of
              None \<Rightarrow> False
            | Some og \<Rightarrow> (case Site idv (sv_store sv) of None \<Rightarrow> True | Some s \<Rightarrow> site_OrgID s \<noteq> og))
        in if foreign then (sv, Fail 404 ''site not found'')
           else case UpdateSite idv (\<lambda>v. v\<lparr>site_Revoked := True, site_Status := ''revoked'', site_RevokedAt := en_now env\<rparr>) (sv_store sv) of
             (st, Some _) \<Rightarrow> (sv\<lparr>sv_store := st\<rparr>, Fail 404 ''site not found'')
           | (st, None) \<Rightarrow>
               (bearer_note cfg env r ''ok'' idv idv ''site.revoke'' ''site revoked'' [] (refreshCRL fc env num (sv\<lparr>sv_store := st\<rparr>)),
                Done 200 [(''revoked'', JBool True)]))"

fun resolve_alerts :: "(alert \<Rightarrow> bool) \<Rightarrow> alert list \<Rightarrow> store \<Rightarrow> store" where
  "resolve_alerts p [] s = s"
| "resolve_alerts p (a # as) s = resolve_alerts p as (if p a then fst (ResolveAlert (al_ID a) s) else s)"

definition siteRotate ::
  "fleet_cfg \<Rightarrow> config \<Rightarrow> env \<Rightarrow> nat option \<Rightarrow> http_request \<Rightarrow> string \<Rightarrow> string + string \<Rightarrow> server \<Rightarrow> server \<times> json_map reply" where
  "siteRotate fc cfg env srl r idv input sv =
     (case fc_ca fc of
        None \<Rightarrow> (sv, Fail 503 ''PKI is not enabled on this control plane'')
      | Some ca \<Rightarrow>
          (case agentSite cfg r idv sv of
             None \<Rightarrow>
               (case Site idv (sv_store sv) of
                  Some s \<Rightarrow> if site_Revoked s then (sv, Fail 403 ''site_revoked'') else (sv, Fail 401 ''unauthorized agent'')
                | None \<Rightarrow> (sv, Fail 401 ''unauthorized agent''))
           | Some site \<Rightarrow>
               (case input of
                  Inl e \<Rightarrow> (sv, Fail 400 (''invalid JSON: '' @ e))
                | Inr csr \<Rightarrow>
                    if trim_space csr = [] then (sv, Fail 400 ''csr_pem is required'')
                    else case SignCSR ca csr (site_ID site) (90 * 24 * hour) (crlDistributionPoints fc) srl (en_now env) of
                      Inl e \<Rightarrow> (sv, Fail 400 (''invalid certificate request: '' @ e))
                    | Inr s \<Rightarrow>
                        (case UpdateSite idv (\<lambda>v. v\<lparr>site_CertificateSerial := sg_Serial s, site_CertificateExpiresAt := sg_ExpiresAt s\<rparr>)
                                (sv_store sv) of
                           (st, Some e) \<Rightarrow> (sv\<lparr>sv_store := st\<rparr>, Fail 507 (''site persistence failed: '' @ store_error_text e))
                         | (st, None) \<Rightarrow>
                             (let st' = resolve_alerts (\<lambda>a. al_SiteID a = idv \<and> al_Type a = ''certificate_expiring'' \<and> \<not> al_Resolved a)
                                          (Alerts (st_state st)) st
                              in (server_note env ''ok'' ''control-plane'' idv [] idv (site_Name site) ''site.rotate'' ''certificate rotated''
                                    [(''old_serial'', JStr (site_CertificateSerial site)), (''new_serial'', JStr (sg_Serial s)),
                                     (''expires_at'', JTime (sg_ExpiresAt s))] (sv\<lparr>sv_store := st'\<rparr>),
                                  Done 200 [(''client_certificate'', JStr (sg_CertPEM s)), (''ca_certificate'', JStr (ca_CertPEM ca)),
                                    (''certificate_serial'', JStr (sg_Serial s)), (''certificate_expires_at'', JTime (sg_ExpiresAt s))]))))))"

definition caCRL :: "fleet_cfg \<Rightarrow> env \<Rightarrow> nat option \<Rightarrow> server \<Rightarrow> server \<times> string option reply" where
  "caCRL fc env num sv =
     (case fc_ca fc of
        None \<Rightarrow> (sv, Fail 503 ''PKI is not enabled on this control plane'')
      | Some _ \<Rightarrow>
          (let sv' = (if sv_crlPEM sv = None then refreshCRL fc env num sv else sv) in (sv', Done 200 (sv_crlPEM sv'))))"

text \<open>One scan of \<^verbatim>\<open>certLifecycleLoop\<close>; the k-th alert it raises draws the k-th random bytes.\<close>

fun raise_expiring ::
  "fleet_cfg \<Rightarrow> env \<Rightarrow> string list \<Rightarrow> nat \<Rightarrow> site list \<Rightarrow> store \<Rightarrow> store" where
  "raise_expiring fc env opened k [] s = s"
| "raise_expiring fc env opened k (v # vs) s =
     (if site_Revoked v \<or> site_CertificateExpiresAt v = 0 \<or> site_ID v \<in> set opened
         \<or> \<not> ShouldRotate (site_CertificateExpiresAt v) (en_now env) (fc_CertExpiryWarnBefore fc)
      then raise_expiring fc env opened k vs s
      else raise_expiring fc env opened (k + 1) vs
             (fst (AddAlert \<lparr>al_ID = gen_id ''alert'' (en_rand env k), al_SiteID = site_ID v, al_Severity = ''medium'',
                al_Type = ''certificate_expiring'',
                al_Message = ''site '' @ site_Name v @ '' certificate expires at '' @ fc_RFC3339 fc (site_CertificateExpiresAt v),
                al_Resolved = False, al_CreatedAt = en_now env\<rparr> s)))"

definition certLifecycle_scan :: "fleet_cfg \<Rightarrow> env \<Rightarrow> nat option \<Rightarrow> server \<Rightarrow> server" where
  "certLifecycle_scan fc env num sv0 =
     (if fc_ca fc = None then sv0
      else let sv = refreshCRL fc env num sv0;
               st = st_state (sv_store sv);
               opened = map al_SiteID (filter (\<lambda>a. al_Type a = ''certificate_expiring'' \<and> \<not> al_Resolved a) (Alerts st))
           in sv\<lparr>sv_store := raise_expiring fc env opened 0 (Sites st) (sv_store sv)\<rparr>)"

subsection \<open>Routes\<close>

definition routesList :: "config \<Rightarrow> env \<Rightarrow> http_request \<Rightarrow> server \<Rightarrow> server \<times> route list" where
  "routesList cfg env r sv = keep_visible cfg (en_now env) r rt_SiteID (Routes (st_state (sv_store sv))) sv"

text \<open>The checks of \<^verbatim>\<open>routeCreate\<close> after the caller's: the route with its defaults, or the error.\<close>

definition checked_route :: "fleet_cfg \<Rightarrow> route \<Rightarrow> string + route" where
  "checked_route fc i =
     (case fc_ParseRequestURI fc (rt_TargetURL i) of
        None \<Rightarrow> Inl ''target_url must be an absolute http(s) URL''
      | Some (scheme, host) \<Rightarrow>
          if (scheme \<noteq> ''http'' \<and> scheme \<noteq> ''https'') \<or> host = [] then Inl ''target_url must be an absolute http(s) URL''
          else
            (let method = to_upper (if rt_Method i = [] then ''POST'' else rt_Method i);
                 retry = (if rt_RetryMax i = 0 then 5 else rt_RetryMax i);
                 timeout = (if rt_TimeoutSecs i = 0 then 10 else rt_TimeoutSecs i)
             in if method \<noteq> ''POST'' \<and> method \<noteq> ''PUT'' \<and> method \<noteq> ''PATCH'' then Inl ''method must be POST, PUT or PATCH''
                else if retry < 1 \<or> 20 < retry then Inl ''retry_max must be between 1 and 20''
                else if timeout < 1 \<or> 60 < timeout then Inl ''timeout_seconds must be between 1 and 60''
                else Inr (i\<lparr>rt_Method := method, rt_RetryMax := retry, rt_TimeoutSecs := timeout\<rparr>)))"

definition routeCreate ::
  "fleet_cfg \<Rightarrow> config \<Rightarrow> env \<Rightarrow> http_request \<Rightarrow> string + route \<Rightarrow> server \<Rightarrow> server \<times> route reply" where
  "routeCreate fc cfg env r input sv0 =
     (case input of
        Inl e \<Rightarrow> (sv0, Fail 400 (''invalid JSON: '' @ e))
      | Inr i \<Rightarrow>
          if rt_Name i = [] \<or> rt_Topic i = [] \<or> rt_TargetURL i = [] then (sv0, Fail 400 ''name, topic and target_url are required'')
          else case callerCanMutateSite cfg (en_now env) r (rt_SiteID i) sv0 of
            (sv, False) \<Rightarrow> (sv, Fail 403 ''an org-scoped token may only create routes scoped to its own org's sites'')
          | (sv, True) \<Rightarrow>
              (case checked_route fc i of
                 Inl e \<Rightarrow> (sv, Fail 400 e)
               | Inr i' \<Rightarrow>
                   (let rt = i'\<lparr>rt_ID := gen_id ''route'' (en_rand env 0), rt_CreatedAt := en_now env\<rparr>
                    in case AddRoute rt (sv_store sv) of
                         (st, Some e) \<Rightarrow> (sv\<lparr>sv_store := st\<rparr>, Fail 507 (store_error_text e))
                       | (st, None) \<Rightarrow>
                           (bearer_note cfg env r ''ok'' (rt_SiteID rt) (rt_Name rt) ''route.create'' (''route created: '' @ rt_Name rt)
                              [(''route_id'', JStr (rt_ID rt)), (''topic'', JStr (rt_Topic rt)), (''target_url'', JStr (rt_TargetURL rt))]
                              (sv\<lparr>sv_store := st\<rparr>),
                            Done 201 rt))))"

definition routeDelete :: "config \<Rightarrow> env \<Rightarrow> http_request \<Rightarrow> string \<Rightarrow> server \<Rightarrow> server \<times> unit reply" where
  "routeDelete cfg env r idv sv0 =
     (case find (\<lambda>rt. rt_ID rt = idv) (Routes (st_state (sv_store sv0))) of
        None \<Rightarrow> (sv0, Fail 404 ''route not found'')
      | Some rt \<Rightarrow>
          (case callerCanMutateSite cfg (en_now env) r (rt_SiteID rt) sv0 of
             (sv, False) \<Rightarrow> (sv, Fail 404 ''route not found'')
           | (sv, True) \<Rightarrow>
               (case DeleteRoute idv (sv_store sv) of
                  (st, Some _) \<Rightarrow> (sv\<lparr>sv_store := st\<rparr>, Fail 404 ''route not found'')
                | (st, None) \<Rightarrow>
                    (bearer_note cfg env r ''ok'' [] idv ''route.delete'' (''route deleted: '' @ idv) [(''route_id'', JStr idv)]
                       (sv\<lparr>sv_store := st\<rparr>),
                     Done 204 ()))))"

subsection \<open>Devices and twins\<close>

definition devices :: "config \<Rightarrow> env \<Rightarrow> http_request \<Rightarrow> server \<Rightarrow> server \<times> device list" where
  "devices cfg env r sv = keep_visible cfg (en_now env) r dev_SiteID (Devices (st_state (sv_store sv))) sv"

definition twins :: "config \<Rightarrow> env \<Rightarrow> http_request \<Rightarrow> server \<Rightarrow> server \<times> twin list" where
  "twins cfg env r sv = keep_visible cfg (en_now env) r tw_SiteID (Twins (st_state (sv_store sv))) sv"

text \<open>The closure of \<^verbatim>\<open>twinDesired\<close> replaces the map, so it shares nothing with the store; the
  twin it answers with is the one the closure saw.\<close>

definition twinDesired ::
  "config \<Rightarrow> env \<Rightarrow> http_request \<Rightarrow> string \<Rightarrow> string + json_map \<Rightarrow> server \<Rightarrow> server \<times> twin reply" where
  "twinDesired cfg env r idv input sv0 =
     (case Device idv (sv_store sv0) of
        None \<Rightarrow> (sv0, Fail 404 ''device not found'')
      | Some dev \<Rightarrow>
          (case callerCanMutateSite cfg (en_now env) r (dev_SiteID dev) sv0 of
             (sv, False) \<Rightarrow> (sv, Fail 404 ''device not found'')
           | (sv, True) \<Rightarrow>
               (case input of
                  Inl e \<Rightarrow> (sv, Fail 400 (''invalid JSON: '' @ e))
                | Inr desired \<Rightarrow>
                    (let f = (\<lambda>cur. cur\<lparr>tw_DeviceID := dev_ID dev, tw_SiteID := dev_SiteID dev, tw_Desired := desired,
                                       tw_DesiredVersion := tw_DesiredVersion cur + 1, tw_UpdatedAt := en_now env\<rparr>)
                     in case UpdateTwin (dev_ID dev) f id (sv_store sv) of
                          (st, Some e) \<Rightarrow> (sv\<lparr>sv_store := st\<rparr>, Fail 507 (store_error_text e))
                        | (st, None) \<Rightarrow>
                            (sv\<lparr>sv_store := st\<rparr>,
                             Done 200 (f (case Twin (dev_ID dev) (sv_store sv) of
                                            Some cur \<Rightarrow> cur
                                          | None \<Rightarrow> zero_twin\<lparr>tw_DeviceID := dev_ID dev\<rparr>)))))))"

definition agentTwins :: "config \<Rightarrow> http_request \<Rightarrow> string \<Rightarrow> server \<Rightarrow> twin list reply" where
  "agentTwins cfg r siteID sv =
     (case agentSite cfg r siteID sv of
        None \<Rightarrow> Fail 401 ''unauthorized agent''
      | Some _ \<Rightarrow> Done 200 (TwinsForSite siteID (sv_store sv)))"

definition agentTwinReported ::
  "config \<Rightarrow> env \<Rightarrow> http_request \<Rightarrow> string \<Rightarrow> string + (string \<times> json_map) \<Rightarrow> server \<Rightarrow> server \<times> twin reply" where
  "agentTwinReported cfg env r idv input sv =
     (case input of
        Inl e \<Rightarrow> (sv, Fail 400 (''invalid JSON: '' @ e))
      | Inr (siteID, reported) \<Rightarrow>
          (case agentSite cfg r siteID sv of
             None \<Rightarrow> (sv, Fail 401 ''unauthorized agent'')
           | Some _ \<Rightarrow>
               (case Device idv (sv_store sv) of
                  None \<Rightarrow> (sv, Fail 404 ''device not found'')
                | Some dev \<Rightarrow>
                    if dev_SiteID dev \<noteq> siteID then (sv, Fail 404 ''device not found'')
                    else
                      (let f = (\<lambda>cur. cur\<lparr>tw_DeviceID := dev_ID dev, tw_SiteID := siteID, tw_Reported := reported,
                                         tw_ReportedVersion := tw_ReportedVersion cur + 1, tw_UpdatedAt := en_now env\<rparr>)
                       in case UpdateTwin (dev_ID dev) f id (sv_store sv) of
                            (st, Some e) \<Rightarrow> (sv\<lparr>sv_store := st\<rparr>, Fail 507 (store_error_text e))
                          | (st, None) \<Rightarrow>
                              (sv\<lparr>sv_store := st\<rparr>,
                               Done 200 (f (case Twin (dev_ID dev) (sv_store sv) of
                                              Some cur \<Rightarrow> cur
                                            | None \<Rightarrow> zero_twin\<lparr>tw_DeviceID := dev_ID dev\<rparr>)))))))"

subsection \<open>Organisations\<close>

definition redactedOrg :: "org \<Rightarrow> org" where
  "redactedOrg v = v\<lparr>org_EnrollmentTokenHash := [], org_AdminTokenHash := [], org_ViewerTokenHash := []\<rparr>"

definition orgs :: "config \<Rightarrow> env \<Rightarrow> http_request \<Rightarrow> server \<Rightarrow> server \<times> org list reply" where
  "orgs cfg env r sv0 =
     (case requireGlobalAdmin cfg (en_now env) r sv0 of
        (sv, False) \<Rightarrow> (sv, Fail 403 ''global admin role required'')
      | (sv, True) \<Rightarrow> (sv, Done 200 (map redactedOrg (Orgs (st_state (sv_store sv))))))"

record org_created =
  oc_org :: org
  oc_enrollment_token :: string
  oc_admin_token :: string
  oc_viewer_token :: string

definition orgCreate :: "config \<Rightarrow> env \<Rightarrow> http_request \<Rightarrow> string + string \<Rightarrow> server \<Rightarrow> server \<times> org_created reply" where
  "orgCreate cfg env r input sv0 =
     (case requireGlobalAdmin cfg (en_now env) r sv0 of
        (sv, False) \<Rightarrow> (sv, Fail 403 ''global admin role required'')
      | (sv, True) \<Rightarrow>
          (case input of
             Inl e \<Rightarrow> (sv, Fail 400 (''invalid JSON: '' @ e))
           | Inr name \<Rightarrow>
               if trim_space name = [] then (sv, Fail 400 ''name is required'')
               else case (NewToken (en_rand env 0), NewToken (en_rand env 1), NewToken (en_rand env 2)) of
                 (Some enrollTok, Some adminTok, Some viewerTok) \<Rightarrow>
                   (let org = \<lparr>org_ID = gen_id ''org'' (en_rand env 3), org_Name = name, org_CreatedAt = en_now env,
                          org_EnrollmentTokenHash = Hash (c_sha cfg) enrollTok, org_AdminTokenHash = Hash (c_sha cfg) adminTok,
                          org_ViewerTokenHash = Hash (c_sha cfg) viewerTok\<rparr>
                    in case AddOrg org (sv_store sv) of
                         (st, Some e) \<Rightarrow> (sv\<lparr>sv_store := st\<rparr>, Fail 507 (store_error_text e))
                       | (st, None) \<Rightarrow>
                           (bearer_note cfg env r ''ok'' [] (org_Name org) ''org.create'' (''org created: '' @ org_Name org)
                              [(''org_id'', JStr (org_ID org))] (sv\<lparr>sv_store := st\<rparr>),
                            Done 201 \<lparr>oc_org = redactedOrg org, oc_enrollment_token = enrollTok, oc_admin_token = adminTok,
                              oc_viewer_token = viewerTok\<rparr>))
               | _ \<Rightarrow> (sv, Fail 500 ''token generation failed'')))"

definition orgGet :: "config \<Rightarrow> env \<Rightarrow> http_request \<Rightarrow> string \<Rightarrow> server \<Rightarrow> server \<times> org reply" where
  "orgGet cfg env r idv sv0 =
     (case requireGlobalAdmin cfg (en_now env) r sv0 of
        (sv, False) \<Rightarrow> (sv, Fail 403 ''global admin role required'')
      | (sv, True) \<Rightarrow>
          (case Org idv (sv_store sv) of
             None \<Rightarrow> (sv, Fail 404 ''org not found'')
           | Some g \<Rightarrow> (sv, Done 200 (redactedOrg g))))"

definition orgDelete :: "config \<Rightarrow> env \<Rightarrow> http_request \<Rightarrow> string \<Rightarrow> server \<Rightarrow> server \<times> unit reply" where
  "orgDelete cfg env r idv sv0 =
     (case requireGlobalAdmin cfg (en_now env) r sv0 of
        (sv, False) \<Rightarrow> (sv, Fail 403 ''global admin role required'')
      | (sv, True) \<Rightarrow>
          (case DeleteOrg idv (sv_store sv) of
             (st, Some _) \<Rightarrow> (sv\<lparr>sv_store := st\<rparr>, Fail 404 ''org not found'')
           | (st, None) \<Rightarrow>
               (bearer_note cfg env r ''ok'' [] idv ''org.delete'' (''org deleted: '' @ idv) [(''org_id'', JStr idv)] (sv\<lparr>sv_store := st\<rparr>),
                Done 204 ())))"

subsection \<open>Alerts and events\<close>

definition alerts :: "config \<Rightarrow> env \<Rightarrow> http_request \<Rightarrow> server \<Rightarrow> server \<times> alert list" where
  "alerts cfg env r sv = keep_visible cfg (en_now env) r al_SiteID (Alerts (st_state (sv_store sv))) sv"

definition alertResolve :: "config \<Rightarrow> env \<Rightarrow> http_request \<Rightarrow> string \<Rightarrow> server \<Rightarrow> server \<times> json_map reply" where
  "alertResolve cfg env r idv sv0 =
     (case find (\<lambda>a. al_ID a = idv) (Alerts (st_state (sv_store sv0))) of
        None \<Rightarrow> (sv0, Fail 404 ''alert not found'')
      | Some a \<Rightarrow>
          (case callerCanMutateSite cfg (en_now env) r (al_SiteID a) sv0 of
             (sv, False) \<Rightarrow> (sv, Fail 404 ''alert not found'')
           | (sv, True) \<Rightarrow>
               (case ResolveAlert idv (sv_store sv) of
                  (st, Some _) \<Rightarrow> (sv\<lparr>sv_store := st\<rparr>, Fail 404 ''alert not found'')
                | (st, None) \<Rightarrow>
                    (bearer_note cfg env r ''ok'' [] idv ''alert.resolve'' (''alert resolved: '' @ idv) [(''alert_id'', JStr idv)]
                       (sv\<lparr>sv_store := st\<rparr>),
                     Done 200 [(''resolved'', JBool True)]))))"

text \<open>\<^verbatim>\<open>strconv.Atoi\<close> with its error ignored (0 for bad syntax, the nearest value for one out of
  range).\<close>

definition atoi :: "string \<Rightarrow> int" where
  "atoi s =
     (let neg = (s \<noteq> [] \<and> hd s = CHR ''-'');
          ds = (if s \<noteq> [] \<and> (hd s = CHR ''-'' \<or> hd s = CHR ''+'') then tl s else s)
      in if ds = [] then 0
         else case parse_digits 0 ds of
           None \<Rightarrow> 0
         | Some n \<Rightarrow> if neg then max (- (2 ^ 63)) (- int n) else min (2 ^ 63 - 1) (int n))"

definition eventsList :: "config \<Rightarrow> env \<Rightarrow> http_request \<Rightarrow> string \<Rightarrow> server \<Rightarrow> server \<times> event list" where
  "eventsList cfg env r minutes sv =
     (let m = (if atoi minutes \<le> 0 then 60 else atoi minutes)
      in keep_visible cfg (en_now env) r ev_SiteID (EventsSince (en_now env + wrap64 (- m * minute)) (sv_store sv)) sv)"

end
