(* ===== verification/Policy.thy ===== *)
theory Policy
  imports Model
begin

text \<open>
  Image policy packs, \<^verbatim>\<open>internal/policy/policy.go\<close>: the glob over image names,
  which the source compiles to a regular expression, and the decision over all
  packs that apply to a site.
\<close>

subsection \<open>Model\<close>

text \<open>The regular expression \<^verbatim>\<open>^lit.*lit.*lit$\<close> the source builds: quoted literals
  and \<^verbatim>\<open>.*\<close>, anchored at both ends.  Go's \<^verbatim>\<open>.\<close> does not match a newline.\<close>

datatype re_item = Lit string | DotStar

fun re_of_parts :: "string list \<Rightarrow> re_item list" where
  "re_of_parts [] = []"
| "re_of_parts [p] = [Lit p]"
| "re_of_parts (p # q # ps) = Lit p # DotStar # re_of_parts (q # ps)"

fun re_match :: "re_item list \<Rightarrow> string \<Rightarrow> bool" where
  "re_match [] s = (s = [])"
| "re_match (Lit p # r) s = (has_prefix s p \<and> re_match r (drop (length p) s))"
| "re_match (DotStar # r) [] = re_match r []"
| "re_match (DotStar # r) (c # s) =
     (re_match r (c # s) \<or> c \<noteq> CHR 0x0A \<and> re_match (DotStar # r) s)"

definition MatchImage :: "string \<Rightarrow> string \<Rightarrow> bool" where
  "MatchImage pattern img = re_match (re_of_parts (split_on CHR ''*'' pattern)) img"

text \<open>\<^verbatim>\<open>Allowed\<close>: the pair \<^verbatim>\<open>(ok, deniedBy)\<close>.\<close>

fun Allowed :: "policy_pack list \<Rightarrow> string \<Rightarrow> string \<Rightarrow> bool \<times> string" where
  "Allowed [] siteID img = (True, [])"
| "Allowed (p # packs) siteID img =
     (if \<not> pk_Enabled p then Allowed packs siteID img
      else if pk_SiteID p \<noteq> [] \<and> pk_SiteID p \<noteq> siteID then Allowed packs siteID img
      else if pk_AllowedImages p = [] then Allowed packs siteID img
      else if \<not> list_ex (\<lambda>pattern. MatchImage pattern img) (pk_AllowedImages p)
           then (False, pk_Name p)
      else Allowed packs siteID img)"

subsection \<open>Specification\<close>

text \<open>A glob denotes the strings obtained by writing a string for each star.\<close>

fun fill :: "string list \<Rightarrow> string list \<Rightarrow> string" where
  "fill (p # q # ps) (w # ws) = p @ w @ fill (q # ps) ws"
| "fill [p] ws = p"
| "fill _ _ = []"

definition pack_applies :: "policy_pack \<Rightarrow> string \<Rightarrow> bool" where
  "pack_applies p siteID \<longleftrightarrow>
     pk_Enabled p \<and> (pk_SiteID p = [] \<or> pk_SiteID p = siteID) \<and> pk_AllowedImages p \<noteq> []"

definition pack_permits :: "policy_pack \<Rightarrow> string \<Rightarrow> bool" where
  "pack_permits p img \<longleftrightarrow> (\<exists>pattern \<in> set (pk_AllowedImages p). MatchImage pattern img)"

subsection \<open>Lemmas\<close>

lemma re_match_DotStar:
  "re_match (DotStar # r) s \<longleftrightarrow> (\<exists>w t. s = w @ t \<and> CHR 0x0A \<notin> set w \<and> re_match r t)"
proof (induction s)
  case Nil
  then show ?case by auto
next
  case (Cons c s)
  show ?case
  proof
    assume "re_match (DotStar # r) (c # s)"
    then consider "re_match r (c # s)" | "c \<noteq> CHR 0x0A" "re_match (DotStar # r) s" by auto
    then show "\<exists>w t. c # s = w @ t \<and> CHR 0x0A \<notin> set w \<and> re_match r t"
    proof cases
      case 1
      then show ?thesis by (metis append_Nil empty_iff list.set(1))
    next
      case 2
      then obtain w t where "s = w @ t" "CHR 0x0A \<notin> set w" "re_match r t" using Cons.IH by auto
      with 2 have "c # s = (c # w) @ t \<and> CHR 0x0A \<notin> set (c # w) \<and> re_match r t" by auto
      then show ?thesis by blast
    qed
  next
    assume "\<exists>w t. c # s = w @ t \<and> CHR 0x0A \<notin> set w \<and> re_match r t"
    then obtain w t where *: "c # s = w @ t" "CHR 0x0A \<notin> set w" "re_match r t" by auto
    then show "re_match (DotStar # r) (c # s)" using Cons.IH by (cases w) auto
  qed
qed

lemma has_prefix_append: "has_prefix s p \<longleftrightarrow> (\<exists>t. s = p @ t)"
  unfolding has_prefix_def by (metis append_eq_conv_conj append_take_drop_id)

lemma re_match_Lit: "re_match (Lit p # r) s \<longleftrightarrow> (\<exists>t. s = p @ t \<and> re_match r t)"
  by (auto simp: has_prefix_append)

lemma re_match_fill:
  "ps \<noteq> [] \<Longrightarrow>
   re_match (re_of_parts ps) s \<longleftrightarrow>
     (\<exists>ws. length ws = length ps - 1 \<and> (\<forall>w \<in> set ws. CHR 0x0A \<notin> set w) \<and> s = fill ps ws)"
proof (induction ps arbitrary: s rule: re_of_parts.induct)
  case 1
  then show ?case by simp
next
  case (2 p)
  then show ?case by (auto simp: has_prefix_append)
next
  case (3 p q ps)
  let ?nl = "\<lambda>ws. \<forall>w \<in> set ws. CHR 0x0A \<notin> set w"
  have "re_match (re_of_parts (p # q # ps)) s \<longleftrightarrow>
      (\<exists>w t. s = p @ w @ t \<and> CHR 0x0A \<notin> set w \<and> re_match (re_of_parts (q # ps)) t)"
    unfolding re_of_parts.simps re_match_Lit re_match_DotStar by auto
  also have "\<dots> \<longleftrightarrow> (\<exists>w ws. CHR 0x0A \<notin> set w \<and> length ws = length ps \<and> ?nl ws \<and>
      s = p @ w @ fill (q # ps) ws)"
    using 3 by fastforce
  also have "\<dots> \<longleftrightarrow> (\<exists>ws. length ws = length (p # q # ps) - 1 \<and> ?nl ws \<and> s = fill (p # q # ps) ws)"
    (is "?l \<longleftrightarrow> ?r")
  proof
    assume ?l
    then obtain w ws where "CHR 0x0A \<notin> set w" "length ws = length ps" "?nl ws"
      "s = p @ w @ fill (q # ps) ws" by auto
    then show ?r by (intro exI[of _ "w # ws"]) auto
  next
    assume ?r
    then obtain vs where v: "length vs = Suc (length ps)" "?nl vs" "s = fill (p # q # ps) vs" by auto
    then show ?l by (cases vs) auto
  qed
  finally show ?case .
qed

lemma Allowed_True_iff:
  "fst (Allowed packs siteID img) \<longleftrightarrow>
     (\<forall>p \<in> set packs. pack_applies p siteID \<longrightarrow> pack_permits p img)"
  by (induction packs) (auto simp: pack_applies_def pack_permits_def list_ex_iff)

lemma Allowed_denied:
  "\<not> fst (Allowed packs siteID img) \<Longrightarrow>
   \<exists>pre p post. packs = pre @ p # post \<and> pack_applies p siteID \<and> \<not> pack_permits p img \<and>
     (\<forall>q \<in> set pre. pack_applies q siteID \<longrightarrow> pack_permits q img) \<and>
     snd (Allowed packs siteID img) = pk_Name p"
proof (induction packs)
  case Nil
  then show ?case by simp
next
  case (Cons p packs)
  show ?case
  proof (cases "pack_applies p siteID \<and> \<not> pack_permits p img")
    case True
    then show ?thesis
      by (intro exI[of _ "[]"] exI[of _ p] exI[of _ packs])
        (auto simp: pack_applies_def pack_permits_def list_ex_iff)
  next
    case False
    then have eq: "Allowed (p # packs) siteID img = Allowed packs siteID img"
      by (auto simp: pack_applies_def pack_permits_def list_ex_iff)
    with Cons obtain pre q post where "packs = pre @ q # post" "pack_applies q siteID"
      "\<not> pack_permits q img" "\<forall>r \<in> set pre. pack_applies r siteID \<longrightarrow> pack_permits r img"
      "snd (Allowed packs siteID img) = pk_Name q" by auto
    with False eq show ?thesis
      by (intro exI[of _ "p # pre"] exI[of _ q] exI[of _ post]) auto
  qed
qed

subsection \<open>Properties\<close>



text \<open>C6: \<^verbatim>\<open>Allowed\<close> grants an image exactly when every enabled pack that applies to
  the site and lists images has a pattern for it; a refusal names the first pack
  in the list that has none.\<close>

theorem Allowed_correct:
  "(fst (Allowed packs siteID img) \<longleftrightarrow>
      (\<forall>p \<in> set packs. pack_applies p siteID \<longrightarrow> pack_permits p img)) \<and>
   (\<not> fst (Allowed packs siteID img) \<longrightarrow>
      (\<exists>pre p post. packs = pre @ p # post \<and> pack_applies p siteID \<and> \<not> pack_permits p img \<and>
         (\<forall>q \<in> set pre. pack_applies q siteID \<longrightarrow> pack_permits q img) \<and>
         snd (Allowed packs siteID img) = pk_Name p))"
  using Allowed_True_iff Allowed_denied by blast

theorem Allowed_correct_witness:
  "fst (Allowed [\<lparr>pk_ID = ''p1'', pk_Name = ''prod'', pk_Version = 1, pk_SiteID = [], pk_Enabled = True,
          pk_AllowedImages = [''ghcr.io/*''], pk_CreatedAt = 0, pk_UpdatedAt = 0\<rparr>]
        ''s1'' ''docker.io/evil'') = False \<and>
   \<not> (\<forall>p \<in> set [\<lparr>pk_ID = ''p1'', pk_Name = ''prod'', pk_Version = 1, pk_SiteID = [],
          pk_Enabled = True, pk_AllowedImages = [''ghcr.io/*''], pk_CreatedAt = 0, pk_UpdatedAt = 0\<rparr>].
        pack_applies p ''s1'' \<longrightarrow> pack_permits p ''docker.io/evil'')"
proof -
  let ?ps = "[\<lparr>pk_ID = ''p1'', pk_Name = ''prod'', pk_Version = 1, pk_SiteID = [], pk_Enabled = True,
          pk_AllowedImages = [''ghcr.io/*''], pk_CreatedAt = 0, pk_UpdatedAt = 0\<rparr>]"
  have "fst (Allowed ?ps ''s1'' ''docker.io/evil'') = False" by code_simp
  then show ?thesis using Allowed_correct [of ?ps "''s1''" "''docker.io/evil''"] by blast
qed

end
