(* ===== verification/Deployments.thy ===== *)
theory Deployments
  imports Fleet Policy
begin

text \<open>
  Deployments and policy packs: the console handlers and the agent's status and rollback
  endpoints of \<^verbatim>\<open>internal/server/server.go\<close>.
\<close>

subsection \<open>Console\<close>

definition deployments :: "config \<Rightarrow> env \<Rightarrow> http_request \<Rightarrow> server \<Rightarrow> server \<times> deployment list" where
  "deployments cfg env r sv = keep_visible cfg (en_now env) r dp_SiteID (Deployments (st_state (sv_store sv))) sv"

definition policy_deny ::
  "fleet_cfg \<Rightarrow> config \<Rightarrow> env \<Rightarrow> http_request \<Rightarrow> string \<Rightarrow> string \<Rightarrow> string \<Rightarrow> string \<Rightarrow> server \<Rightarrow> server \<times> 'a reply" where
  "policy_deny fc cfg env r siteID name img deniedBy sv =
     (bearer_note cfg env r ''warn'' siteID name ''policy.deny'' (''image denied by policy pack '' @ deniedBy)
        [(''image'', JStr img), (''policy'', JStr deniedBy)] sv,
      Fail 403 (''image '' @ fc_Quote fc img @ '' denied by policy pack '' @ fc_Quote fc deniedBy))"

definition deploymentCreate ::
  "fleet_cfg \<Rightarrow> config \<Rightarrow> env \<Rightarrow> http_request \<Rightarrow> string + deployment \<Rightarrow> server \<Rightarrow> server \<times> deployment reply" where
  "deploymentCreate fc cfg env r input sv0 =
     (case input of
        Inl e \<Rightarrow> (sv0, Fail 400 (''invalid JSON: '' @ e))
      | Inr i \<Rightarrow>
          if dp_SiteID i = [] \<or> dp_Name i = [] \<or> dp_Version i = [] \<or> dp_Image i = []
          then (sv0, Fail 400 ''site_id, name, version and image are required'')
          else case Site (dp_SiteID i) (sv_store sv0) of
            None \<Rightarrow> (sv0, Fail 404 ''site not found'')
          | Some _ \<Rightarrow>
              (case callerCanMutateSite cfg (en_now env) r (dp_SiteID i) sv0 of
                 (sv, False) \<Rightarrow> (sv, Fail 403 ''an org-scoped token may only deploy to its own org's sites'')
               | (sv, True) \<Rightarrow>
                   (case Allowed (PolicyPacks (st_state (sv_store sv))) (dp_SiteID i) (dp_Image i) of
                      (False, deniedBy) \<Rightarrow> policy_deny fc cfg env r (dp_SiteID i) (dp_Name i) (dp_Image i) deniedBy sv
                    | (True, _) \<Rightarrow>
                        (let d = i\<lparr>dp_ID := gen_id ''dep'' (en_rand env 0), dp_Status := ''queued'',
                               dp_DesiredState := (if dp_DesiredState i = [] then ''running'' else dp_DesiredState i),
                               dp_ActualState := ''unknown'', dp_CreatedAt := en_now env, dp_UpdatedAt := en_now env,
                               dp_DeployedAt := en_now env\<rparr>
                         in case AddDeployment d (sv_store sv) of
                              (st, Some e) \<Rightarrow> (sv\<lparr>sv_store := st\<rparr>, Fail 507 (store_error_text e))
                            | (st, None) \<Rightarrow>
                                (bearer_note cfg env r ''ok'' (dp_SiteID d) (dp_Name d) ''deployment.create''
                                   (''deployment created: '' @ dp_Name d)
                                   [(''deployment_id'', JStr (dp_ID d)), (''image'', JStr (dp_Image d)), (''version'', JStr (dp_Version d))]
                                   (sv\<lparr>sv_store := st\<rparr>),
                                 Done 201 d)))))"

record patch =
  pa_Version :: "string option"
  pa_Image :: "string option"
  pa_DesiredState :: "string option"

definition given :: "string option \<Rightarrow> string option" where
  "given x = (case x of Some s \<Rightarrow> if s = [] then None else Some s | None \<Rightarrow> None)"

text \<open>The closure of \<^verbatim>\<open>deploymentPatch\<close>, with the desired state already normalised.\<close>

definition patched :: "time \<Rightarrow> patch \<Rightarrow> deployment \<Rightarrow> deployment" where
  "patched now p d =
     (let changingImage = (case given (pa_Image p) of None \<Rightarrow> False | Some i \<Rightarrow> i \<noteq> dp_Image d);
          changingVersion = (case given (pa_Version p) of None \<Rightarrow> False | Some v \<Rightarrow> v \<noteq> dp_Version d);
          d1 = (if (changingImage \<or> changingVersion) \<and> dp_ActualState d = ''running''
                then d\<lparr>dp_LastGoodImage := dp_Image d, dp_LastGoodVersion := dp_Version d\<rparr> else d);
          d2 = (case given (pa_Version p) of None \<Rightarrow> d1 | Some v \<Rightarrow> d1\<lparr>dp_Version := v\<rparr>);
          d3 = (case given (pa_Image p) of None \<Rightarrow> d2 | Some i \<Rightarrow> d2\<lparr>dp_Image := i\<rparr>);
          d4 = (case pa_DesiredState p of None \<Rightarrow> d3 | Some s \<Rightarrow> d3\<lparr>dp_DesiredState := s, dp_Status := ''queued''\<rparr>);
          d5 = (if changingImage \<or> changingVersion then d4\<lparr>dp_DeployedAt := now\<rparr> else d4)
      in d5\<lparr>dp_UpdatedAt := now\<rparr>)"

text \<open>\<^verbatim>\<open>strings.ToLower\<close> where it can give ASCII: the upper-case letters, and the runes dotted I
  (i) and Kelvin sign (k).\<close>

fun to_lower_text :: "string \<Rightarrow> string" where
  "to_lower_text (a # b # c # cs) =
     (if a = CHR 0xC4 \<and> b = CHR 0xB0 then CHR ''i'' # to_lower_text (c # cs)
      else if a = CHR 0xE2 \<and> b = CHR 0x84 \<and> c = CHR 0xAA then CHR ''k'' # to_lower_text cs
      else to_lower_char a # to_lower_text (b # c # cs))"
| "to_lower_text [a, b] = (if a = CHR 0xC4 \<and> b = CHR 0xB0 then ''i'' else [to_lower_char a, to_lower_char b])"
| "to_lower_text [a] = [to_lower_char a]"
| "to_lower_text [] = []"

definition deploymentPatch ::
  "fleet_cfg \<Rightarrow> config \<Rightarrow> env \<Rightarrow> http_request \<Rightarrow> string \<Rightarrow> string + patch \<Rightarrow> server \<Rightarrow> server \<times> deployment reply" where
  "deploymentPatch fc cfg env r idv input sv0 =
     (case input of
        Inl e \<Rightarrow> (sv0, Fail 400 (''invalid JSON: '' @ e))
      | Inr p0 \<Rightarrow>
          if pa_Version p0 = None \<and> pa_Image p0 = None \<and> pa_DesiredState p0 = None
          then (sv0, Fail 400 ''version, image or desired_state is required'')
          else case Deployment idv (sv_store sv0) of
            None \<Rightarrow> (sv0, Fail 404 ''deployment not found'')
          | Some existing \<Rightarrow>
              (case callerCanMutateSite cfg (en_now env) r (dp_SiteID existing) sv0 of
                 (sv, False) \<Rightarrow> (sv, Fail 404 ''deployment not found'')
               | (sv, True) \<Rightarrow>
                   (let p = p0\<lparr>pa_DesiredState := map_option (\<lambda>s. to_lower_text (trim_space s)) (pa_DesiredState p0)\<rparr>
                    in if (case pa_DesiredState p of None \<Rightarrow> False | Some s \<Rightarrow> s \<noteq> ''running'' \<and> s \<noteq> ''stopped'')
                       then (sv, Fail 400 ''desired_state must be running or stopped'')
                       else case (case given (pa_Image p) of
                                    None \<Rightarrow> None
                                  | Some img \<Rightarrow>
                                      (case Allowed (PolicyPacks (st_state (sv_store sv))) (dp_SiteID existing) img of
                                         (True, _) \<Rightarrow> None
                                       | (False, deniedBy) \<Rightarrow> Some (img, deniedBy))) of
                              Some (img, deniedBy) \<Rightarrow>
                                policy_deny fc cfg env r (dp_SiteID existing) (dp_Name existing) img deniedBy sv
                            | None \<Rightarrow>
                                (case UpdateDeployment idv (patched (en_now env) p) (sv_store sv) of
                                   (st, Some _) \<Rightarrow> (sv\<lparr>sv_store := st\<rparr>, Fail 404 ''deployment not found'')
                                 | (st, None) \<Rightarrow>
                                     (let dep = (case Deployment idv st of None \<Rightarrow> zero_deployment | Some d \<Rightarrow> d)
                                      in (bearer_note cfg env r ''ok'' (dp_SiteID dep) (dp_Name dep) ''deployment.patch''
                                            (''deployment updated: '' @ idv) [(''deployment_id'', JStr idv)] (sv\<lparr>sv_store := st\<rparr>),
                                          Done 200 dep))))))"

definition deploymentDelete :: "config \<Rightarrow> env \<Rightarrow> http_request \<Rightarrow> string \<Rightarrow> server \<Rightarrow> server \<times> unit reply" where
  "deploymentDelete cfg env r idv sv0 =
     (case Deployment idv (sv_store sv0) of
        None \<Rightarrow> (sv0, Fail 404 ''deployment not found'')
      | Some existing \<Rightarrow>
          (case callerCanMutateSite cfg (en_now env) r (dp_SiteID existing) sv0 of
             (sv, False) \<Rightarrow> (sv, Fail 404 ''deployment not found'')
           | (sv, True) \<Rightarrow>
               (case DeleteDeployment idv (sv_store sv) of
                  (st, Some _) \<Rightarrow> (sv\<lparr>sv_store := st\<rparr>, Fail 404 ''deployment not found'')
                | (st, None) \<Rightarrow>
                    (bearer_note cfg env r ''ok'' [] idv ''deployment.delete'' (''deployment deleted: '' @ idv)
                       [(''deployment_id'', JStr idv)] (sv\<lparr>sv_store := st\<rparr>),
                     Done 204 ()))))"

subsection \<open>Policy packs\<close>

definition policyPacks :: "config \<Rightarrow> env \<Rightarrow> http_request \<Rightarrow> server \<Rightarrow> server \<times> policy_pack list" where
  "policyPacks cfg env r sv = keep_visible cfg (en_now env) r pk_SiteID (PolicyPacks (st_state (sv_store sv))) sv"

definition policyPackCreate ::
  "config \<Rightarrow> env \<Rightarrow> http_request \<Rightarrow> string + policy_pack \<Rightarrow> server \<Rightarrow> server \<times> policy_pack reply" where
  "policyPackCreate cfg env r input sv0 =
     (case input of
        Inl e \<Rightarrow> (sv0, Fail 400 (''invalid JSON: '' @ e))
      | Inr i \<Rightarrow>
          if pk_Name i = [] then (sv0, Fail 400 ''name is required'')
          else case callerCanMutateSite cfg (en_now env) r (pk_SiteID i) sv0 of
            (sv, False) \<Rightarrow> (sv, Fail 403 ''an org-scoped token may only create policy packs scoped to its own org's sites'')
          | (sv, True) \<Rightarrow>
              (let p = i\<lparr>pk_ID := gen_id ''policy'' (en_rand env 0), pk_Version := 1, pk_CreatedAt := en_now env, pk_UpdatedAt := en_now env\<rparr>
               in case AddPolicyPack p (sv_store sv) of
                    (st, Some e) \<Rightarrow> (sv\<lparr>sv_store := st\<rparr>, Fail 507 (store_error_text e))
                  | (st, None) \<Rightarrow>
                      (bearer_note cfg env r ''ok'' (pk_SiteID p) (pk_Name p) ''policy.create'' (''policy pack created: '' @ pk_Name p)
                         [(''policy_id'', JStr (pk_ID p)), (''allowed_images'', JArr (map JStr (pk_AllowedImages p)))]
                         (sv\<lparr>sv_store := st\<rparr>),
                       Done 201 p)))"

record pack_patch =
  pp_Name :: "string option"
  pp_Enabled :: "bool option"
  pp_AllowedImages :: "string list option"

definition patched_pack :: "time \<Rightarrow> pack_patch \<Rightarrow> policy_pack \<Rightarrow> policy_pack" where
  "patched_pack now i p =
     p\<lparr>pk_Name := (case given (pp_Name i) of None \<Rightarrow> pk_Name p | Some n \<Rightarrow> n),
       pk_Enabled := (case pp_Enabled i of None \<Rightarrow> pk_Enabled p | Some b \<Rightarrow> b),
       pk_AllowedImages := (case pp_AllowedImages i of None \<Rightarrow> pk_AllowedImages p | Some xs \<Rightarrow> xs),
       pk_Version := pk_Version p + 1, pk_UpdatedAt := now\<rparr>"

definition zero_pack :: policy_pack where
  "zero_pack = \<lparr>pk_ID = [], pk_Name = [], pk_Version = 0, pk_SiteID = [], pk_Enabled = False, pk_AllowedImages = [],
     pk_CreatedAt = 0, pk_UpdatedAt = 0\<rparr>"

definition policyPackPatch ::
  "config \<Rightarrow> env \<Rightarrow> http_request \<Rightarrow> string \<Rightarrow> string + pack_patch \<Rightarrow> server \<Rightarrow> server \<times> policy_pack reply" where
  "policyPackPatch cfg env r idv input sv0 =
     (case input of
        Inl e \<Rightarrow> (sv0, Fail 400 (''invalid JSON: '' @ e))
      | Inr i \<Rightarrow>
          (case PolicyPack idv (sv_store sv0) of
             None \<Rightarrow> (sv0, Fail 404 ''policy pack not found'')
           | Some existing \<Rightarrow>
               (case callerCanMutateSite cfg (en_now env) r (pk_SiteID existing) sv0 of
                  (sv, False) \<Rightarrow> (sv, Fail 404 ''policy pack not found'')
                | (sv, True) \<Rightarrow>
                    (case UpdatePolicyPack idv (patched_pack (en_now env) i) (sv_store sv) of
                       (st, Some _) \<Rightarrow> (sv\<lparr>sv_store := st\<rparr>, Fail 404 ''policy pack not found'')
                     | (st, None) \<Rightarrow>
                         (let pack = (case PolicyPack idv st of None \<Rightarrow> zero_pack | Some p \<Rightarrow> p)
                          in (bearer_note cfg env r ''ok'' (pk_SiteID pack) (pk_Name pack) ''policy.patch'' (''policy pack updated: '' @ idv)
                                [(''policy_id'', JStr idv), (''allowed_images'', JArr (map JStr (pk_AllowedImages pack)))]
                                (sv\<lparr>sv_store := st\<rparr>),
                              Done 200 pack))))))"

definition policyPackDelete :: "config \<Rightarrow> env \<Rightarrow> http_request \<Rightarrow> string \<Rightarrow> server \<Rightarrow> server \<times> unit reply" where
  "policyPackDelete cfg env r idv sv0 =
     (case PolicyPack idv (sv_store sv0) of
        None \<Rightarrow> (sv0, Fail 404 ''policy pack not found'')
      | Some existing \<Rightarrow>
          (case callerCanMutateSite cfg (en_now env) r (pk_SiteID existing) sv0 of
             (sv, False) \<Rightarrow> (sv, Fail 404 ''policy pack not found'')
           | (sv, True) \<Rightarrow>
               (case DeletePolicyPack idv (sv_store sv) of
                  (st, Some _) \<Rightarrow> (sv\<lparr>sv_store := st\<rparr>, Fail 404 ''policy pack not found'')
                | (st, None) \<Rightarrow>
                    (bearer_note cfg env r ''ok'' [] idv ''policy.delete'' (''policy pack deleted: '' @ idv)
                       [(''policy_id'', JStr idv)] (sv\<lparr>sv_store := st\<rparr>),
                     Done 204 ()))))"

subsection \<open>Agents\<close>

definition agentDeployments :: "config \<Rightarrow> http_request \<Rightarrow> string \<Rightarrow> server \<Rightarrow> deployment list reply" where
  "agentDeployments cfg r siteID sv =
     (case agentSite cfg r siteID sv of
        None \<Rightarrow> Fail 401 ''unauthorized agent''
      | Some _ \<Rightarrow> Done 200 (filter (\<lambda>d. dp_SiteID d = siteID) (Deployments (st_state (sv_store sv)))))"

record status_input =
  si_SiteID :: string
  si_Status :: string
  si_ActualState :: string
  si_Message :: string

text \<open>The three checks both agent endpoints make: the agent, the deployment, its site.\<close>

definition agent_deployment :: "config \<Rightarrow> http_request \<Rightarrow> string \<Rightarrow> string \<Rightarrow> server \<Rightarrow> (int \<times> string) + deployment" where
  "agent_deployment cfg r siteID idv sv =
     (case agentSite cfg r siteID sv of
        None \<Rightarrow> Inl (401, ''unauthorized agent'')
      | Some _ \<Rightarrow>
          (case Deployment idv (sv_store sv) of
             None \<Rightarrow> Inl (404, ''deployment not found'')
           | Some d \<Rightarrow> if dp_SiteID d \<noteq> siteID then Inl (403, ''deployment belongs to another site'') else Inr d))"

definition agentDeploymentStatus ::
  "config \<Rightarrow> env \<Rightarrow> http_request \<Rightarrow> string \<Rightarrow> string + status_input \<Rightarrow> server \<Rightarrow> server \<times> json_map reply" where
  "agentDeploymentStatus cfg env r idv input sv =
     (case input of
        Inl e \<Rightarrow> (sv, Fail 400 (''invalid JSON: '' @ e))
      | Inr i \<Rightarrow>
          (case agent_deployment cfg r (si_SiteID i) idv sv of
             Inl (code, msg) \<Rightarrow> (sv, Fail code msg)
           | Inr _ \<Rightarrow>
               (case UpdateDeployment idv (\<lambda>d. (if si_ActualState i \<noteq> [] then d\<lparr>dp_Status := si_Status i, dp_ActualState := si_ActualState i\<rparr>
                                               else d\<lparr>dp_Status := si_Status i\<rparr>)\<lparr>dp_UpdatedAt := en_now env\<rparr>) (sv_store sv) of
                  (st, Some _) \<Rightarrow> (sv\<lparr>sv_store := st\<rparr>, Fail 404 ''deployment not found'')
                | (st, None) \<Rightarrow>
                    (sv\<lparr>sv_store :=
                        (if si_Status i = ''failed''
                         then fst (AddAlert \<lparr>al_ID = gen_id ''alert'' (en_rand env 0), al_SiteID = si_SiteID i, al_Severity = ''high'',
                                al_Type = ''deployment_failed'', al_Message = si_Message i, al_Resolved = False,
                                al_CreatedAt = en_now env\<rparr> st)
                         else st)\<rparr>,
                     Done 200 [(''updated'', JBool True)]))))"

definition rolled_back :: "time \<Rightarrow> deployment \<Rightarrow> deployment" where
  "rolled_back now d =
     d\<lparr>dp_Image := dp_LastGoodImage d, dp_Version := dp_LastGoodVersion d, dp_LastGoodImage := [], dp_LastGoodVersion := [],
       dp_DesiredState := ''running'', dp_Status := ''queued'', dp_DeployedAt := now, dp_UpdatedAt := now\<rparr>"

definition rollback_alert :: "env \<Rightarrow> string \<Rightarrow> string \<Rightarrow> alert" where
  "rollback_alert env siteID msg =
     \<lparr>al_ID = gen_id ''alert'' (en_rand env 0), al_SiteID = siteID, al_Severity = ''high'', al_Type = ''deployment_rollback'',
      al_Message = msg, al_Resolved = False, al_CreatedAt = en_now env\<rparr>"

definition agentDeploymentRollback ::
  "config \<Rightarrow> env \<Rightarrow> http_request \<Rightarrow> string \<Rightarrow> string + (string \<times> string) \<Rightarrow> server \<Rightarrow> server \<times> json_map reply" where
  "agentDeploymentRollback cfg env r idv input sv =
     (case input of
        Inl e \<Rightarrow> (sv, Fail 400 (''invalid JSON: '' @ e))
      | Inr (siteID, reason) \<Rightarrow>
          (case agent_deployment cfg r siteID idv sv of
             Inl (code, msg) \<Rightarrow> (sv, Fail code msg)
           | Inr dep \<Rightarrow>
               if dp_LastGoodImage dep = [] then
                 (server_note env ''warn'' ''agent'' siteID [] siteID (dp_Name dep) ''deployment.rollback''
                    ''no known-good version to roll back to'' [(''deployment_id'', JStr idv), (''reason'', JStr reason)]
                    (sv\<lparr>sv_store := fst (AddAlert (rollback_alert env siteID
                        (''deployment '' @ dp_Name dep @ '' is unhealthy but has no known-good version to roll back to: '' @ reason))
                        (sv_store sv))\<rparr>),
                  Done 200 [(''rolled_back'', JBool False)])
               else
                 (case UpdateDeployment idv (rolled_back (en_now env)) (sv_store sv) of
                    (st, Some _) \<Rightarrow> (sv\<lparr>sv_store := st\<rparr>, Fail 404 ''deployment not found'')
                  | (st, None) \<Rightarrow>
                      (server_note env ''warn'' ''agent'' siteID [] siteID (dp_Name dep) ''deployment.rollback'' ''deployment rolled back''
                         [(''deployment_id'', JStr idv), (''from_image'', JStr (dp_Image dep)),
                          (''to_image'', JStr (dp_LastGoodImage dep)), (''reason'', JStr reason)]
                         (sv\<lparr>sv_store := fst (AddAlert (rollback_alert env siteID
                             (''deployment '' @ dp_Name dep @ '' rolled back from '' @ dp_Image dep @ '' to '' @ dp_LastGoodImage dep @ '': '' @ reason))
                             st)\<rparr>),
                       Done 200 [(''rolled_back'', JBool True)]))))"

end
