(* ===== verification/Ota_Server.thy ===== *)
theory Ota_Server
  imports Deployments "HOL-Library.Char_ord" "HOL-Library.List_Lexorder"
begin

text \<open>
  Over-the-air updates in the control plane: \<^verbatim>\<open>internal/server/ota.go\<close> (a device's request in
  its twin's desired state, the agent's status reports) and
  \<^verbatim>\<open>internal/server/ota_campaign.go\<close> (staged campaigns over many devices).

  A request or a status in a twin's map is its JSON form.  The closures handed to
  \<^verbatim>\<open>UpdateTwin\<close> write into the twin's map; the second function passed to \<^verbatim>\<open>UpdateTwin\<close> is
  that write, which stays in the store when the append fails (a missing map is created
  afresh and not shared; an empty one counts as missing).  Where several alerts are raised
  in one request, \<^verbatim>\<open>k\<close> is the index of the next random bytes.
\<close>

subsection \<open>A device's update\<close>

definition ota_error_text :: "fleet_cfg \<Rightarrow> ota_error \<Rightarrow> string" where
  "ota_error_text fc e = ''ota: '' @
     (case e of
        UpdateIDRequired \<Rightarrow> ''update_id is required''
      | DeviceIDRequired \<Rightarrow> ''device_id is required''
      | ArtifactIDRequired \<Rightarrow> ''artifact_id is required''
      | VersionRequired \<Rightarrow> ''version is required''
      | UnsupportedArtifactType t \<Rightarrow> ''unsupported artifact type '' @ fc_Quote fc t
      | ArchitectureRequired \<Rightarrow> ''architecture is required''
      | SizeBytesNotPositive \<Rightarrow> ''size_bytes must be positive''
      | BadSHA256 \<Rightarrow> ''sha256 must be 64 hexadecimal characters''
      | SignatureRequired \<Rightarrow> ''signature is required''
      | InvalidHealthTimeout v \<Rightarrow> ''invalid health_timeout '' @ fc_Quote fc v @ '': '' @ fc_DurationError fc (trim_space v)
      | NegativeHealthTimeout \<Rightarrow> ''health_timeout cannot be negative''
      | UnsupportedState s \<Rightarrow> ''unsupported state '' @ fc_Quote fc s
      | BadProgress \<Rightarrow> ''progress_percent must be between 0 and 100''
      | BadActiveSlot s \<Rightarrow> ''active_slot: unsupported slot '' @ fc_Quote fc s
      | BadTargetSlot s \<Rightarrow> ''target_slot: unsupported slot '' @ fc_Quote fc s
      | InvalidTransition a b \<Rightarrow> ''invalid state transition '' @ fc_Quote fc a @ '' -> '' @ fc_Quote fc b)"

text \<open>What a twin's map holds under the key \<^verbatim>\<open>ota\<close>: nothing, something that does not decode, or
  a value.\<close>

datatype 'a held = Absent | Corrupt | Held 'a

definition otaRequestFromDesired :: "json_map \<Rightarrow> request held" where
  "otaRequestFromDesired desired =
     (case map_of desired ''ota'' of
        None \<Rightarrow> Absent
      | Some raw \<Rightarrow> (case json_to_request raw of None \<Rightarrow> Corrupt | Some req \<Rightarrow> Held req))"

definition otaStatusFromReported :: "json_map \<Rightarrow> status held" where
  "otaStatusFromReported reported =
     (case map_of reported ''ota'' of
        None \<Rightarrow> Absent
      | Some raw \<Rightarrow> (case json_to_status raw of None \<Rightarrow> Corrupt | Some st \<Rightarrow> Held st))"

datatype ota_fault = Invalid ota_error | StoreFault store_error

definition current_twin :: "string \<Rightarrow> store \<Rightarrow> twin" where
  "current_twin i s = (case Twin i s of Some cur \<Rightarrow> cur | None \<Rightarrow> zero_twin\<lparr>tw_DeviceID := i\<rparr>)"

definition setDeviceOTADesired :: "time \<Rightarrow> device \<Rightarrow> request \<Rightarrow> store \<Rightarrow> store \<times> (ota_fault + twin)" where
  "setDeviceOTADesired now dev req0 s =
     (let req = req0\<lparr>rq_DeviceID := dev_ID dev, rq_SiteID := (if rq_SiteID req0 = [] then dev_SiteID dev else rq_SiteID req0)\<rparr>
      in case Request_Validate req of
           Inl e \<Rightarrow> (s, Inl (Invalid e))
         | Inr _ \<Rightarrow>
             (let put = (\<lambda>m. AList.update ''ota'' (request_to_json req) m);
                  f = (\<lambda>tw. tw\<lparr>tw_DeviceID := dev_ID dev, tw_SiteID := dev_SiteID dev, tw_Desired := put (tw_Desired tw),
                               tw_DesiredVersion := tw_DesiredVersion tw + 1, tw_UpdatedAt := now\<rparr>);
                  shared = (\<lambda>tw. if tw_Desired tw = [] then tw else tw\<lparr>tw_Desired := put (tw_Desired tw)\<rparr>)
              in case UpdateTwin (dev_ID dev) f shared s of
                   (s', Some e) \<Rightarrow> (s', Inl (StoreFault e))
                 | (s', None) \<Rightarrow> (s', Inr (f (current_twin (dev_ID dev) s)))))"

definition otaDeviceRequest ::
  "fleet_cfg \<Rightarrow> config \<Rightarrow> env \<Rightarrow> http_request \<Rightarrow> string \<Rightarrow> string + request \<Rightarrow> server \<Rightarrow> server \<times> twin reply" where
  "otaDeviceRequest fc cfg env r idv input sv0 =
     (case Device idv (sv_store sv0) of
        None \<Rightarrow> (sv0, Fail 404 ''device not found'')
      | Some dev \<Rightarrow>
          (case callerCanMutateSite cfg (en_now env) r (dev_SiteID dev) sv0 of
             (sv, False) \<Rightarrow> (sv, Fail 404 ''device not found'')
           | (sv, True) \<Rightarrow>
               (case input of
                  Inl e \<Rightarrow> (sv, Fail 400 (''invalid JSON: '' @ e))
                | Inr req \<Rightarrow>
                    (case setDeviceOTADesired (en_now env) dev req (sv_store sv) of
                       (st, Inl (Invalid e)) \<Rightarrow> (sv\<lparr>sv_store := st\<rparr>, Fail 400 (ota_error_text fc e))
                     | (st, Inl (StoreFault e)) \<Rightarrow> (sv\<lparr>sv_store := st\<rparr>, Fail 507 (store_error_text e))
                     | (st, Inr tw) \<Rightarrow>
                         (bearer_note cfg env r ''ok'' (dev_SiteID dev) (dev_ID dev) ''ota.request''
                            (''OTA update requested: '' @ mf_ArtifactID (rq_Manifest req) @ '' '' @ mf_Version (rq_Manifest req))
                            [(''device_id'', JStr (dev_ID dev)), (''update_id'', JStr (rq_UpdateID req)),
                             (''artifact_id'', JStr (mf_ArtifactID (rq_Manifest req))), (''version'', JStr (mf_Version (rq_Manifest req)))]
                            (sv\<lparr>sv_store := st\<rparr>),
                          Done 200 tw)))))"

text \<open>\<^verbatim>\<open>otaDeviceGet\<close>; \<^verbatim>\<open>jerr\<close> is the text of the decoder's error.\<close>

definition otaDeviceGet ::
  "config \<Rightarrow> env \<Rightarrow> string \<Rightarrow> http_request \<Rightarrow> string \<Rightarrow> server \<Rightarrow> server \<times> (string \<times> request option \<times> status option) reply" where
  "otaDeviceGet cfg env jerr r idv sv0 =
     (case Device idv (sv_store sv0) of
        None \<Rightarrow> (sv0, Fail 404 ''device not found'')
      | Some dev \<Rightarrow>
          (case callerCanSeeSite cfg (en_now env) r (dev_SiteID dev) sv0 of
             (sv, False) \<Rightarrow> (sv, Fail 404 ''device not found'')
           | (sv, True) \<Rightarrow>
               (let tw = (case Twin (dev_ID dev) (sv_store sv) of None \<Rightarrow> zero_twin | Some tw \<Rightarrow> tw);
                    opt = (\<lambda>h. case h of Held x \<Rightarrow> Some x | _ \<Rightarrow> None)
                in if otaRequestFromDesired (tw_Desired tw) = Corrupt then (sv, Fail 500 (''corrupt desired ota state: '' @ jerr))
                   else if otaStatusFromReported (tw_Reported tw) = Corrupt then (sv, Fail 500 (''corrupt reported ota state: '' @ jerr))
                   else (sv, Done 200 (dev_ID dev,
                           (case otaRequestFromDesired (tw_Desired tw) of Held x \<Rightarrow> Some x | _ \<Rightarrow> None),
                           (case otaStatusFromReported (tw_Reported tw) of Held x \<Rightarrow> Some x | _ \<Rightarrow> None))))))"

subsection \<open>Campaigns\<close>

definition campaignSiteIDs :: "campaign \<Rightarrow> string list" where
  "campaignSiteIDs c =
     rev (foldl (\<lambda>out i. if i = [] \<or> i \<in> set out then out else i # out) [] (ca_SiteIDs c @ map cd_SiteID (ca_Devices c)))"

definition firstSite :: "campaign \<Rightarrow> string" where
  "firstSite c =
     (case campaignSiteIDs c of s # _ \<Rightarrow> s | [] \<Rightarrow> (case ca_SiteIDs c of s # _ \<Rightarrow> s | [] \<Rightarrow> []))"

fun all_sites ::
  "(string \<Rightarrow> server \<Rightarrow> server \<times> bool) \<Rightarrow> string list \<Rightarrow> server \<Rightarrow> server \<times> bool" where
  "all_sites ok [] sv = (sv, True)"
| "all_sites ok (i # is) sv = (case ok i sv of (sv', True) \<Rightarrow> all_sites ok is sv' | (sv', False) \<Rightarrow> (sv', False))"

definition callerCanSeeCampaign :: "config \<Rightarrow> time \<Rightarrow> http_request \<Rightarrow> campaign \<Rightarrow> server \<Rightarrow> server \<times> bool" where
  "callerCanSeeCampaign cfg now r c = all_sites (callerCanSeeSite cfg now r) (campaignSiteIDs c)"

definition callerCanMutateCampaign :: "config \<Rightarrow> time \<Rightarrow> http_request \<Rightarrow> campaign \<Rightarrow> server \<Rightarrow> server \<times> bool" where
  "callerCanMutateCampaign cfg now r c sv =
     (if campaignSiteIDs c = [] then
        (if ca_SiteIDs c = [] then callerCanMutateSite cfg now r [] sv
         else all_sites (callerCanMutateSite cfg now r) (ca_SiteIDs c) sv)
      else all_sites (callerCanMutateSite cfg now r) (campaignSiteIDs c) sv)"

fun visible_campaigns :: "config \<Rightarrow> time \<Rightarrow> http_request \<Rightarrow> campaign list \<Rightarrow> server \<Rightarrow> server \<times> campaign list" where
  "visible_campaigns cfg now r [] sv = (sv, [])"
| "visible_campaigns cfg now r (c # cs) sv =
     (case callerCanSeeCampaign cfg now r c sv of (sv1, ok) \<Rightarrow>
        (case visible_campaigns cfg now r cs sv1 of (sv2, out) \<Rightarrow> (sv2, if ok then c # out else out)))"

definition otaCampaigns :: "config \<Rightarrow> env \<Rightarrow> http_request \<Rightarrow> server \<Rightarrow> server \<times> campaign list" where
  "otaCampaigns cfg env r sv = visible_campaigns cfg (en_now env) r (OTACampaigns (st_state (sv_store sv))) sv"

fun stage_error :: "nat \<Rightarrow> int \<Rightarrow> int list \<Rightarrow> string option" where
  "stage_error i prev [] = None"
| "stage_error i prev (p # ps) =
     (if p < 1 \<or> 100 < p then Some (''stages['' @ format_nat i @ ''].canary_percent must be between 1 and 100'')
      else if p \<le> prev then Some (''stages['' @ format_nat i @ ''].canary_percent must be strictly increasing'')
      else stage_error (i + 1) p ps)"

definition validateOTACampaignInput :: "fleet_cfg \<Rightarrow> campaign \<Rightarrow> string option" where
  "validateOTACampaignInput fc c =
     (if trim_space (ca_Name c) = [] then Some ''name is required''
      else if ca_SiteIDs c = [] \<and> ca_DeviceIDs c = [] then Some ''site_ids or device_ids is required''
      else if ca_Stages c = [] then Some ''stages is required''
      else case stage_error 0 0 (ca_Stages c) of
        Some e \<Rightarrow> Some e
      | None \<Rightarrow>
          if last (ca_Stages c) \<noteq> 100 then Some ''final stage canary_percent must be 100''
          else case Manifest_Validate (ca_Manifest c) of
            Inl e \<Rightarrow> Some (ota_error_text fc e)
          | Inr _ \<Rightarrow>
              (case HealthTimeoutDuration (ca_Policy c) of
                 Inl e \<Rightarrow> Some (ota_error_text fc e)
               | Inr _ \<Rightarrow>
                   if ca_FailureThresholdPercent c < 0 \<or> 100 < ca_FailureThresholdPercent c
                   then Some ''failure_threshold_percent must be between 0 and 100'' else None))"

text \<open>\<^verbatim>\<open>resolveCampaignSiteIDs\<close>: the sites of the campaign, those named first.\<close>

definition add_site_id :: "fleet_cfg \<Rightarrow> store \<Rightarrow> string \<Rightarrow> string list \<Rightarrow> string + string list" where
  "add_site_id fc s siteID out =
     (if siteID = [] then Inl ''empty site_id''
      else if Site siteID s = None then Inl (''site '' @ fc_Quote fc siteID @ '' not found'')
      else if siteID \<in> set out then Inr out else Inr (out @ [siteID]))"

fun add_site_ids :: "fleet_cfg \<Rightarrow> store \<Rightarrow> string list \<Rightarrow> string list \<Rightarrow> string + string list" where
  "add_site_ids fc s [] out = Inr out"
| "add_site_ids fc s (i # is) out =
     (case add_site_id fc s i out of Inl e \<Rightarrow> Inl e | Inr out' \<Rightarrow> add_site_ids fc s is out')"

definition campaign_device_ok :: "fleet_cfg \<Rightarrow> store \<Rightarrow> string list \<Rightarrow> string \<Rightarrow> string + device" where
  "campaign_device_ok fc s siteIDs i =
     (case Device i s of
        None \<Rightarrow> Inl (''device '' @ fc_Quote fc i @ '' not found'')
      | Some dev \<Rightarrow>
          if siteIDs \<noteq> [] \<and> dev_SiteID dev \<notin> set siteIDs
          then Inl (''device '' @ fc_Quote fc i @ '' is not in the campaign site_ids'') else Inr dev)"

fun add_device_sites :: "fleet_cfg \<Rightarrow> store \<Rightarrow> string list \<Rightarrow> string list \<Rightarrow> string list \<Rightarrow> string + string list" where
  "add_device_sites fc s siteIDs [] out = Inr out"
| "add_device_sites fc s siteIDs (i # is) out =
     (case campaign_device_ok fc s siteIDs i of
        Inl e \<Rightarrow> Inl e
      | Inr dev \<Rightarrow>
          (case add_site_id fc s (dev_SiteID dev) out of
             Inl e \<Rightarrow> Inl e
           | Inr out' \<Rightarrow> add_device_sites fc s siteIDs is out'))"

definition resolveCampaignSiteIDs :: "fleet_cfg \<Rightarrow> store \<Rightarrow> campaign \<Rightarrow> string + string list" where
  "resolveCampaignSiteIDs fc s c =
     (case add_site_ids fc s (ca_SiteIDs c) [] of
        Inl e \<Rightarrow> Inl e
      | Inr out \<Rightarrow> add_device_sites fc s (ca_SiteIDs c) (ca_DeviceIDs c) out)"

fun add_targets :: "fleet_cfg \<Rightarrow> store \<Rightarrow> string list \<Rightarrow> string list \<Rightarrow> string list \<Rightarrow> string + string list" where
  "add_targets fc s siteIDs [] out = Inr out"
| "add_targets fc s siteIDs (i # is) out =
     (case campaign_device_ok fc s siteIDs i of
        Inl e \<Rightarrow> Inl e
      | Inr dev \<Rightarrow> add_targets fc s siteIDs is (if dev_ID dev \<in> set out then out else out @ [dev_ID dev]))"

definition resolveCampaignTargets :: "fleet_cfg \<Rightarrow> store \<Rightarrow> campaign \<Rightarrow> string + string list" where
  "resolveCampaignTargets fc s c =
     (case (if ca_DeviceIDs c \<noteq> [] then add_targets fc s (ca_SiteIDs c) (ca_DeviceIDs c) []
            else Inr (foldl (\<lambda>out dev. if dev_SiteID dev \<in> set (ca_SiteIDs c) \<and> dev_ID dev \<notin> set out then out @ [dev_ID dev] else out)
                        [] (Devices (st_state s)))) of
        Inl e \<Rightarrow> Inl e
      | Inr out \<Rightarrow> Inr (sort out))"

text \<open>\<^verbatim>\<open>applyCampaignWave\<close>: how many devices the stage wants, and the loop over the targets.\<close>

definition wave_want :: "nat \<Rightarrow> int \<Rightarrow> int" where
  "wave_want n percent =
     (let want = (int n * percent + 99) div 100;
          want1 = (if want < 1 \<and> 0 < n then 1 else want)
      in if int n < want1 then int n else want1)"

datatype wave_fault = NoStage | NoDevice string | Refused ota_fault

fun wave_loop ::
  "time \<Rightarrow> int \<Rightarrow> string list \<Rightarrow> campaign \<Rightarrow> store \<Rightarrow> store \<times> (wave_fault + campaign)" where
  "wave_loop now need [] c s = (s, Inr c)"
| "wave_loop now need (i # is) c s =
     (if need \<le> 0 then (s, Inr c)
      else if i \<in> cd_DeviceID ` set (ca_Devices c) then wave_loop now need is c s
      else case Device i s of
        None \<Rightarrow> (s, Inl (NoDevice i))
      | Some dev \<Rightarrow>
          (let updateID = ca_ID c @ ''-'' @ i
           in case setDeviceOTADesired now dev
                  \<lparr>rq_UpdateID = updateID, rq_DeviceID = i, rq_SiteID = dev_SiteID dev, rq_Manifest = ca_Manifest c, rq_Policy = ca_Policy c\<rparr> s of
                (s', Inl e) \<Rightarrow> (s', Inl (Refused e))
              | (s', Inr _) \<Rightarrow>
                  wave_loop now (need - 1) is
                    (c\<lparr>ca_Devices := ca_Devices c @
                        [\<lparr>cd_DeviceID = i, cd_SiteID = dev_SiteID dev, cd_UpdateID = updateID, cd_Stage = ca_CurrentStage c, cd_State = []\<rparr>]\<rparr>) s'))"

definition applyCampaignWave :: "time \<Rightarrow> campaign \<Rightarrow> store \<Rightarrow> store \<times> (wave_fault + campaign)" where
  "applyCampaignWave now c s =
     (if ca_CurrentStage c < 0 \<or> int (length (ca_Stages c)) \<le> ca_CurrentStage c then (s, Inl NoStage)
      else
        (let want = wave_want (length (ca_TargetDeviceIDs c)) (ca_Stages c ! nat (ca_CurrentStage c));
             need = want - int (card (cd_DeviceID ` set (ca_Devices c)))
         in if need \<le> 0 then (s, Inr c) else wave_loop now need (ca_TargetDeviceIDs c) c s))"

definition wave_fault_text :: "fleet_cfg \<Rightarrow> wave_fault \<Rightarrow> string" where
  "wave_fault_text fc e =
     (case e of
        NoStage \<Rightarrow> ''invalid current stage''
      | NoDevice i \<Rightarrow> ''device '' @ fc_Quote fc i @ '' not found''
      | Refused (Invalid x) \<Rightarrow> ota_error_text fc x
      | Refused (StoreFault x) \<Rightarrow> store_error_text x)"

text \<open>\<^verbatim>\<open>clearInFlightCampaignOTA\<close>: the devices that have not finished lose the campaign's request.\<close>

definition withdraw :: "time \<Rightarrow> campaign_device \<Rightarrow> twin \<Rightarrow> twin option" where
  "withdraw now d tw =
     (case otaRequestFromDesired (tw_Desired tw) of
        Held req \<Rightarrow>
          if rq_UpdateID req \<noteq> [] \<and> rq_UpdateID req \<noteq> cd_UpdateID d then None
          else Some (tw\<lparr>tw_Desired := AList.delete ''ota'' (tw_Desired tw), tw_DesiredVersion := tw_DesiredVersion tw + 1,
                       tw_UpdatedAt := now\<rparr>)
      | _ \<Rightarrow> None)"

definition clear_device :: "time \<Rightarrow> campaign_device \<Rightarrow> store \<Rightarrow> store \<times> nat" where
  "clear_device now d s =
     (if cd_State d \<in> {''committed'', ''failed'', ''rolled-back''} then (s, 0)
      else case Device (cd_DeviceID d) s of
        None \<Rightarrow> (s, 0)
      | Some dev \<Rightarrow>
          (fst (UpdateTwin (dev_ID dev)
                 (\<lambda>tw. case withdraw now d tw of None \<Rightarrow> tw | Some tw' \<Rightarrow> tw')
                 (\<lambda>tw. case withdraw now d tw of None \<Rightarrow> tw | Some tw' \<Rightarrow> tw\<lparr>tw_Desired := tw_Desired tw'\<rparr>) s),
           if withdraw now d (current_twin (dev_ID dev) s) = None then 0 else 1))"

fun clear_devices :: "time \<Rightarrow> campaign_device list \<Rightarrow> store \<Rightarrow> store \<times> nat" where
  "clear_devices now [] s = (s, 0)"
| "clear_devices now (d # ds) s =
     (case clear_device now d s of (s1, n) \<Rightarrow> (case clear_devices now ds s1 of (s2, m) \<Rightarrow> (s2, n + m)))"

definition clearInFlightCampaignOTA :: "time \<Rightarrow> campaign \<Rightarrow> store \<Rightarrow> store \<times> nat" where
  "clearInFlightCampaignOTA now c s = clear_devices now (ca_Devices c) s"

text \<open>\<^verbatim>\<open>refreshOTACampaign\<close>: the state a device reports for this campaign's update, the counts, the
  decision.\<close>

definition device_report :: "store \<Rightarrow> campaign_device \<Rightarrow> ota_state option" where
  "device_report s d =
     (case Twin (cd_DeviceID d) s of
        None \<Rightarrow> None
      | Some tw \<Rightarrow>
          (case otaStatusFromReported (tw_Reported tw) of
             Held st \<Rightarrow> if su_UpdateID st \<noteq> [] \<and> su_UpdateID st \<noteq> cd_UpdateID d then None else Some (su_State st)
           | _ \<Rightarrow> None))"

definition refreshed_device :: "store \<Rightarrow> campaign_device \<Rightarrow> campaign_device" where
  "refreshed_device s d = (case device_report s d of None \<Rightarrow> d | Some x \<Rightarrow> d\<lparr>cd_State := x\<rparr>)"

definition report_count :: "store \<Rightarrow> ota_state set \<Rightarrow> campaign_device list \<Rightarrow> nat" where
  "report_count s xs ds = length (filter (\<lambda>d. case device_report s d of None \<Rightarrow> False | Some x \<Rightarrow> x \<in> xs) ds)"

text \<open>A campaign read with \<^verbatim>\<open>OTACampaign\<close> shares its list of devices with the store, one from
  \<^verbatim>\<open>OTACampaigns\<close> does not: with \<^verbatim>\<open>shared\<close>, the states written into the list are in the store
  whether or not the append succeeds.\<close>

definition share_devices :: "campaign \<Rightarrow> store \<Rightarrow> store" where
  "share_devices c s =
     (case OTACampaign (ca_ID c) s of
        None \<Rightarrow> s
      | Some v \<Rightarrow> s\<lparr>st_state := (st_state s)\<lparr>OTACampaigns :=
          replace_first (\<lambda>x. ca_ID x = ca_ID c) (v\<lparr>ca_Devices := ca_Devices c\<rparr>) (OTACampaigns (st_state s))\<rparr>\<rparr>)"

text \<open>The loop over the devices and the two decisions: the store with the consequences of an abort,
  the campaign, and whether it has to be written.\<close>

definition refresh_verdict :: "bool \<Rightarrow> env \<Rightarrow> nat \<Rightarrow> campaign \<Rightarrow> store \<Rightarrow> store \<times> campaign \<times> bool" where
  "refresh_verdict shared env k c0 s0 =
     (let c1 = c0\<lparr>ca_Devices := map (refreshed_device s0) (ca_Devices c0)\<rparr>;
          s = (if shared then share_devices c1 s0 else s0);
          failed = report_count s0 {''failed'', ''rolled-back''} (ca_Devices c0);
          committed = report_count s0 {''committed''} (ca_Devices c0);
          n = length (ca_Devices c0)
      in if 0 < n \<and> 0 < failed \<and> ca_FailureThresholdPercent c1 \<le> int (failed * 100 div n) then
           (let c' = c1\<lparr>ca_Status := ''aborted'', ca_UpdatedAt := en_now env\<rparr>;
                s' = fst (clearInFlightCampaignOTA (en_now env) c' s)
            in (fst (AddAlert \<lparr>al_ID = gen_id ''alert'' (en_rand env k), al_SiteID = firstSite c', al_Severity = ''high'',
                       al_Type = ''ota_campaign_aborted'',
                       al_Message = ''OTA campaign '' @ ca_Name c' @ '' aborted: failure threshold '' @
                         format_int (ca_FailureThresholdPercent c') @ ''% exceeded ('' @ format_nat failed @ ''/'' @ format_nat n @ '')'',
                       al_Resolved = False, al_CreatedAt = en_now env\<rparr> s'), c', True))
         else if ca_Status c1 = ''running'' \<and> ca_CurrentStage c1 = int (length (ca_Stages c1)) - 1 \<and>
                 0 < n \<and> committed = n \<and> n = length (ca_TargetDeviceIDs c1)
         then (s, c1\<lparr>ca_Status := ''completed'', ca_UpdatedAt := en_now env\<rparr>, True)
         else (s, c1, ca_Devices c1 \<noteq> ca_Devices c0))"

definition refreshOTACampaign :: "bool \<Rightarrow> env \<Rightarrow> nat \<Rightarrow> campaign \<Rightarrow> store \<Rightarrow> store \<times> campaign" where
  "refreshOTACampaign shared env k c0 s0 =
     (if ca_Status c0 \<noteq> ''running'' \<and> ca_Status c0 \<noteq> ''paused'' then (s0, c0)
      else case refresh_verdict shared env k c0 s0 of (s, c, changed) \<Rightarrow>
        if changed then
          (let s' = fst (UpdateOTACampaign (ca_ID c) (\<lambda>_. c) s)
           in (s', case OTACampaign (ca_ID c) s' of None \<Rightarrow> c | Some latest \<Rightarrow> latest))
        else (s, c))"

fun sync_campaigns :: "env \<Rightarrow> nat \<Rightarrow> string \<Rightarrow> string \<Rightarrow> campaign list \<Rightarrow> store \<Rightarrow> store" where
  "sync_campaigns env k deviceID updateID [] s = s"
| "sync_campaigns env k deviceID updateID (c # cs) s =
     (if ca_Status c \<noteq> ''running'' \<and> ca_Status c \<noteq> ''paused'' then sync_campaigns env k deviceID updateID cs s
      else if \<exists>d \<in> set (ca_Devices c). cd_DeviceID d = deviceID \<and> (updateID = [] \<or> updateID = cd_UpdateID d)
      then sync_campaigns env (k + 1) deviceID updateID cs (fst (refreshOTACampaign False env k c s))
      else sync_campaigns env k deviceID updateID cs s)"

definition syncOTACampaignsForDevice :: "env \<Rightarrow> nat \<Rightarrow> string \<Rightarrow> status \<Rightarrow> store \<Rightarrow> store" where
  "syncOTACampaignsForDevice env k deviceID st s =
     sync_campaigns env k deviceID (su_UpdateID st) (OTACampaigns (st_state s)) s"

subsection \<open>Status reports\<close>

text \<open>The closure of \<^verbatim>\<open>agentOTAStatus\<close>: the transition error it leaves behind, and the write.\<close>

definition status_fault :: "status \<Rightarrow> twin \<Rightarrow> ota_error option" where
  "status_fault st cur =
     (case otaStatusFromReported (tw_Reported cur) of
        Held prev \<Rightarrow> (case ValidateTransition (su_State prev) (su_State st) of Inl e \<Rightarrow> Some e | Inr _ \<Rightarrow> None)
      | _ \<Rightarrow> None)"

definition report_status :: "time \<Rightarrow> device \<Rightarrow> string \<Rightarrow> status \<Rightarrow> twin \<Rightarrow> twin" where
  "report_status now dev siteID st cur =
     (if status_fault st cur \<noteq> None then cur
      else cur\<lparr>tw_DeviceID := dev_ID dev, tw_SiteID := siteID, tw_Reported := AList.update ''ota'' (status_to_json st) (tw_Reported cur),
               tw_ReportedVersion := tw_ReportedVersion cur + 1, tw_UpdatedAt := now\<rparr>)"

definition report_shared :: "status \<Rightarrow> twin \<Rightarrow> twin" where
  "report_shared st cur =
     (if status_fault st cur \<noteq> None \<or> tw_Reported cur = [] then cur
      else cur\<lparr>tw_Reported := AList.update ''ota'' (status_to_json st) (tw_Reported cur)\<rparr>)"

definition agentOTAStatus ::
  "fleet_cfg \<Rightarrow> config \<Rightarrow> env \<Rightarrow> http_request \<Rightarrow> string \<Rightarrow> string + (string \<times> status) \<Rightarrow> server \<Rightarrow> server \<times> twin reply" where
  "agentOTAStatus fc cfg env r idv input sv =
     (case input of
        Inl e \<Rightarrow> (sv, Fail 400 (''invalid JSON: '' @ e))
      | Inr (siteID, st0) \<Rightarrow>
          (case agentSite cfg r siteID sv of
             None \<Rightarrow> (sv, Fail 401 ''unauthorized agent'')
           | Some _ \<Rightarrow>
               (case Device idv (sv_store sv) of
                  None \<Rightarrow> (sv, Fail 404 ''device not found'')
                | Some dev \<Rightarrow>
                    if dev_SiteID dev \<noteq> siteID then (sv, Fail 404 ''device not found'')
                    else
                      (let st = st0\<lparr>su_DeviceID := dev_ID dev\<rparr>; cur = current_twin (dev_ID dev) (sv_store sv)
                       in case Status_Validate st of
                            Inl e \<Rightarrow> (sv, Fail 400 (ota_error_text fc e))
                          | Inr _ \<Rightarrow>
                              (case UpdateTwin (dev_ID dev) (report_status (en_now env) dev siteID st) (report_shared st) (sv_store sv) of
                                 (s1, err) \<Rightarrow>
                                   (case status_fault st cur of
                                      Some e \<Rightarrow> (sv\<lparr>sv_store := s1\<rparr>, Fail 409 (ota_error_text fc e))
                                    | None \<Rightarrow>
                                        (case err of
                                           Some e \<Rightarrow> (sv\<lparr>sv_store := s1\<rparr>, Fail 507 (store_error_text e))
                                         | None \<Rightarrow>
                                             (let bad = (su_State st = ''failed'' \<or> su_State st = ''rolled-back'');
                                                  s2 = (if bad
                                                        then fst (AddAlert \<lparr>al_ID = gen_id ''alert'' (en_rand env 0), al_SiteID = siteID,
                                                               al_Severity = ''high'', al_Type = ''ota_'' @ su_State st,
                                                               al_Message = ''OTA update '' @ su_UpdateID st @ '' for device '' @ dev_ID dev @ '': '' @
                                                                 su_State st @ '' ('' @ su_LastError st @ '')'',
                                                               al_Resolved = False, al_CreatedAt = en_now env\<rparr> s1)
                                                        else s1);
                                                  sv2 = server_note env ''ok'' ''agent'' siteID [] siteID (dev_ID dev) ''ota.status''
                                                    (''OTA status: '' @ su_State st)
                                                    [(''device_id'', JStr (dev_ID dev)), (''update_id'', JStr (su_UpdateID st)),
                                                     (''state'', JStr (su_State st))] (sv\<lparr>sv_store := s2\<rparr>)
                                              in (sv2\<lparr>sv_store := syncOTACampaignsForDevice env 1 (dev_ID dev) st (sv_store sv2)\<rparr>,
                                                  Done 200 (report_status (en_now env) dev siteID st cur))))))))))"

subsection \<open>Campaign handlers\<close>

definition otaCampaignGet :: "config \<Rightarrow> env \<Rightarrow> http_request \<Rightarrow> string \<Rightarrow> server \<Rightarrow> server \<times> campaign reply" where
  "otaCampaignGet cfg env r idv sv0 =
     (case OTACampaign idv (sv_store sv0) of
        None \<Rightarrow> (sv0, Fail 404 ''campaign not found'')
      | Some c \<Rightarrow>
          (case callerCanSeeCampaign cfg (en_now env) r c sv0 of
             (sv, False) \<Rightarrow> (sv, Fail 404 ''campaign not found'')
           | (sv, True) \<Rightarrow>
               (case refreshOTACampaign True env 0 c (sv_store sv) of (st, c') \<Rightarrow> (sv\<lparr>sv_store := st\<rparr>, Done 200 c'))))"

record campaign_input =
  ci_Name :: string
  ci_SiteIDs :: "string list"
  ci_DeviceIDs :: "string list"
  ci_Stages :: "int list"
  ci_Manifest :: manifest
  ci_Policy :: policy
  ci_FailureThresholdPercent :: "int option"

definition campaign_of :: "campaign_input \<Rightarrow> campaign" where
  "campaign_of i =
     \<lparr>ca_ID = [], ca_Name = ci_Name i, ca_SiteIDs = ci_SiteIDs i, ca_DeviceIDs = ci_DeviceIDs i, ca_Stages = ci_Stages i,
      ca_Manifest = ci_Manifest i, ca_Policy = ci_Policy i,
      ca_FailureThresholdPercent = (case ci_FailureThresholdPercent i of None \<Rightarrow> 10 | Some p \<Rightarrow> p),
      ca_Status = [], ca_CurrentStage = 0, ca_TargetDeviceIDs = [], ca_Devices = [], ca_CreatedAt = 0, ca_UpdatedAt = 0\<rparr>"

definition otaCampaignCreate ::
  "fleet_cfg \<Rightarrow> config \<Rightarrow> env \<Rightarrow> http_request \<Rightarrow> string + campaign_input \<Rightarrow> server \<Rightarrow> server \<times> campaign reply" where
  "otaCampaignCreate fc cfg env r input sv0 =
     (case input of
        Inl e \<Rightarrow> (sv0, Fail 400 (''invalid JSON: '' @ e))
      | Inr i \<Rightarrow>
          (let c0 = campaign_of i
           in case validateOTACampaignInput fc c0 of
                Some e \<Rightarrow> (sv0, Fail 400 e)
              | None \<Rightarrow>
                  (case resolveCampaignSiteIDs fc (sv_store sv0) c0 of
                     Inl e \<Rightarrow> (sv0, Fail 400 e)
                   | Inr ids \<Rightarrow>
                       (case all_sites (callerCanMutateSite cfg (en_now env) r) ids sv0 of
                          (sv, False) \<Rightarrow> (sv, Fail 403 ''an org-scoped token may only create campaigns for its own org's sites'')
                        | (sv, True) \<Rightarrow>
                            (let c = c0\<lparr>ca_ID := gen_id ''otacamp'' (en_rand env 0), ca_Status := ''draft'', ca_CurrentStage := -1,
                                   ca_TargetDeviceIDs := [], ca_Devices := [], ca_CreatedAt := en_now env, ca_UpdatedAt := en_now env\<rparr>
                             in case AddOTACampaign c (sv_store sv) of
                                  (st, Some e) \<Rightarrow> (sv\<lparr>sv_store := st\<rparr>, Fail 507 (store_error_text e))
                                | (st, None) \<Rightarrow>
                                    (bearer_note cfg env r ''ok'' (case ids of s # _ \<Rightarrow> s | [] \<Rightarrow> []) (ca_Name c) ''ota.campaign.create''
                                       (''OTA campaign created: '' @ ca_Name c)
                                       [(''campaign_id'', JStr (ca_ID c)), (''stages'', JInt (int (length (ca_Stages c))))]
                                       (sv\<lparr>sv_store := st\<rparr>),
                                     Done 201 c))))))"

definition loadMutableCampaign :: "config \<Rightarrow> time \<Rightarrow> http_request \<Rightarrow> string \<Rightarrow> server \<Rightarrow> server \<times> campaign option" where
  "loadMutableCampaign cfg now r idv sv0 =
     (case OTACampaign idv (sv_store sv0) of
        None \<Rightarrow> (sv0, None)
      | Some c \<Rightarrow> (case callerCanMutateCampaign cfg now r c sv0 of (sv, ok) \<Rightarrow> (sv, if ok then Some c else None)))"

text \<open>The end of \<^verbatim>\<open>otaCampaignStart\<close> and of \<^verbatim>\<open>otaCampaignPromote\<close>: the wave of the stage is applied, the
  campaign is stored and refreshed.\<close>

definition launch_wave ::
  "fleet_cfg \<Rightarrow> config \<Rightarrow> env \<Rightarrow> http_request \<Rightarrow> string \<Rightarrow> string \<Rightarrow> campaign \<Rightarrow> server \<Rightarrow> server \<times> campaign reply" where
  "launch_wave fc cfg env r action msg c sv =
     (case applyCampaignWave (en_now env) c (sv_store sv) of
        (s1, Inl e) \<Rightarrow> (sv\<lparr>sv_store := s1\<rparr>, Fail 507 (wave_fault_text fc e))
      | (s1, Inr c1) \<Rightarrow>
          (case UpdateOTACampaign (ca_ID c1) (\<lambda>_. c1) s1 of
             (s2, Some e) \<Rightarrow> (sv\<lparr>sv_store := s2\<rparr>, Fail 507 (store_error_text e))
           | (s2, None) \<Rightarrow>
               (case refreshOTACampaign False env 1 c1 s2 of (s3, c2) \<Rightarrow>
                  (bearer_note cfg env r ''ok'' (firstSite c2) (ca_Name c2) action (msg @ ca_Name c2)
                     [(''campaign_id'', JStr (ca_ID c2)), (''stage'', JInt (ca_CurrentStage c2)),
                      (''selected'', JInt (int (length (ca_Devices c2))))] (sv\<lparr>sv_store := s3\<rparr>),
                   Done 200 c2))))"

definition otaCampaignStart ::
  "fleet_cfg \<Rightarrow> config \<Rightarrow> env \<Rightarrow> http_request \<Rightarrow> string \<Rightarrow> server \<Rightarrow> server \<times> campaign reply" where
  "otaCampaignStart fc cfg env r idv sv0 =
     (case loadMutableCampaign cfg (en_now env) r idv sv0 of
        (sv, None) \<Rightarrow> (sv, Fail 404 ''campaign not found'')
      | (sv, Some c) \<Rightarrow>
          if ca_Status c = ''paused'' then (sv, Fail 409 ''campaign is paused; use POST .../resume'')
          else if ca_Status c \<noteq> ''draft'' then (sv, Fail 409 ''campaign must be draft to start'')
          else case resolveCampaignTargets fc (sv_store sv) c of
            Inl e \<Rightarrow> (sv, Fail 400 e)
          | Inr targets \<Rightarrow>
              if targets = [] then (sv, Fail 400 ''campaign has no target devices'')
              else launch_wave fc cfg env r ''ota.campaign.start'' ''OTA campaign started: ''
                     (c\<lparr>ca_TargetDeviceIDs := targets, ca_CurrentStage := 0, ca_Status := ''running'', ca_UpdatedAt := en_now env\<rparr>) sv)"

definition otaCampaignPromote ::
  "fleet_cfg \<Rightarrow> config \<Rightarrow> env \<Rightarrow> http_request \<Rightarrow> string \<Rightarrow> server \<Rightarrow> server \<times> campaign reply" where
  "otaCampaignPromote fc cfg env r idv sv0 =
     (case loadMutableCampaign cfg (en_now env) r idv sv0 of
        (sv1, None) \<Rightarrow> (sv1, Fail 404 ''campaign not found'')
      | (sv1, Some c0) \<Rightarrow>
          (case refreshOTACampaign True env 0 c0 (sv_store sv1) of (st, c) \<Rightarrow>
             let sv = sv1\<lparr>sv_store := st\<rparr>
             in if ca_Status c \<noteq> ''running'' then (sv, Fail 409 ''campaign must be running to promote'')
                else if ca_CurrentStage c < 0 \<or> int (length (ca_Stages c)) - 1 \<le> ca_CurrentStage c
                then (sv, Fail 409 ''campaign is already on the final stage'')
                else launch_wave fc cfg env r ''ota.campaign.promote'' ''OTA campaign promoted: ''
                       (c\<lparr>ca_CurrentStage := ca_CurrentStage c + 1, ca_UpdatedAt := en_now env\<rparr>) sv))"

definition otaCampaignAbort ::
  "config \<Rightarrow> env \<Rightarrow> http_request \<Rightarrow> string \<Rightarrow> server \<Rightarrow> server \<times> campaign reply" where
  "otaCampaignAbort cfg env r idv sv0 =
     (case loadMutableCampaign cfg (en_now env) r idv sv0 of
        (sv, None) \<Rightarrow> (sv, Fail 404 ''campaign not found'')
      | (sv, Some c0) \<Rightarrow>
          if ca_Status c0 = ''completed'' \<or> ca_Status c0 = ''aborted'' then (sv, Fail 409 (''campaign is already '' @ ca_Status c0))
          else
            (let c = c0\<lparr>ca_Status := ''aborted'', ca_UpdatedAt := en_now env\<rparr>
             in case clearInFlightCampaignOTA (en_now env) c (sv_store sv) of (s1, cleared) \<Rightarrow>
                  (case UpdateOTACampaign (ca_ID c) (\<lambda>v. v\<lparr>ca_Status := ''aborted'', ca_UpdatedAt := ca_UpdatedAt c\<rparr>) s1 of
                     (s2, Some e) \<Rightarrow> (sv\<lparr>sv_store := s2\<rparr>, Fail 507 (store_error_text e))
                   | (s2, None) \<Rightarrow>
                       (bearer_note cfg env r ''warn'' (firstSite c) (ca_Name c) ''ota.campaign.abort'' (''OTA campaign aborted: '' @ ca_Name c)
                          [(''campaign_id'', JStr (ca_ID c)), (''cleared_desired'', JInt (int cleared))] (sv\<lparr>sv_store := s2\<rparr>),
                        Done 200 c))))"

definition otaCampaignPause ::
  "config \<Rightarrow> env \<Rightarrow> http_request \<Rightarrow> string \<Rightarrow> server \<Rightarrow> server \<times> campaign reply" where
  "otaCampaignPause cfg env r idv sv0 =
     (case loadMutableCampaign cfg (en_now env) r idv sv0 of
        (sv, None) \<Rightarrow> (sv, Fail 404 ''campaign not found'')
      | (sv, Some c0) \<Rightarrow>
          if ca_Status c0 \<noteq> ''running'' then (sv, Fail 409 ''campaign must be running to pause'')
          else
            (let c = c0\<lparr>ca_Status := ''paused'', ca_UpdatedAt := en_now env\<rparr>
             in case UpdateOTACampaign (ca_ID c) (\<lambda>v. v\<lparr>ca_Status := ''paused'', ca_UpdatedAt := ca_UpdatedAt c\<rparr>) (sv_store sv) of
                  (s1, Some e) \<Rightarrow> (sv\<lparr>sv_store := s1\<rparr>, Fail 507 (store_error_text e))
                | (s1, None) \<Rightarrow>
                    (bearer_note cfg env r ''ok'' (firstSite c) (ca_Name c) ''ota.campaign.pause'' (''OTA campaign paused: '' @ ca_Name c)
                       [(''campaign_id'', JStr (ca_ID c)), (''stage'', JInt (ca_CurrentStage c))] (sv\<lparr>sv_store := s1\<rparr>),
                     Done 200 c)))"

definition otaCampaignResume ::
  "config \<Rightarrow> env \<Rightarrow> http_request \<Rightarrow> string \<Rightarrow> server \<Rightarrow> server \<times> campaign reply" where
  "otaCampaignResume cfg env r idv sv0 =
     (case loadMutableCampaign cfg (en_now env) r idv sv0 of
        (sv, None) \<Rightarrow> (sv, Fail 404 ''campaign not found'')
      | (sv, Some c0) \<Rightarrow>
          if ca_Status c0 \<noteq> ''paused'' then (sv, Fail 409 ''campaign must be paused to resume'')
          else
            (let c = c0\<lparr>ca_Status := ''running'', ca_UpdatedAt := en_now env\<rparr>
             in case UpdateOTACampaign (ca_ID c) (\<lambda>v. v\<lparr>ca_Status := ''running'', ca_UpdatedAt := ca_UpdatedAt c\<rparr>) (sv_store sv) of
                  (s1, Some e) \<Rightarrow> (sv\<lparr>sv_store := s1\<rparr>, Fail 507 (store_error_text e))
                | (s1, None) \<Rightarrow>
                    (case refreshOTACampaign False env 0 c s1 of (s2, c2) \<Rightarrow>
                       (bearer_note cfg env r ''ok'' (firstSite c2) (ca_Name c2) ''ota.campaign.resume'' (''OTA campaign resumed: '' @ ca_Name c2)
                          [(''campaign_id'', JStr (ca_ID c2)), (''stage'', JInt (ca_CurrentStage c2))] (sv\<lparr>sv_store := s2\<rparr>),
                        Done 200 c2))))"

end
