(* ===== verification/Isolation.thy ===== *)
theory Isolation
  imports Ota_Server
begin

text \<open>
  The part of the store that does not belong to an organisation, changes that leave it alone,
  and that the console handlers called with a token of the organisation are such changes.
\<close>

subsection \<open>What belongs to another organisation\<close>

definition org_at :: "string \<Rightarrow> store \<Rightarrow> string" where
  "org_at i s = (if i = [] then [] else case Site i s of None \<Rightarrow> [] | Some v \<Rightarrow> site_OrgID v)"

text \<open>A campaign is foreign when it reaches a site of another organisation.\<close>

definition foreign_campaign :: "string \<Rightarrow> store \<Rightarrow> campaign \<Rightarrow> bool" where
  "foreign_campaign og s c \<longleftrightarrow> (\<exists>i \<in> set (campaignSiteIDs c). org_at i s \<noteq> og)"

text \<open>The state without what belongs to the organisation: sites, devices, twins, routes,
  deployments, packs and campaigns of the others, the fleet-wide ones among them; events and
  organisations in full.  Alerts share one window of 2000 and are compared apart.\<close>

definition foreign :: "string \<Rightarrow> store \<Rightarrow> state" where
  "foreign og s = (st_state s)
     \<lparr>Sites := filter (\<lambda>x. org_at (site_ID x) s \<noteq> og) (Sites (st_state s)),
      Devices := filter (\<lambda>x. org_at (dev_SiteID x) s \<noteq> og) (Devices (st_state s)),
      Twins := filter (\<lambda>x. org_at (tw_SiteID x) s \<noteq> og) (Twins (st_state s)),
      Routes := filter (\<lambda>x. org_at (rt_SiteID x) s \<noteq> og) (Routes (st_state s)),
      Deployments := filter (\<lambda>x. org_at (dp_SiteID x) s \<noteq> og) (Deployments (st_state s)),
      PolicyPacks := filter (\<lambda>x. org_at (pk_SiteID x) s \<noteq> og) (PolicyPacks (st_state s)),
      OTACampaigns := filter (foreign_campaign og s) (OTACampaigns (st_state s)),
      Alerts := []\<rparr>"

definition foreign_alerts :: "string \<Rightarrow> store \<Rightarrow> alert list" where
  "foreign_alerts og s = filter (\<lambda>x. org_at (al_SiteID x) s \<noteq> og) (Alerts (st_state s))"

text \<open>A change that leaves the others alone; the oldest alerts may leave the window.\<close>

definition isolated :: "string \<Rightarrow> store \<Rightarrow> store \<Rightarrow> bool" where
  "isolated og s s' \<longleftrightarrow>
     (\<forall>i. org_at i s' = org_at i s) \<and> foreign og s' = foreign og s \<and> suffix (foreign_alerts og s') (foreign_alerts og s)"

text \<open>Identifiers are unique and sites and devices have one, a twin is at its device's site, and
  the devices of a campaign are at its sites and have twins.\<close>

definition twin_home :: "store \<Rightarrow> twin \<Rightarrow> bool" where
  "twin_home s t \<longleftrightarrow> (\<forall>d. Device (tw_DeviceID t) s = Some d \<longrightarrow> tw_SiteID t = dev_SiteID d)"

definition campaign_home :: "store \<Rightarrow> campaign \<Rightarrow> bool" where
  "campaign_home s c \<longleftrightarrow>
     (\<forall>i d. i \<in> set (ca_TargetDeviceIDs c) \<union> cd_DeviceID ` set (ca_Devices c) \<longrightarrow> Device i s = Some d \<longrightarrow>
        dev_SiteID d \<in> set (campaignSiteIDs c)) \<and>
     (\<forall>i. i \<in> cd_DeviceID ` set (ca_Devices c) \<longrightarrow> Twin i s \<noteq> None) \<and>
     [] \<notin> cd_SiteID ` set (ca_Devices c) \<and> [] \<notin> set (ca_SiteIDs c)"

definition coherent :: "store \<Rightarrow> bool" where
  "coherent s \<longleftrightarrow>
     (\<forall>v \<in> set (Sites (st_state s)). site_ID v \<noteq> []) \<and> (\<forall>d \<in> set (Devices (st_state s)). dev_ID d \<noteq> []) \<and>
     distinct (map rt_ID (Routes (st_state s))) \<and> distinct (map dp_ID (Deployments (st_state s))) \<and>
     distinct (map pk_ID (PolicyPacks (st_state s))) \<and>
     (\<forall>t \<in> set (Twins (st_state s)). twin_home s t) \<and> (\<forall>c \<in> set (OTACampaigns (st_state s)). campaign_home s c)"

subsection \<open>Lemmas: isolated changes\<close>

lemma isolated_refl [simp]: "isolated og s s"
  by (simp add: isolated_def)

lemma isolated_trans: "isolated og a b \<Longrightarrow> isolated og b c \<Longrightarrow> isolated og a c"
  unfolding isolated_def by (metis suffix_order.order_trans)

lemma filter_replace_first:
  "\<not> Q y \<Longrightarrow> (\<And>x. find p xs = Some x \<Longrightarrow> \<not> Q x) \<Longrightarrow> filter Q (replace_first p y xs) = filter Q xs"
  by (induction xs) (auto split: if_splits)

lemma filter_upsert:
  assumes "\<not> Q y" "\<And>x. find p xs = Some x \<Longrightarrow> \<not> Q x"
  shows "filter Q (upsert p y xs) = filter Q xs"
  using assms by (simp add: upsert_def filter_replace_first)

text \<open>The operations on what the organisation owns.\<close>

fun own_op :: "string \<Rightarrow> store \<Rightarrow> op \<Rightarrow> bool" where
  "own_op og s (SiteSet v) = (site_ID v \<noteq> [] \<and> site_OrgID v = og \<and> org_at (site_ID v) s = og \<and> Site (site_ID v) s \<noteq> None)"
| "own_op og s (TwinSet v) = (org_at (tw_SiteID v) s = og \<and> (\<forall>x. Twin (tw_DeviceID v) s = Some x \<longrightarrow> org_at (tw_SiteID x) s = og))"
| "own_op og s (RouteAdd v) = (org_at (rt_SiteID v) s = og)"
| "own_op og s (RouteDel i) = (\<forall>x \<in> set (Routes (st_state s)). rt_ID x = i \<longrightarrow> org_at (rt_SiteID x) s = og)"
| "own_op og s (DeploymentAdd v) = (org_at (dp_SiteID v) s = og)"
| "own_op og s (DeploymentSet v) = (org_at (dp_SiteID v) s = og \<and> (\<forall>x. Deployment (dp_ID v) s = Some x \<longrightarrow> org_at (dp_SiteID x) s = og))"
| "own_op og s (DeploymentDel i) = (\<forall>x \<in> set (Deployments (st_state s)). dp_ID x = i \<longrightarrow> org_at (dp_SiteID x) s = og)"
| "own_op og s (PolicyAdd v) = (org_at (pk_SiteID v) s = og)"
| "own_op og s (PolicySet v) = (org_at (pk_SiteID v) s = og \<and> (\<forall>x. PolicyPack (pk_ID v) s = Some x \<longrightarrow> org_at (pk_SiteID x) s = og))"
| "own_op og s (PolicyDel i) = (\<forall>x \<in> set (PolicyPacks (st_state s)). pk_ID x = i \<longrightarrow> org_at (pk_SiteID x) s = og)"
| "own_op og s (CampaignAdd v) = (\<not> foreign_campaign og s v)"
| "own_op og s (CampaignSet v) = (\<not> foreign_campaign og s v \<and> (\<forall>x. OTACampaign (ca_ID v) s = Some x \<longrightarrow> \<not> foreign_campaign og s x))"
| "own_op og s (AlertAdd v) = (org_at (al_SiteID v) s = og)"
| "own_op og s (AlertSet v) = (org_at (al_SiteID v) s = og \<and>
     (\<forall>x. find (\<lambda>x. al_ID x = al_ID v) (Alerts (st_state s)) = Some x \<longrightarrow> org_at (al_SiteID x) s = og))"
| "own_op og s _ = False"

text \<open>A change of the state that keeps the sites' organisations is isolated when it keeps each
  filtered list.\<close>

lemma isolatedI:
  assumes o: "\<And>i. org_at i s' = org_at i s"
    and "filter (\<lambda>x. org_at (site_ID x) s \<noteq> og) (Sites (st_state s')) = filter (\<lambda>x. org_at (site_ID x) s \<noteq> og) (Sites (st_state s))"
    and "filter (\<lambda>x. org_at (dev_SiteID x) s \<noteq> og) (Devices (st_state s')) = filter (\<lambda>x. org_at (dev_SiteID x) s \<noteq> og) (Devices (st_state s))"
    and "filter (\<lambda>x. org_at (tw_SiteID x) s \<noteq> og) (Twins (st_state s')) = filter (\<lambda>x. org_at (tw_SiteID x) s \<noteq> og) (Twins (st_state s))"
    and "filter (\<lambda>x. org_at (rt_SiteID x) s \<noteq> og) (Routes (st_state s')) = filter (\<lambda>x. org_at (rt_SiteID x) s \<noteq> og) (Routes (st_state s))"
    and "filter (\<lambda>x. org_at (dp_SiteID x) s \<noteq> og) (Deployments (st_state s')) = filter (\<lambda>x. org_at (dp_SiteID x) s \<noteq> og) (Deployments (st_state s))"
    and "filter (\<lambda>x. org_at (pk_SiteID x) s \<noteq> og) (PolicyPacks (st_state s')) = filter (\<lambda>x. org_at (pk_SiteID x) s \<noteq> og) (PolicyPacks (st_state s))"
    and "filter (foreign_campaign og s) (OTACampaigns (st_state s')) = filter (foreign_campaign og s) (OTACampaigns (st_state s))"
    and "Events (st_state s') = Events (st_state s)" "SeenEvents (st_state s') = SeenEvents (st_state s)" "Orgs (st_state s') = Orgs (st_state s)"
    and "suffix (filter (\<lambda>x. org_at (al_SiteID x) s \<noteq> og) (Alerts (st_state s'))) (filter (\<lambda>x. org_at (al_SiteID x) s \<noteq> og) (Alerts (st_state s)))"
  shows "isolated og s s'"
proof -
  have c: "foreign_campaign og s' = foreign_campaign og s" by (rule ext) (simp add: foreign_campaign_def o)
  show ?thesis
    unfolding isolated_def foreign_def foreign_alerts_def o c using assms by simp
qed

lemma org_at_cong: "Sites (st_state s') = Sites (st_state s) \<Longrightarrow> org_at i s' = org_at i s"
  by (simp add: org_at_def Site_def)

lemma filter_alert_window:
  "org_at (al_SiteID v) s = og \<Longrightarrow>
   suffix (filter (\<lambda>x. org_at (al_SiteID x) s \<noteq> og) (keep_last n (xs @ [v]))) (filter (\<lambda>x. org_at (al_SiteID x) s \<noteq> og) xs)"
proof -
  assume "org_at (al_SiteID v) s = og"
  moreover obtain ys where "xs @ [v] = ys @ keep_last n (xs @ [v])"
    using suffix_keep_last[of n "xs @ [v]"] by (auto simp: suffix_def)
  ultimately show ?thesis
    by (metis (mono_tags, lifting) append_self_conv filter.simps(1,2) filter_append suffixI)
qed

lemma own_op_isolated:
  assumes "own_op og s o'" "st_state s' = apply_state o' (st_state s)"
  shows "isolated og s s'"
proof (cases o')
  case (SiteSet v)
  have "org_at i s' = org_at i s" for i
    using assms SiteSet by (cases "i = site_ID v")
      (auto simp: org_at_def Site_def apply_state_def find_upsert_same find_upsert_other split: option.splits)
  moreover have "filter (\<lambda>x. org_at (site_ID x) s \<noteq> og) (upsert (\<lambda>x. site_ID x = site_ID v) v (Sites (st_state s))) =
      filter (\<lambda>x. org_at (site_ID x) s \<noteq> og) (Sites (st_state s))"
    using assms(1) SiteSet by (intro filter_upsert) (auto dest!: find_keyD)
  ultimately show ?thesis
    using assms(2) SiteSet by (intro isolatedI) (simp_all add: apply_state_def)
next
  case (AlertAdd v)
  then show ?thesis
    using assms filter_alert_window[of v s og 2000] by (intro isolatedI org_at_cong) (simp_all add: apply_state_def)
next
  case (TwinSet v)
  then show ?thesis
    using assms by (intro isolatedI org_at_cong) (simp_all add: apply_state_def filter_upsert Twin_def)
next
  case (RouteAdd v)
  then show ?thesis
    using assms by (intro isolatedI org_at_cong) (simp_all add: apply_state_def)
next
  case (RouteDel i)
  then show ?thesis
    using assms by (intro isolatedI org_at_cong) (auto simp: apply_state_def intro!: filter_cong)
next
  case (DeploymentAdd v)
  then show ?thesis
    using assms by (intro isolatedI org_at_cong) (simp_all add: apply_state_def)
next
  case (DeploymentSet v)
  then show ?thesis
    using assms by (intro isolatedI org_at_cong) (simp_all add: apply_state_def filter_replace_first Deployment_def)
next
  case (DeploymentDel i)
  then show ?thesis
    using assms by (intro isolatedI org_at_cong) (auto simp: apply_state_def intro!: filter_cong)
next
  case (PolicyAdd v)
  then show ?thesis
    using assms by (intro isolatedI org_at_cong) (simp_all add: apply_state_def)
next
  case (PolicySet v)
  then show ?thesis
    using assms by (intro isolatedI org_at_cong) (simp_all add: apply_state_def filter_replace_first PolicyPack_def)
next
  case (PolicyDel i)
  then show ?thesis
    using assms by (intro isolatedI org_at_cong) (auto simp: apply_state_def intro!: filter_cong)
next
  case (CampaignAdd v)
  then show ?thesis
    using assms by (intro isolatedI org_at_cong) (simp_all add: apply_state_def)
next
  case (CampaignSet v)
  then show ?thesis
    using assms by (intro isolatedI org_at_cong) (simp_all add: apply_state_def filter_replace_first OTACampaign_def)
next
  case (AlertSet v)
  then show ?thesis
    using assms by (intro isolatedI org_at_cong) (simp_all add: apply_state_def filter_replace_first)
qed (use assms in simp_all)

lemma mutate_isolated:
  assumes "own_op og s o'"
  shows "isolated og s (fst (mutate o' s))"
proof -
  have "op_ok o' (st_seen s)" using assms by (cases o') (simp_all add: op_ok_def)
  then show ?thesis
  proof (cases rule: mutate_cases)
    case fail
    then show ?thesis by (intro isolatedI org_at_cong) simp_all
  next
    case applied
    then show ?thesis using own_op_isolated[OF assms] by simp
  qed
qed

subsection \<open>Lemmas: looking up who calls\<close>

lemma session_lookup_store: "session_lookup now tok sv = (sv', x) \<Longrightarrow> sv_store sv' = sv_store sv"
  by (auto simp: session_lookup_def split: prod.splits)

lemma roleForBearer_store: "roleForBearer cfg now tok sv = (sv', x) \<Longrightarrow> sv_store sv' = sv_store sv"
  by (auto simp: roleForBearer_def dest: session_lookup_store split: prod.splits option.splits if_split_asm)

lemma actorForBearer_store:
  assumes "actorForBearer cfg now tok sv = (sv', x)"
  shows "sv_store sv' = sv_store sv"
proof -
  obtain sv1 y where l: "session_lookup now tok sv = (sv1, y)" by fastforce
  obtain sv2 role where r: "roleForBearer cfg now tok sv1 = (sv2, role)" by fastforce
  have "sv_store sv1 = sv_store sv" "sv_store sv2 = sv_store sv1"
    using session_lookup_store[OF l] roleForBearer_store[OF r] by simp_all
  then show ?thesis using assms by (cases y) (auto simp: actorForBearer_def l r split: prod.splits if_splits)
qed

lemma bearer_note_store [simp]: "sv_store (bearer_note cfg env r a b c d e f sv) = sv_store sv"
  by (auto simp: bearer_note_def dest: actorForBearer_store split: prod.splits)

lemma refreshCRL_store [simp]: "sv_store (refreshCRL fc env num sv) = sv_store sv"
  by (simp add: refreshCRL_def Let_def split: option.split sum.split)

lemma siteOrgID_org_at: "siteOrgID i sv = org_at i (sv_store sv)"
  by (simp add: siteOrgID_def org_at_def)

text \<open>A call of a token scoped to \<^verbatim>\<open>og\<close>: what the gates let through.\<close>

definition scoped :: "config \<Rightarrow> time \<Rightarrow> http_request \<Rightarrow> string \<Rightarrow> server \<Rightarrow> bool" where
  "scoped cfg now r og sv \<longleftrightarrow> ss_ok (sv_sessions sv) \<and> scope_of cfg now (bearer r) sv = Some og"

lemma scoped_touched: "scoped cfg now r og sv \<Longrightarrow> touched now sv sv' \<Longrightarrow> scoped cfg now r og sv'"
  by (simp add: scoped_def scope_of_touched touched_ok)

lemma orgForBearer_scoped:
  assumes "scoped cfg now r og sv" "orgForBearer cfg now (bearer r) sv = (sv', x)"
  shows "x = Some og" "sv_store sv' = sv_store sv" "scoped cfg now r og sv'"
  using assms orgForBearer_touched[of sv now cfg "bearer r"] scoped_touched[of cfg now r og sv sv']
  by (auto simp: scoped_def touched_fields)

lemma callerCanMutateSite_scoped:
  assumes "scoped cfg now r og sv" "callerCanMutateSite cfg now r i sv = (sv', ok)"
  shows "sv_store sv' = sv_store sv" "scoped cfg now r og sv'" "ok \<longleftrightarrow> i \<noteq> [] \<and> org_at i (sv_store sv) = og"
  using assms callerCanMutateSite_touched[of sv now cfg r i] scoped_touched[of cfg now r og sv sv']
  by (auto simp: scoped_def touched_fields may_mutate_def siteOrgID_org_at)

lemma callerCanSeeSite_scoped:
  assumes "scoped cfg now r og sv" "callerCanSeeSite cfg now r i sv = (sv', ok)"
  shows "sv_store sv' = sv_store sv" "scoped cfg now r og sv'" "ok \<longleftrightarrow> i = [] \<or> org_at i (sv_store sv) = og"
  using assms callerCanSeeSite_touched[of sv now cfg r i] scoped_touched[of cfg now r og sv sv']
  by (auto simp: scoped_def touched_fields may_see_def siteOrgID_org_at)

lemma requireGlobalAdmin_scoped:
  assumes "scoped cfg now r og sv" "requireGlobalAdmin cfg now r sv = (sv', ok)"
  shows "\<not> ok" "sv_store sv' = sv_store sv"
  using assms requireGlobalAdmin_touched[of sv now cfg r] by (auto simp: scoped_def touched_fields)

text \<open>The shape most handlers end with: one operation of the store, then a note.\<close>

lemma isolated_split:
  assumes "isolated og s (fst (f s))"
    and "\<And>s' e. f s = (s', Some e) \<Longrightarrow> sv_store (fst (a s' e)) = s'"
    and "\<And>s'. f s = (s', None) \<Longrightarrow> sv_store (fst (b s')) = s'"
  shows "isolated og s (sv_store (fst (case f s of (s', Some e) \<Rightarrow> a s' e | (s', None) \<Rightarrow> b s')))"
  using assms by (cases "f s"; cases "snd (f s)") auto

lemma update_isolated:
  assumes "\<And>v. find (\<lambda>x. key x = i) (sel (st_state s)) = Some v \<Longrightarrow> own_op og s (mk (f v))"
  shows "isolated og s (fst (update_entity key sel mk i f s))"
  using assms by (auto simp: update_entity_def mutate_isolated split: option.split)

lemma delete_isolated:
  assumes "own_op og s (mk i)"
  shows "isolated og s (fst (delete_entity key sel mk i s))"
  using assms by (simp add: delete_entity_def mutate_isolated)

lemma twin_replaced_isolated:
  assumes "org_at (tw_SiteID v) s = og" "\<And>x. Twin i s = Some x \<Longrightarrow> org_at (tw_SiteID x) s = og"
  shows "isolated og s (s\<lparr>st_state := (st_state s)\<lparr>Twins := replace_first (\<lambda>x. tw_DeviceID x = i) v (Twins (st_state s))\<rparr>\<rparr>)"
  using assms by (intro isolatedI org_at_cong) (simp_all add: filter_replace_first Twin_def)

text \<open>Updating the twin of an own device.\<close>

lemma UpdateTwin_isolated:
  assumes i: "i \<noteq> []"
    and old: "\<And>x. Twin i s = Some x \<Longrightarrow> org_at (tw_SiteID x) s = og"
    and f: "\<And>x. tw_DeviceID x = i \<Longrightarrow> tw_DeviceID (f x) = i"
      "\<And>x. Twin i s = Some x \<Longrightarrow> org_at (tw_SiteID (f x)) s = og"
      "Twin i s = None \<Longrightarrow> org_at (tw_SiteID (f (zero_twin\<lparr>tw_DeviceID := i\<rparr>))) s = og"
    and sh: "\<And>x. tw_DeviceID (shared x) = tw_DeviceID x" "\<And>x. tw_SiteID (shared x) = tw_SiteID x"
  shows "isolated og s (fst (UpdateTwin i f shared s))"
proof (cases "Twin i s")
  case None
  then show ?thesis using f i by (simp add: UpdateTwin_def Let_def zero_twin_def mutate_isolated)
next
  case (Some v)
  have v: "tw_DeviceID v = i" using Some unfolding Twin_def by (rule find_keyD)
  let ?s = "s\<lparr>st_state := (st_state s)\<lparr>Twins := replace_first (\<lambda>x. tw_DeviceID x = i) (shared v) (Twins (st_state s))\<rparr>\<rparr>"
  have o: "org_at j ?s = org_at j s" for j by (rule org_at_cong) simp
  have ex: "\<exists>x \<in> set (Twins (st_state s)). tw_DeviceID x = i"
    using Some unfolding Twin_def by (rule find_exists)
  have "find (\<lambda>x. tw_DeviceID x = i) (replace_first (\<lambda>x. tw_DeviceID x = i) (shared v) (Twins (st_state s))) = Some (shared v)"
    by (rule find_replace_first_same[OF _ ex]) (simp add: sh(1) v)
  then have t: "Twin i ?s = Some (shared v)" by (simp add: Twin_def)
  have a: "isolated og s ?s"
    by (rule twin_replaced_isolated) (simp_all add: sh(2) old[OF Some] old)
  have "own_op og ?s (TwinSet (f v))"
    by (simp add: t o f(1)[OF v] f(2)[OF Some] sh(2) old[OF Some])
  then have b: "isolated og ?s (fst (mutate (TwinSet (f v)) ?s))" by (rule mutate_isolated)
  have c: "fst (UpdateTwin i f shared s) = fst (mutate (TwinSet (f v)) ?s)"
    using f(1)[OF v] i by (simp add: UpdateTwin_def Let_def Some)
  show ?thesis unfolding c by (rule isolated_trans[OF a b])
qed

lemma Device_ID: "Device i s = Some d \<Longrightarrow> dev_ID d = i"
  unfolding Device_def by (rule find_keyD)

lemma coherent_twin:
  assumes "coherent s" "Device i s = Some d" "Twin i s = Some t"
  shows "tw_SiteID t = dev_SiteID d"
proof -
  have i: "tw_DeviceID t = i" using assms(3) unfolding Twin_def by (rule find_keyD)
  have "t \<in> set (Twins (st_state s))" using assms(3) by (auto simp: Twin_def find_Some_iff)
  then have "twin_home s t" using assms(1) by (simp add: coherent_def)
  then show ?thesis using assms(2) i by (simp add: twin_home_def)
qed

lemma coherent_ids:
  assumes "coherent s"
  shows "Site i s = Some v \<Longrightarrow> i \<noteq> []" "Device i s = Some d \<Longrightarrow> i \<noteq> []"
  using assms by (auto simp: coherent_def Site_def Device_def find_Some_iff)

subsection \<open>Lemmas: the fleet's handlers\<close>

lemma mutate_isolatedD: "mutate o' s = (s', e) \<Longrightarrow> own_op og s o' \<Longrightarrow> isolated og s s'"
  using mutate_isolated[of og s o'] by simp

lemma update_isolatedD:
  "update_entity key sel mk i f s = (s', e) \<Longrightarrow>
   (\<And>v. find (\<lambda>x. key x = i) (sel (st_state s)) = Some v \<Longrightarrow> own_op og s (mk (f v))) \<Longrightarrow> isolated og s s'"
  using update_isolated[of key i sel s og mk f] by simp

lemma delete_isolatedD: "delete_entity key sel mk i s = (s', e) \<Longrightarrow> own_op og s (mk i) \<Longrightarrow> isolated og s s'"
  using delete_isolated[of og s mk i key sel] by simp

text \<open>The update of an own device's twin, when the closure names the device and its site.\<close>

lemma own_twin_isolated:
  assumes "coherent s" "Device i s = Some dev" "org_at (dev_SiteID dev) s = og"
    "\<And>x. tw_DeviceID (f x) = i \<and> tw_SiteID (f x) = dev_SiteID dev"
    "\<And>x. tw_DeviceID (shared x) = tw_DeviceID x \<and> tw_SiteID (shared x) = tw_SiteID x"
  shows "isolated og s (fst (UpdateTwin i f shared s))"
proof (rule UpdateTwin_isolated)
  show "i \<noteq> []" using coherent_ids(2)[OF assms(1,2)] .
  show "org_at (tw_SiteID x) s = og" if "Twin i s = Some x" for x
    using coherent_twin[OF assms(1,2) that] assms(3) by simp
qed (use assms in simp_all)

lemma checked_route_site: "checked_route fc i = Inr j \<Longrightarrow> rt_SiteID j = rt_SiteID i"
  by (auto simp: checked_route_def Let_def split: option.splits if_splits)

lemma routeCreate_isolated:
  assumes "scoped cfg (en_now env) r og sv"
  shows "isolated og (sv_store sv) (sv_store (fst (routeCreate fc cfg env r input sv)))"
proof (cases input)
  case (Inr i)
  obtain sv1 ok where c: "callerCanMutateSite cfg (en_now env) r (rt_SiteID i) sv = (sv1, ok)" by fastforce
  note g = callerCanMutateSite_scoped[OF assms c]
  show ?thesis
  proof (cases "ok \<and> \<not> (rt_Name i = [] \<or> rt_Topic i = [] \<or> rt_TargetURL i = [])")
    case True
    then show ?thesis
      using g by (auto simp: routeCreate_def Inr c Let_def AddRoute_def dest!: checked_route_site
          intro: mutate_isolatedD split: sum.split prod.split option.split)
  qed (use g in \<open>auto simp: routeCreate_def Inr c\<close>)
qed (simp add: routeCreate_def)

lemma find_unique:
  assumes "distinct (map key xs)" "find (\<lambda>x. key x = i) xs = Some v" "x \<in> set xs" "key x = i"
  shows "x = v"
proof -
  have "v \<in> set xs" using assms(2) by (auto simp: find_Some_iff)
  moreover have "key v = i" using assms(2) by (rule find_keyD)
  ultimately show ?thesis using assms by (simp add: distinct_map inj_on_def)
qed

lemma routeDelete_isolated:
  assumes "scoped cfg (en_now env) r og sv" "coherent (sv_store sv)"
  shows "isolated og (sv_store sv) (sv_store (fst (routeDelete cfg env r i sv)))"
proof (cases "find (\<lambda>rt. rt_ID rt = i) (Routes (st_state (sv_store sv)))")
  case (Some rt)
  obtain sv1 ok where c: "callerCanMutateSite cfg (en_now env) r (rt_SiteID rt) sv = (sv1, ok)" by fastforce
  note g = callerCanMutateSite_scoped[OF assms(1) c]
  have "own_op og (sv_store sv) (RouteDel i)" if ok
  proof -
    have "distinct (map rt_ID (Routes (st_state (sv_store sv))))" using assms(2) by (simp add: coherent_def)
    from find_unique[OF this Some] show ?thesis using that g(3) by auto
  qed
  then show ?thesis
    using g by (cases ok) (auto simp: routeDelete_def Some c DeleteRoute_def intro: delete_isolatedD split: prod.split option.split)
qed (simp add: routeDelete_def)

lemma twinDesired_isolated:
  assumes "scoped cfg (en_now env) r og sv" "coherent (sv_store sv)"
  shows "isolated og (sv_store sv) (sv_store (fst (twinDesired cfg env r i input sv)))"
proof (cases "Device i (sv_store sv)")
  case (Some dev)
  obtain sv1 ok where c: "callerCanMutateSite cfg (en_now env) r (dev_SiteID dev) sv = (sv1, ok)" by fastforce
  note g = callerCanMutateSite_scoped[OF assms(1) c]
  have d: "dev_ID dev = i" using Some by (rule Device_ID)
  show ?thesis
  proof (cases "ok \<and> (\<exists>m. input = Inr m)")
    case True
    then obtain m where m: "input = Inr m" by blast
    let ?f = "\<lambda>cur. cur\<lparr>tw_DeviceID := i, tw_SiteID := dev_SiteID dev, tw_Desired := m,
      tw_DesiredVersion := tw_DesiredVersion cur + 1, tw_UpdatedAt := en_now env\<rparr>"
    obtain s2 e where u: "UpdateTwin i ?f id (sv_store sv) = (s2, e)" by fastforce
    have "isolated og (sv_store sv) s2"
      using own_twin_isolated[OF assms(2) Some, of og ?f id] u True g(3) by simp
    then show ?thesis using True g(1) by (cases e) (simp_all add: twinDesired_def Some c m d u)
  next
    case False
    then show ?thesis using g(1) by (cases ok; cases input) (simp_all add: twinDesired_def Some c)
  qed
qed (simp add: twinDesired_def)

lemma siteRevoke_isolated:
  assumes "scoped cfg (en_now env) r og sv" "coherent (sv_store sv)"
  shows "isolated og (sv_store sv) (sv_store (fst (siteRevoke fc cfg env num r i sv)))"
proof -
  obtain sv1 x where c: "orgForBearer cfg (en_now env) (bearer r) sv = (sv1, x)" by fastforce
  note g = orgForBearer_scoped[OF assms(1) c]
  obtain s2 e where u: "UpdateSite i (\<lambda>v. v\<lparr>site_Revoked := True, site_Status := ''revoked'', site_RevokedAt := en_now env\<rparr>) (sv_store sv) = (s2, e)"
    by fastforce
  show ?thesis
  proof (cases "\<exists>v. Site i (sv_store sv) = Some v \<and> site_OrgID v = og")
    case True
    then obtain v where v: "Site i (sv_store sv) = Some v" "site_OrgID v = og" by blast
    have i: "site_ID v = i" "i \<noteq> []" using v(1) coherent_ids(1)[OF assms(2) v(1)] by (auto simp: Site_def dest: find_keyD)
    have "own_op og (sv_store sv) (SiteSet (v\<lparr>site_Revoked := True, site_Status := ''revoked'', site_RevokedAt := en_now env\<rparr>))"
      using v i by (simp add: org_at_def)
    then have "isolated og (sv_store sv) s2"
      using u v(1) unfolding UpdateSite_def Site_def by (elim update_isolatedD) simp
    then show ?thesis using g v u by (cases e) (simp_all add: siteRevoke_def c)
  next
    case False
    then show ?thesis using g by (simp add: siteRevoke_def c split: option.split)
  qed
qed

lemma orgCreate_isolated:
  assumes "scoped cfg (en_now env) r og sv"
  shows "isolated og (sv_store sv) (sv_store (fst (orgCreate cfg env r input sv)))"
proof -
  obtain sv1 ok where c: "requireGlobalAdmin cfg (en_now env) r sv = (sv1, ok)" by fastforce
  show ?thesis using requireGlobalAdmin_scoped[OF assms c] by (simp add: orgCreate_def c)
qed

lemma orgDelete_isolated:
  assumes "scoped cfg (en_now env) r og sv"
  shows "isolated og (sv_store sv) (sv_store (fst (orgDelete cfg env r i sv)))"
proof -
  obtain sv1 ok where c: "requireGlobalAdmin cfg (en_now env) r sv = (sv1, ok)" by fastforce
  show ?thesis using requireGlobalAdmin_scoped[OF assms c] by (simp add: orgDelete_def c)
qed

lemma alertResolve_isolated:
  assumes "scoped cfg (en_now env) r og sv"
  shows "isolated og (sv_store sv) (sv_store (fst (alertResolve cfg env r i sv)))"
proof (cases "find (\<lambda>a. al_ID a = i) (Alerts (st_state (sv_store sv)))")
  case (Some a)
  obtain sv1 ok where c: "callerCanMutateSite cfg (en_now env) r (al_SiteID a) sv = (sv1, ok)" by fastforce
  note g = callerCanMutateSite_scoped[OF assms c]
  obtain s2 e where u: "ResolveAlert i (sv_store sv) = (s2, e)" by fastforce
  have "al_ID a = i" using Some by (rule find_keyD)
  then have "isolated og (sv_store sv) s2" if ok
    using u g(3) that Some unfolding ResolveAlert_def by (elim update_isolatedD) simp
  then show ?thesis
    using g(1) by (cases ok; cases e) (simp_all add: alertResolve_def Some c u)
qed (simp add: alertResolve_def)

subsection \<open>Lemmas: deployments and packs\<close>

lemma policy_deny_store [simp]: "sv_store (fst (policy_deny fc cfg env r a b c d sv)) = sv_store sv"
  by (simp add: policy_deny_def)

lemma deploymentCreate_isolated:
  assumes "scoped cfg (en_now env) r og sv"
  shows "isolated og (sv_store sv) (sv_store (fst (deploymentCreate fc cfg env r input sv)))"
proof (cases input)
  case (Inr i)
  obtain sv1 ok where c: "callerCanMutateSite cfg (en_now env) r (dp_SiteID i) sv = (sv1, ok)" by fastforce
  note g = callerCanMutateSite_scoped[OF assms c]
  obtain al by' where a: "Allowed (PolicyPacks (st_state (sv_store sv))) (dp_SiteID i) (dp_Image i) = (al, by')" by fastforce
  have iso: "isolated og (sv_store sv) s2" if "AddDeployment d (sv_store sv) = (s2, e)" "dp_SiteID d = dp_SiteID i" ok for d s2 e
    using mutate_isolatedD[of "DeploymentAdd d" "sv_store sv" s2 e og] that g(3) by (simp add: AddDeployment_def)
  show ?thesis
    using g(1) by (cases ok; cases al) (auto simp: deploymentCreate_def Inr c a Let_def intro: iso split: option.split prod.split)
qed (simp add: deploymentCreate_def)

lemma patched_site [simp]: "dp_SiteID (patched now p d) = dp_SiteID d" "dp_ID (patched now p d) = dp_ID d"
  by (simp_all add: patched_def Let_def split: option.split)

lemma deploymentPatch_isolated:
  assumes "scoped cfg (en_now env) r og sv"
  shows "isolated og (sv_store sv) (sv_store (fst (deploymentPatch fc cfg env r i input sv)))"
proof (cases input)
  case (Inr p)
  show ?thesis
  proof (cases "Deployment i (sv_store sv)")
    case (Some d)
    obtain sv1 ok where c: "callerCanMutateSite cfg (en_now env) r (dp_SiteID d) sv = (sv1, ok)" by fastforce
    note g = callerCanMutateSite_scoped[OF assms c]
    have d: "dp_ID d = i" using Some unfolding Deployment_def by (rule find_keyD)
    have iso: "isolated og (sv_store sv) s2" if "UpdateDeployment i (patched now q) (sv_store sv) = (s2, e)" ok for now q s2 e
      using that g(3) d Some unfolding UpdateDeployment_def Deployment_def
      by (elim update_isolatedD) (simp add: Deployment_def)
    show ?thesis
      using g(1) by (auto simp: deploymentPatch_def Inr Some c Let_def intro: iso split: prod.split option.split bool.split)
  qed (simp add: deploymentPatch_def Inr)
qed (simp add: deploymentPatch_def)

lemma deploymentDelete_isolated:
  assumes "scoped cfg (en_now env) r og sv" "coherent (sv_store sv)"
  shows "isolated og (sv_store sv) (sv_store (fst (deploymentDelete cfg env r i sv)))"
proof (cases "Deployment i (sv_store sv)")
  case (Some d)
  obtain sv1 ok where c: "callerCanMutateSite cfg (en_now env) r (dp_SiteID d) sv = (sv1, ok)" by fastforce
  note g = callerCanMutateSite_scoped[OF assms(1) c]
  obtain s2 e where u: "DeleteDeployment i (sv_store sv) = (s2, e)" by fastforce
  have "distinct (map dp_ID (Deployments (st_state (sv_store sv))))" using assms(2) by (simp add: coherent_def)
  note q = find_unique[OF this Some[unfolded Deployment_def]]
  have "own_op og (sv_store sv) (DeploymentDel i)" if ok using q that g(3) by auto
  then have "isolated og (sv_store sv) s2" if ok
    using u that unfolding DeleteDeployment_def by (elim delete_isolatedD) simp
  then show ?thesis using g(1) by (cases ok; cases e) (simp_all add: deploymentDelete_def Some c u)
qed (simp add: deploymentDelete_def)

lemma policyPackCreate_isolated:
  assumes "scoped cfg (en_now env) r og sv"
  shows "isolated og (sv_store sv) (sv_store (fst (policyPackCreate cfg env r input sv)))"
proof (cases input)
  case (Inr i)
  obtain sv1 ok where c: "callerCanMutateSite cfg (en_now env) r (pk_SiteID i) sv = (sv1, ok)" by fastforce
  note g = callerCanMutateSite_scoped[OF assms c]
  let ?p = "i\<lparr>pk_ID := gen_id ''policy'' (en_rand env 0), pk_Version := 1, pk_CreatedAt := en_now env, pk_UpdatedAt := en_now env\<rparr>"
  obtain s2 e where u: "AddPolicyPack ?p (sv_store sv) = (s2, e)" by fastforce
  have "isolated og (sv_store sv) s2" if ok
    using mutate_isolatedD[of "PolicyAdd ?p" "sv_store sv" s2 e og] u g(3) that by (simp add: AddPolicyPack_def)
  then show ?thesis
    using g(1) by (cases ok; cases e) (simp_all add: policyPackCreate_def Inr c u Let_def)
qed (simp add: policyPackCreate_def)

lemma patched_pack_site [simp]: "pk_SiteID (patched_pack now p v) = pk_SiteID v" "pk_ID (patched_pack now p v) = pk_ID v"
  by (simp_all add: patched_pack_def)

lemma policyPackPatch_isolated:
  assumes "scoped cfg (en_now env) r og sv"
  shows "isolated og (sv_store sv) (sv_store (fst (policyPackPatch cfg env r i input sv)))"
proof (cases input)
  case (Inr p)
  show ?thesis
  proof (cases "PolicyPack i (sv_store sv)")
    case (Some d)
    obtain sv1 ok where c: "callerCanMutateSite cfg (en_now env) r (pk_SiteID d) sv = (sv1, ok)" by fastforce
    note g = callerCanMutateSite_scoped[OF assms c]
    have d: "pk_ID d = i" using Some unfolding PolicyPack_def by (rule find_keyD)
    obtain s2 e where u: "UpdatePolicyPack i (patched_pack (en_now env) p) (sv_store sv) = (s2, e)" by fastforce
    have "isolated og (sv_store sv) s2" if ok
      using u that g(3) d Some unfolding UpdatePolicyPack_def PolicyPack_def
      by (elim update_isolatedD) (simp add: PolicyPack_def)
    then show ?thesis
      using g(1) by (cases ok; cases e) (simp_all add: policyPackPatch_def Inr Some c u Let_def)
  qed (simp add: policyPackPatch_def Inr)
qed (simp add: policyPackPatch_def)

lemma policyPackDelete_isolated:
  assumes "scoped cfg (en_now env) r og sv" "coherent (sv_store sv)"
  shows "isolated og (sv_store sv) (sv_store (fst (policyPackDelete cfg env r i sv)))"
proof (cases "PolicyPack i (sv_store sv)")
  case (Some d)
  obtain sv1 ok where c: "callerCanMutateSite cfg (en_now env) r (pk_SiteID d) sv = (sv1, ok)" by fastforce
  note g = callerCanMutateSite_scoped[OF assms(1) c]
  obtain s2 e where u: "DeletePolicyPack i (sv_store sv) = (s2, e)" by fastforce
  have "distinct (map pk_ID (PolicyPacks (st_state (sv_store sv))))" using assms(2) by (simp add: coherent_def)
  note q = find_unique[OF this Some[unfolded PolicyPack_def]]
  have "own_op og (sv_store sv) (PolicyDel i)" if ok using q that g(3) by auto
  then have "isolated og (sv_store sv) s2" if ok
    using u that unfolding DeletePolicyPack_def by (elim delete_isolatedD) simp
  then show ?thesis using g(1) by (cases ok; cases e) (simp_all add: policyPackDelete_def Some c u)
qed (simp add: policyPackDelete_def)

subsection \<open>Lemmas: updates and campaigns\<close>

lemma own_twin_isolatedD:
  assumes "UpdateTwin i f shared s = (s', e)" "coherent s" "Device i s = Some dev" "org_at (dev_SiteID dev) s = og"
    "\<And>x. tw_DeviceID (f x) = i \<and> tw_SiteID (f x) = dev_SiteID dev"
    "\<And>x. tw_DeviceID (shared x) = tw_DeviceID x \<and> tw_SiteID (shared x) = tw_SiteID x"
  shows "isolated og s s'"
  using own_twin_isolated[OF assms(2-4), of f shared] assms(1,5,6) by simp

lemma replace_first_keys:
  "(\<And>x. p x \<Longrightarrow> key x = key y) \<Longrightarrow> key ` set (replace_first p y xs) = key ` set xs"
  by (induction xs) auto

lemma mutate_TwinSet_state:
  "st_state (fst (mutate (TwinSet v) s)) = st_state s \<or>
   st_state (fst (mutate (TwinSet v) s)) = (st_state s)\<lparr>Twins := upsert (\<lambda>x. tw_DeviceID x = tw_DeviceID v) v (Twins (st_state s))\<rparr>"
  by (rule mutate_cases[of "TwinSet v" s]) (simp_all add: op_ok_def apply_state_def)

text \<open>What \<^verbatim>\<open>UpdateTwin\<close> does to the state: only twins change, none disappears, and a new one is
  what the closures made.\<close>

definition twins_change :: "string \<Rightarrow> (twin \<Rightarrow> bool) \<Rightarrow> state \<Rightarrow> state \<Rightarrow> bool" where
  "twins_change i p st st' \<longleftrightarrow>
     st' = st\<lparr>Twins := Twins st'\<rparr> \<and> (\<forall>t \<in> set (Twins st'). t \<in> set (Twins st) \<or> (tw_DeviceID t = i \<and> p t)) \<and>
     tw_DeviceID ` set (Twins st) \<subseteq> tw_DeviceID ` set (Twins st')"

lemma twins_change_refl [simp]: "twins_change i p st st"
  by (simp add: twins_change_def)

lemma twins_change_trans: "twins_change i p a b \<Longrightarrow> twins_change i p b c \<Longrightarrow> twins_change i p a c"
  unfolding twins_change_def
  by (metis (no_types, lifting) state.surjective state.update_convs(3) subset_trans)

lemma twins_change_upsert:
  "tw_DeviceID v = i \<Longrightarrow> p v \<Longrightarrow> twins_change i p st (st\<lparr>Twins := upsert (\<lambda>x. tw_DeviceID x = i) v (Twins st)\<rparr>)"
  using set_replace_first[of "\<lambda>x. tw_DeviceID x = i" v "Twins st"] replace_first_keys[of "\<lambda>x. tw_DeviceID x = i" tw_DeviceID v "Twins st"]
  by (auto simp: twins_change_def upsert_def)

lemma twins_change_replace:
  "tw_DeviceID v = i \<Longrightarrow> p v \<Longrightarrow> twins_change i p st (st\<lparr>Twins := replace_first (\<lambda>x. tw_DeviceID x = i) v (Twins st)\<rparr>)"
  using set_replace_first[of "\<lambda>x. tw_DeviceID x = i" v "Twins st"] replace_first_keys[of "\<lambda>x. tw_DeviceID x = i" tw_DeviceID v "Twins st"]
  by (auto simp: twins_change_def)

lemma UpdateTwin_change:
  assumes "i \<noteq> []" "\<And>x. tw_DeviceID x = i \<Longrightarrow> tw_DeviceID (f x) = i \<and> tw_DeviceID (shared x) = i"
    "\<And>x. Twin i s = Some x \<Longrightarrow> p (f x) \<and> p (shared x)" "Twin i s = None \<Longrightarrow> p (f (zero_twin\<lparr>tw_DeviceID := i\<rparr>))"
  shows "twins_change i p (st_state s) (st_state (fst (UpdateTwin i f shared s)))"
proof (cases "Twin i s")
  case None
  let ?v = "f (zero_twin\<lparr>tw_DeviceID := i\<rparr>)"
  have "tw_DeviceID ?v = i" using assms(2)[of "zero_twin\<lparr>tw_DeviceID := i\<rparr>"] by simp
  then show ?thesis
    using mutate_TwinSet_state[of ?v s] twins_change_upsert[of ?v i p "st_state s"] assms(1) assms(4)[OF None] None
    by (auto simp: UpdateTwin_def Let_def)
next
  case (Some v)
  have v: "tw_DeviceID v = i" using Some unfolding Twin_def by (rule find_keyD)
  let ?s = "s\<lparr>st_state := (st_state s)\<lparr>Twins := replace_first (\<lambda>x. tw_DeviceID x = i) (shared v) (Twins (st_state s))\<rparr>\<rparr>"
  have a: "twins_change i p (st_state s) (st_state ?s)"
    using twins_change_replace[of "shared v" i p "st_state s"] assms(2)[OF v] assms(3)[OF Some] by simp
  have b: "twins_change i p (st_state ?s) (st_state (fst (mutate (TwinSet (f v)) ?s)))"
    using mutate_TwinSet_state[of "f v" ?s] twins_change_upsert[of "f v" i p "st_state ?s"] assms(2)[OF v] assms(3)[OF Some] by auto
  have "fst (UpdateTwin i f shared s) = fst (mutate (TwinSet (f v)) ?s)"
    using assms(1) assms(2)[OF v] by (simp add: UpdateTwin_def Let_def Some)
  then show ?thesis using twins_change_trans[OF a b] by simp
qed

text \<open>A campaign whose states, stage and status have moved, but which reaches the same devices.\<close>

definition same_shape :: "campaign \<Rightarrow> campaign \<Rightarrow> bool" where
  "same_shape c c' \<longleftrightarrow>
     ca_ID c' = ca_ID c \<and> ca_SiteIDs c' = ca_SiteIDs c \<and> ca_TargetDeviceIDs c' = ca_TargetDeviceIDs c \<and>
     map cd_DeviceID (ca_Devices c') = map cd_DeviceID (ca_Devices c) \<and> map cd_SiteID (ca_Devices c') = map cd_SiteID (ca_Devices c)"

lemma same_shape_refl [simp]: "same_shape c c"
  by (simp add: same_shape_def)

lemma same_shape_trans: "same_shape a b \<Longrightarrow> same_shape b c \<Longrightarrow> same_shape a c"
  by (simp add: same_shape_def)

lemma same_shape_sites: "same_shape c c' \<Longrightarrow> campaignSiteIDs c' = campaignSiteIDs c"
  by (simp add: same_shape_def campaignSiteIDs_def)

lemma same_shape_images:
  "same_shape c c' \<Longrightarrow> cd_DeviceID ` set (ca_Devices c') = cd_DeviceID ` set (ca_Devices c)"
  "same_shape c c' \<Longrightarrow> cd_SiteID ` set (ca_Devices c') = cd_SiteID ` set (ca_Devices c)"
  by (metis image_set same_shape_def)+

lemma campaign_home_mono:
  assumes "campaign_home s c" "\<And>j. Device j s' = Device j s" "\<And>j. Twin j s \<noteq> None \<Longrightarrow> Twin j s' \<noteq> None" "same_shape c c'"
  shows "campaign_home s' c'"
proof -
  have "ca_TargetDeviceIDs c' = ca_TargetDeviceIDs c" "ca_SiteIDs c' = ca_SiteIDs c" using assms(4) by (simp_all add: same_shape_def)
  then show ?thesis
    using assms(1,3) unfolding campaign_home_def same_shape_images[OF assms(4)] same_shape_sites[OF assms(4)] assms(2) by simp
qed

lemma Twin_exists_iff: "Twin i s \<noteq> None \<longleftrightarrow> i \<in> tw_DeviceID ` set (Twins (st_state s))"
  by (auto simp: Twin_def find_None_iff_all image_iff)

lemma twins_change_coherent:
  assumes "coherent s" "Device i s = Some dev" "twins_change i (\<lambda>t. tw_SiteID t = dev_SiteID dev) (st_state s) (st_state s')"
  shows "coherent s'"
proof -
  have e: "st_state s' = (st_state s)\<lparr>Twins := Twins (st_state s')\<rparr>" using assms(3) by (simp add: twins_change_def)
  have same: "Sites (st_state s') = Sites (st_state s)" "Devices (st_state s') = Devices (st_state s)"
    "Routes (st_state s') = Routes (st_state s)" "Deployments (st_state s') = Deployments (st_state s)"
    "PolicyPacks (st_state s') = PolicyPacks (st_state s)" "OTACampaigns (st_state s') = OTACampaigns (st_state s)"
    by (subst e, simp)+
  have D: "Device j s' = Device j s" for j by (simp add: Device_def same)
  have T: "Twin j s' \<noteq> None" if "Twin j s \<noteq> None" for j
    using that assms(3) unfolding Twin_exists_iff twins_change_def by blast
  have "twin_home s' t" if "t \<in> set (Twins (st_state s'))" for t
  proof (cases "t \<in> set (Twins (st_state s))")
    case True
    then have "twin_home s t" using assms(1) by (simp add: coherent_def)
    then show ?thesis by (simp add: twin_home_def D)
  next
    case False
    then have "tw_DeviceID t = i" "tw_SiteID t = dev_SiteID dev" using assms(3) that unfolding twins_change_def by blast+
    then show ?thesis using assms(2) by (simp add: twin_home_def D)
  qed
  moreover have "campaign_home s' c" if "c \<in> set (OTACampaigns (st_state s))" for c
    using campaign_home_mono[OF _ D T same_shape_refl] assms(1) that by (simp add: coherent_def)
  ultimately show ?thesis using assms(1) by (simp add: coherent_def same)
qed

lemma setDeviceOTADesired_isolated:
  assumes "coherent s" "Device i s = Some dev" "org_at (dev_SiteID dev) s = og"
  shows "isolated og s (fst (setDeviceOTADesired now dev req s))"
proof -
  have d: "dev_ID dev = i" using assms(2) by (rule Device_ID)
  show ?thesis
    by (auto simp: setDeviceOTADesired_def d Let_def intro: own_twin_isolatedD[OF _ assms] split: sum.split prod.split option.split)
qed

lemma setDeviceOTADesired_change:
  assumes "coherent s" "Device i s = Some dev"
  shows "twins_change i (\<lambda>t. tw_SiteID t = dev_SiteID dev) (st_state s) (st_state (fst (setDeviceOTADesired now dev req s)))"
proof -
  have d: "dev_ID dev = i" using assms(2) by (rule Device_ID)
  have c: "twins_change i (\<lambda>t. tw_SiteID t = dev_SiteID dev) (st_state s) (st_state s')"
    if "UpdateTwin i f shared s = (s', e)" "\<And>x. tw_DeviceID (f x) = i \<and> tw_SiteID (f x) = dev_SiteID dev"
      "\<And>x. tw_DeviceID (shared x) = tw_DeviceID x \<and> tw_SiteID (shared x) = tw_SiteID x" for f shared s' e
    using UpdateTwin_change[of i f shared s "\<lambda>t. tw_SiteID t = dev_SiteID dev"] coherent_ids(2)[OF assms] coherent_twin[OF assms] that
    by simp
  show ?thesis
    by (auto simp: setDeviceOTADesired_def d Let_def intro: c split: sum.split prod.split option.split)
qed

lemma otaDeviceRequest_isolated:
  assumes "scoped cfg (en_now env) r og sv" "coherent (sv_store sv)"
  shows "isolated og (sv_store sv) (sv_store (fst (otaDeviceRequest fc cfg env r i input sv)))"
proof (cases "Device i (sv_store sv)")
  case (Some dev)
  obtain sv1 ok where c: "callerCanMutateSite cfg (en_now env) r (dev_SiteID dev) sv = (sv1, ok)" by fastforce
  note g = callerCanMutateSite_scoped[OF assms(1) c]
  have iso: "isolated og (sv_store sv) s2" if "setDeviceOTADesired (en_now env) dev q (sv_store sv) = (s2, e)" ok for q s2 e
    using setDeviceOTADesired_isolated[OF assms(2) Some, of og "en_now env" q] that g(3) by simp
  show ?thesis
    using g(1) by (cases ok; cases input) (auto simp: otaDeviceRequest_def Some c intro: iso split: prod.split sum.split ota_fault.split)
qed (simp add: otaDeviceRequest_def)

lemma foldl_collect:
  "set (foldl (\<lambda>out i. if i = [] \<or> i \<in> set out then out else i # out) acc xs) = set acc \<union> (set xs - {[]})"
  by (induction xs arbitrary: acc) auto

lemma set_campaignSiteIDs: "set (campaignSiteIDs c) = (set (ca_SiteIDs c) \<union> cd_SiteID ` set (ca_Devices c)) - {[]}"
  by (auto simp: campaignSiteIDs_def foldl_collect)

text \<open>Steps that keep the store coherent and every campaign's reach.\<close>

definition reach_kept :: "store \<Rightarrow> store \<Rightarrow> bool" where
  "reach_kept s s' \<longleftrightarrow>
     (coherent s \<longrightarrow> coherent s') \<and> Devices (st_state s') = Devices (st_state s) \<and> Sites (st_state s') = Sites (st_state s) \<and>
     tw_DeviceID ` set (Twins (st_state s)) \<subseteq> tw_DeviceID ` set (Twins (st_state s')) \<and>
     list_all2 same_shape (OTACampaigns (st_state s)) (OTACampaigns (st_state s'))"

lemma reach_kept_refl [simp]: "reach_kept s s"
  by (simp add: reach_kept_def list_all2_refl)

lemma reach_kept_trans:
  assumes "reach_kept a b" "reach_kept b c"
  shows "reach_kept a c"
proof -
  have "list_all2 same_shape (OTACampaigns (st_state a)) (OTACampaigns (st_state c))"
  proof (rule list_all2_trans[OF same_shape_trans])
    show "list_all2 same_shape (OTACampaigns (st_state a)) (OTACampaigns (st_state b))"
      "list_all2 same_shape (OTACampaigns (st_state b)) (OTACampaigns (st_state c))"
      using assms by (simp_all add: reach_kept_def)
  qed
  then show ?thesis using assms unfolding reach_kept_def by auto
qed

lemma reach_kept_twins:
  assumes "twins_change i (\<lambda>t. tw_SiteID t = dev_SiteID dev) (st_state s) (st_state s')" "Device i s = Some dev"
  shows "reach_kept s s'"
proof -
  have e: "st_state s' = (st_state s)\<lparr>Twins := Twins (st_state s')\<rparr>" using assms(1) by (simp add: twins_change_def)
  have "Sites (st_state s') = Sites (st_state s)" "Devices (st_state s') = Devices (st_state s)"
    "OTACampaigns (st_state s') = OTACampaigns (st_state s)"
    by (subst e, simp)+
  moreover have "tw_DeviceID ` set (Twins (st_state s)) \<subseteq> tw_DeviceID ` set (Twins (st_state s'))"
    using assms(1) by (simp add: twins_change_def)
  ultimately show ?thesis
    using twins_change_coherent[OF _ assms(2,1)] by (simp add: reach_kept_def list_all2_refl)
qed

lemma reach_kept_alerts: "st_state s' = (st_state s)\<lparr>Alerts := as\<rparr> \<Longrightarrow> reach_kept s s'"
proof -
  assume a: "st_state s' = (st_state s)\<lparr>Alerts := as\<rparr>"
  have "Device i s' = Device i s" "Twin i s' = Twin i s" for i using a by (simp_all add: Device_def Twin_def)
  then have "twin_home s' = twin_home s" "campaign_home s' = campaign_home s"
    by (simp_all add: twin_home_def campaign_home_def fun_eq_iff)
  then show ?thesis using a by (simp add: reach_kept_def coherent_def list_all2_refl)
qed

lemma list_all2_replace_first:
  "(\<And>x. find p xs = Some x \<Longrightarrow> R x y) \<Longrightarrow> (\<And>x. R x x) \<Longrightarrow> list_all2 R xs (replace_first p y xs)"
  by (induction xs) (auto simp: list_all2_refl split: if_splits)

lemma list_all2_right: "list_all2 R xs ys \<Longrightarrow> y \<in> set ys \<Longrightarrow> \<exists>x \<in> set xs. R x y"
  by (induction rule: list_all2_induct) auto

lemma reach_kept_campaign:
  assumes "\<And>x. OTACampaign (ca_ID c) s = Some x \<Longrightarrow> same_shape x c"
    "st_state s' = (st_state s)\<lparr>OTACampaigns := replace_first (\<lambda>x. ca_ID x = ca_ID c) c (OTACampaigns (st_state s))\<rparr>"
  shows "reach_kept s s'"
proof -
  have l: "list_all2 same_shape (OTACampaigns (st_state s)) (OTACampaigns (st_state s'))"
    using assms by (simp add: list_all2_replace_first OTACampaign_def)
  have D: "Device i s' = Device i s" "Twin i s' = Twin i s" for i
    using assms(2) by (simp_all add: Device_def Twin_def)
  have "coherent s'" if co: "coherent s"
  proof -
    have "campaign_home s' c'" if c': "c' \<in> set (OTACampaigns (st_state s'))" for c'
    proof -
      obtain c0 where c0: "c0 \<in> set (OTACampaigns (st_state s))" "same_shape c0 c'"
        using list_all2_right[OF l c'] by blast
      have "campaign_home s c0" using co c0(1) by (simp add: coherent_def)
      then show ?thesis by (rule campaign_home_mono[OF _ D(1) _ c0(2)]) (simp add: D(2))
    qed
    moreover have "twin_home s' = twin_home s" by (simp add: twin_home_def D fun_eq_iff)
    ultimately show ?thesis using co assms(2) by (simp add: coherent_def)
  qed
  then show ?thesis using l assms(2) by (simp add: reach_kept_def)
qed

end
