(* ===== verification/Tenancy.thy ===== *)
theory Tenancy
  imports Isolation
begin

text \<open>
  Tenant isolation: the console's requests as one datatype, and that a request made with a
  token of one organisation changes nothing that belongs to another.
\<close>

subsection \<open>Calls\<close>

datatype console_request =
    RouteCreate "string + route" | RouteDelete string
  | TwinDesired string "string + json_map"
  | SiteRevoke "nat option" string
  | OrgCreate "string + string" | OrgDelete string
  | AlertResolve string
  | DeploymentCreate "string + deployment" | DeploymentPatch string "string + patch" | DeploymentDelete string
  | PackCreate "string + policy_pack" | PackPatch string "string + pack_patch" | PackDelete string
  | OtaRequest string "string + request"
  | CampaignCreate "string + campaign_input" | CampaignGet string | CampaignStart string | CampaignPromote string
  | CampaignPause string | CampaignResume string | CampaignAbort string

text \<open>The handler behind \<^verbatim>\<open>s.admin\<close>, as \<^verbatim>\<open>routes\<close> registers it.\<close>

definition handle_request :: "fleet_cfg \<Rightarrow> config \<Rightarrow> env \<Rightarrow> http_request \<Rightarrow> console_request \<Rightarrow> server \<Rightarrow> server" where
  "handle_request fc cfg env r q sv =
     (case q of
        RouteCreate i \<Rightarrow> fst (routeCreate fc cfg env r i sv)
      | RouteDelete i \<Rightarrow> fst (routeDelete cfg env r i sv)
      | TwinDesired i d \<Rightarrow> fst (twinDesired cfg env r i d sv)
      | SiteRevoke num i \<Rightarrow> fst (siteRevoke fc cfg env num r i sv)
      | OrgCreate i \<Rightarrow> fst (orgCreate cfg env r i sv)
      | OrgDelete i \<Rightarrow> fst (orgDelete cfg env r i sv)
      | AlertResolve i \<Rightarrow> fst (alertResolve cfg env r i sv)
      | DeploymentCreate i \<Rightarrow> fst (deploymentCreate fc cfg env r i sv)
      | DeploymentPatch i p \<Rightarrow> fst (deploymentPatch fc cfg env r i p sv)
      | DeploymentDelete i \<Rightarrow> fst (deploymentDelete cfg env r i sv)
      | PackCreate i \<Rightarrow> fst (policyPackCreate cfg env r i sv)
      | PackPatch i p \<Rightarrow> fst (policyPackPatch cfg env r i p sv)
      | PackDelete i \<Rightarrow> fst (policyPackDelete cfg env r i sv)
      | OtaRequest i q' \<Rightarrow> fst (otaDeviceRequest fc cfg env r i q' sv)
      | CampaignCreate i \<Rightarrow> fst (otaCampaignCreate fc cfg env r i sv)
      | CampaignGet i \<Rightarrow> fst (otaCampaignGet cfg env r i sv)
      | CampaignStart i \<Rightarrow> fst (otaCampaignStart fc cfg env r i sv)
      | CampaignPromote i \<Rightarrow> fst (otaCampaignPromote fc cfg env r i sv)
      | CampaignPause i \<Rightarrow> fst (otaCampaignPause cfg env r i sv)
      | CampaignResume i \<Rightarrow> fst (otaCampaignResume cfg env r i sv)
      | CampaignAbort i \<Rightarrow> fst (otaCampaignAbort cfg env r i sv))"

definition console_request_step :: "fleet_cfg \<Rightarrow> config \<Rightarrow> env \<Rightarrow> http_request \<Rightarrow> console_request \<Rightarrow> server \<Rightarrow> server" where
  "console_request_step fc cfg env r q sv =
     fst (admin cfg env r (\<lambda>sv. (handle_request fc cfg env r q sv, Done 200 ())) sv)"

subsection \<open>Lemmas: campaigns\<close>

definition own_campaign :: "string \<Rightarrow> store \<Rightarrow> campaign \<Rightarrow> bool" where
  "own_campaign og s c \<longleftrightarrow> \<not> foreign_campaign og s c \<and> campaign_home s c"

lemma own_campaign_device:
  assumes "own_campaign og s c" "Device i s = Some d" "i \<in> set (ca_TargetDeviceIDs c) \<union> cd_DeviceID ` set (ca_Devices c)"
  shows "org_at (dev_SiteID d) s = og"
  using assms unfolding own_campaign_def foreign_campaign_def campaign_home_def by blast

lemma own_campaign_step:
  assumes "own_campaign og s c" "isolated og s s'" "reach_kept s s'" "same_shape c c'"
  shows "own_campaign og s' c'"
proof -
  have D: "Device j s' = Device j s" for j using assms(3) by (simp add: reach_kept_def Device_def)
  have T: "Twin j s' \<noteq> None" if "Twin j s \<noteq> None" for j
    using assms(3) that unfolding reach_kept_def Twin_exists_iff by blast
  have "campaign_home s c" using assms(1) by (simp add: own_campaign_def)
  then have "campaign_home s' c'" by (rule campaign_home_mono[OF _ D T assms(4)])
  moreover have "\<not> foreign_campaign og s' c'"
    using assms(1,2) unfolding own_campaign_def foreign_campaign_def isolated_def same_shape_sites[OF assms(4)] by simp
  ultimately show ?thesis by (simp add: own_campaign_def)
qed

lemma withdraw_keeps: "withdraw now d tw = Some tw' \<Longrightarrow> tw_DeviceID tw' = tw_DeviceID tw \<and> tw_SiteID tw' = tw_SiteID tw"
  by (auto simp: withdraw_def split: held.splits if_splits)

lemma clear_device_isolated:
  assumes "coherent s" "own_campaign og s c" "d \<in> set (ca_Devices c)"
  shows "isolated og s (fst (clear_device now d s)) \<and> reach_kept s (fst (clear_device now d s))"
proof (cases "cd_State d \<in> {''committed'', ''failed'', ''rolled-back''} \<or> Device (cd_DeviceID d) s = None")
  case True
  then show ?thesis by (auto simp: clear_device_def split: option.split)
next
  case False
  then obtain dev where dev: "Device (cd_DeviceID d) s = Some dev" by auto
  let ?i = "cd_DeviceID d"
  let ?f = "\<lambda>tw. case withdraw now d tw of None \<Rightarrow> tw | Some tw' \<Rightarrow> tw'"
  let ?sh = "\<lambda>tw. case withdraw now d tw of None \<Rightarrow> tw | Some tw' \<Rightarrow> tw\<lparr>tw_Desired := tw_Desired tw'\<rparr>"
  have f: "tw_DeviceID (?f x) = tw_DeviceID x" "tw_SiteID (?f x) = tw_SiteID x" for x
    by (cases "withdraw now d x"; auto dest: withdraw_keeps)+
  have sh: "tw_DeviceID (?sh x) = tw_DeviceID x" "tw_SiteID (?sh x) = tw_SiteID x" for x
    by (auto split: option.split)
  have i: "?i \<noteq> []" using coherent_ids(2)[OF assms(1) dev] .
  have o: "org_at (dev_SiteID dev) s = og" using own_campaign_device[OF assms(2) dev] assms(3) by simp
  have t: "Twin ?i s \<noteq> None" using assms(2,3) by (auto simp: own_campaign_def campaign_home_def)
  have st: "tw_SiteID x = dev_SiteID dev" if "Twin ?i s = Some x" for x using coherent_twin[OF assms(1) dev that] .
  have "isolated og s (fst (UpdateTwin ?i ?f ?sh s))"
    by (rule UpdateTwin_isolated[OF i]) (use f sh st o t in simp_all)
  moreover have "twins_change ?i (\<lambda>t. tw_SiteID t = dev_SiteID dev) (st_state s) (st_state (fst (UpdateTwin ?i ?f ?sh s)))"
    by (rule UpdateTwin_change[OF i]) (use f sh st t in simp_all)
  then have "reach_kept s (fst (UpdateTwin ?i ?f ?sh s))" by (rule reach_kept_twins[OF _ dev])
  ultimately show ?thesis using False dev Device_ID[OF dev] by (simp add: clear_device_def)
qed

lemma clear_devices_isolated:
  assumes "coherent s" "own_campaign og s c" "set ds \<subseteq> set (ca_Devices c)"
  shows "isolated og s (fst (clear_devices now ds s)) \<and> reach_kept s (fst (clear_devices now ds s))"
  using assms
proof (induction ds arbitrary: s)
  case (Cons d ds)
  obtain s1 n where c1: "clear_device now d s = (s1, n)" by fastforce
  obtain s2 m where c2: "clear_devices now ds s1 = (s2, m)" by fastforce
  have a: "isolated og s s1" "reach_kept s s1" using clear_device_isolated[OF Cons.prems(1,2), of d now] Cons.prems(3) c1 by simp_all
  have "coherent s1" using a(2) Cons.prems(1) by (simp add: reach_kept_def)
  moreover have "own_campaign og s1 c" using own_campaign_step[OF Cons.prems(2) a same_shape_refl] .
  ultimately have "isolated og s1 s2" "reach_kept s1 s2" using Cons.IH[of s1] Cons.prems(3) c2 by simp_all
  then show ?case using isolated_trans[OF a(1)] reach_kept_trans[OF a(2)] c1 c2 by simp
qed simp

lemma own_set_isolated:
  assumes "own_campaign og s c" "\<And>x. OTACampaign (ca_ID c) s = Some x \<Longrightarrow> own_campaign og s x"
    "st_state s' = (st_state s)\<lparr>OTACampaigns := replace_first (\<lambda>x. ca_ID x = ca_ID c) c (OTACampaigns (st_state s))\<rparr>"
  shows "isolated og s s'"
  using own_op_isolated[of og s "CampaignSet c" s'] assms by (simp add: own_campaign_def apply_state_def)

text \<open>Storing a campaign over one with the same reach.\<close>

lemma store_campaign:
  assumes "own_campaign og s c" "\<And>x. OTACampaign (ca_ID c) s = Some x \<Longrightarrow> same_shape x c"
    "UpdateOTACampaign (ca_ID c) (\<lambda>_. c) s = (s', e)"
  shows "isolated og s s' \<and> reach_kept s s'"
proof (cases "OTACampaign (ca_ID c) s")
  case None
  then show ?thesis using assms(3) by (simp add: UpdateOTACampaign_def update_entity_def OTACampaign_def)
next
  case (Some x)
  have m: "s' = fst (mutate (CampaignSet c) s)"
    using assms(3) Some by (simp add: UpdateOTACampaign_def update_entity_def OTACampaign_def)
  have "own_campaign og s x"
    using assms(1) assms(2)[OF Some] own_campaign_step[OF assms(1) isolated_refl reach_kept_refl, of x]
    by (simp add: same_shape_def)
  then have i: "isolated og s s'"
    unfolding m using assms(1) Some by (intro mutate_isolated) (simp add: own_campaign_def)
  have "op_ok (CampaignSet c) (st_seen s)" by (simp add: op_ok_def)
  then have "reach_kept s s'"
  proof (cases rule: mutate_cases)
    case fail
    then have "st_state s' = st_state s" using m by simp
    then show ?thesis using reach_kept_alerts[where s = s and s' = s' and as = "Alerts (st_state s)"] by simp
  next
    case applied
    then show ?thesis using reach_kept_campaign[OF assms(2)] m by (simp add: apply_state_def)
  qed
  then show ?thesis using i by simp
qed

lemma AddAlert_own:
  assumes "org_at (al_SiteID a) s = og"
  shows "isolated og s (fst (AddAlert a s)) \<and> reach_kept s (fst (AddAlert a s))"
proof -
  have "op_ok (AlertAdd a) (st_seen s)" by (simp add: op_ok_def)
  then have "\<exists>as. st_state (fst (mutate (AlertAdd a) s)) = (st_state s)\<lparr>Alerts := as\<rparr>"
    by (cases rule: mutate_cases) (auto simp: apply_state_def intro: exI[of _ "Alerts (st_state s)"])
  then show ?thesis using mutate_isolated[of og s "AlertAdd a"] assms reach_kept_alerts by (auto simp: AddAlert_def)
qed

lemma firstSite_own: "own_campaign og s c \<Longrightarrow> ca_Devices c \<noteq> [] \<Longrightarrow> org_at (firstSite c) s = og"
proof -
  assume a: "own_campaign og s c" "ca_Devices c \<noteq> []"
  then have "cd_SiteID (hd (ca_Devices c)) \<in> set (campaignSiteIDs c)"
    by (cases "ca_Devices c") (auto simp: set_campaignSiteIDs own_campaign_def campaign_home_def)
  then obtain x xs where "campaignSiteIDs c = x # xs" by (cases "campaignSiteIDs c") auto
  then show ?thesis using a(1) by (simp add: firstSite_def own_campaign_def foreign_campaign_def)
qed

lemma refreshed_shape: "same_shape c (c\<lparr>ca_Devices := map (refreshed_device s) (ca_Devices c)\<rparr>)"
  by (auto simp: same_shape_def refreshed_device_def split: option.split)

lemma share_devices_isolated:
  assumes "own_campaign og s c" "\<And>x. OTACampaign (ca_ID c) s = Some x \<Longrightarrow> same_shape x c"
  shows "isolated og s (share_devices c s) \<and> reach_kept s (share_devices c s)"
proof (cases "OTACampaign (ca_ID c) s")
  case (Some v)
  have v: "ca_ID v = ca_ID c" using Some unfolding OTACampaign_def by (rule find_keyD)
  let ?c = "v\<lparr>ca_Devices := ca_Devices c\<rparr>"
  have s1: "same_shape v ?c" "same_shape c ?c" "same_shape c v" using assms(2)[OF Some] by (simp_all add: same_shape_def)
  have "own_campaign og s ?c" "own_campaign og s v"
    using own_campaign_step[OF assms(1) isolated_refl reach_kept_refl] s1 by blast+
  then have "isolated og s (share_devices c s)"
    using Some v by (intro own_set_isolated[of og s ?c]) (auto simp: share_devices_def)
  moreover have "reach_kept s (share_devices c s)"
    using Some v s1 by (intro reach_kept_campaign[of ?c]) (auto simp: share_devices_def)
  ultimately show ?thesis by simp
qed (simp add: share_devices_def)

lemma reach_kept_find:
  assumes "reach_kept s s'" "OTACampaign i s' = Some y"
  shows "\<exists>x. OTACampaign i s = Some x \<and> same_shape x y"
proof -
  have "list_all2 same_shape xs ys \<Longrightarrow> find (\<lambda>v. ca_ID v = i) ys = Some y \<Longrightarrow>
      \<exists>x. find (\<lambda>v. ca_ID v = i) xs = Some x \<and> same_shape x y" for xs ys
    by (induction rule: list_all2_induct) (auto simp: same_shape_def split: if_splits)
  then show ?thesis using assms unfolding reach_kept_def OTACampaign_def by blast
qed

lemma refresh_verdict_isolated:
  assumes "coherent s" "own_campaign og s c" "\<And>x. OTACampaign (ca_ID c) s = Some x \<Longrightarrow> same_shape x c"
    "refresh_verdict sh env k c s = (s', c', ch)"
  shows "isolated og s s' \<and> reach_kept s s' \<and> same_shape c c'"
proof -
  let ?c1 = "c\<lparr>ca_Devices := map (refreshed_device s) (ca_Devices c)\<rparr>"
  let ?s1 = "if sh then share_devices ?c1 s else s"
  let ?c2 = "?c1\<lparr>ca_Status := ''aborted'', ca_UpdatedAt := en_now env\<rparr>"
  have sh1: "same_shape c ?c1" by (rule refreshed_shape)
  have sh2: "same_shape c ?c2" using sh1 by (simp add: same_shape_def)
  have o1: "own_campaign og s ?c1" by (rule own_campaign_step[OF assms(2) isolated_refl reach_kept_refl sh1])
  have "isolated og s (share_devices ?c1 s) \<and> reach_kept s (share_devices ?c1 s)"
    by (rule share_devices_isolated[OF o1]) (use assms(3) same_shape_trans[OF _ sh1] in simp)
  then have s1: "isolated og s ?s1" "reach_kept s ?s1" by simp_all
  have o2: "own_campaign og ?s1 ?c2" by (rule own_campaign_step[OF assms(2) s1 sh2])
  have co: "coherent ?s1" using s1(2) assms(1) by (simp add: reach_kept_def)
  let ?s2 = "fst (clearInFlightCampaignOTA (en_now env) ?c2 ?s1)"
  have s2: "isolated og ?s1 ?s2" "reach_kept ?s1 ?s2"
    using clear_devices_isolated[OF co o2, of "ca_Devices ?c2" "en_now env"] by (simp_all add: clearInFlightCampaignOTA_def)
  have o3: "own_campaign og ?s2 ?c2" by (rule own_campaign_step[OF o2 s2 same_shape_refl])
  have s3: "isolated og ?s2 (fst (AddAlert a ?s2)) \<and> reach_kept ?s2 (fst (AddAlert a ?s2))"
    if "al_SiteID a = firstSite ?c2" "ca_Devices c \<noteq> []" for a
    using that firstSite_own[OF o3] by (intro AddAlert_own) simp
  have all: "isolated og s (fst (AddAlert a ?s2)) \<and> reach_kept s (fst (AddAlert a ?s2))"
    if "al_SiteID a = firstSite ?c2" "ca_Devices c \<noteq> []" for a
    using isolated_trans[OF s1(1) isolated_trans[OF s2(1)]] reach_kept_trans[OF s1(2) reach_kept_trans[OF s2(2)]] s3[OF that] by blast
  have sh3: "same_shape c (?c1\<lparr>ca_Status := x, ca_UpdatedAt := y\<rparr>)" for x y using sh1 by (simp add: same_shape_def)
  show ?thesis
    using assms(4) s1 sh1 sh3 all unfolding refresh_verdict_def Let_def by (auto split: if_split_asm)
qed

lemma refresh_isolated:
  assumes "coherent s" "own_campaign og s c" "\<And>x. OTACampaign (ca_ID c) s = Some x \<Longrightarrow> same_shape x c"
    "refreshOTACampaign sh env k c s = (s', c')"
  shows "isolated og s s' \<and> reach_kept s s' \<and> same_shape c c'"
proof (cases "ca_Status c \<noteq> ''running'' \<and> ca_Status c \<noteq> ''paused''")
  case True
  then show ?thesis using assms(4) by (simp add: refreshOTACampaign_def)
next
  case False
  obtain s1 c1 ch where v: "refresh_verdict sh env k c s = (s1, c1, ch)" by (metis prod_cases3)
  note a = refresh_verdict_isolated[OF assms(1-3) v]
  have i: "ca_ID c1 = ca_ID c" using a by (simp add: same_shape_def)
  show ?thesis
  proof (cases ch)
    case False
    then show ?thesis using assms(4) a v \<open>\<not> (ca_Status c \<noteq> ''running'' \<and> ca_Status c \<noteq> ''paused'')\<close>
      by (simp add: refreshOTACampaign_def)
  next
    case True
    obtain s2 e where u: "UpdateOTACampaign (ca_ID c1) (\<lambda>_. c1) s1 = (s2, e)" by fastforce
    have o: "own_campaign og s1 c1" using own_campaign_step[OF assms(2)] a by blast
    have "same_shape x c1" if x: "OTACampaign (ca_ID c1) s1 = Some x" for x
    proof -
      obtain y where "OTACampaign (ca_ID c) s = Some y" "same_shape y x" using reach_kept_find[of s s1] a x i by metis
      then show ?thesis using assms(3)[of y] a by (simp add: same_shape_def)
    qed
    note b = store_campaign[OF o this u]
    have "same_shape c l" if l: "OTACampaign (ca_ID c1) s2 = Some l" for l
    proof -
      have "reach_kept s s2" using a b reach_kept_trans by blast
      then obtain y where "OTACampaign (ca_ID c) s = Some y" "same_shape y l" using reach_kept_find l i by metis
      then show ?thesis using assms(3)[of y] by (simp add: same_shape_def)
    qed
    then have "same_shape c (case OTACampaign (ca_ID c1) s2 of None \<Rightarrow> c1 | Some l \<Rightarrow> l)"
      using a by (cases "OTACampaign (ca_ID c1) s2") simp_all
    moreover have "isolated og s s2" "reach_kept s s2" using a b isolated_trans reach_kept_trans by blast+
    ultimately show ?thesis
      using assms(4) v u True \<open>\<not> (ca_Status c \<noteq> ''running'' \<and> ca_Status c \<noteq> ''paused'')\<close>
      by (auto simp: refreshOTACampaign_def Let_def)
  qed
qed

text \<open>A wave: every target is at an own site.\<close>

lemma UpdateOTACampaign_state:
  assumes "UpdateOTACampaign i f s = (s', e)" "\<And>v. ca_ID v = i \<Longrightarrow> ca_ID (f v) = i"
  shows "\<exists>cs. st_state s' = (st_state s)\<lparr>OTACampaigns := cs\<rparr> \<and>
    (\<forall>c \<in> set cs. c \<in> set (OTACampaigns (st_state s)) \<or> (\<exists>x. OTACampaign i s = Some x \<and> c = f x)) \<and>
    (e = None \<longrightarrow> (\<exists>x. OTACampaign i s = Some x \<and> OTACampaign i s' = Some (f x)))"
proof (cases "OTACampaign i s")
  case None
  then have "s' = s" "e = Some SErrNotExist" using assms(1) by (simp_all add: UpdateOTACampaign_def update_entity_def OTACampaign_def)
  then show ?thesis by (intro exI[of _ "OTACampaigns (st_state s)"]) auto
next
  case (Some x)
  have x: "ca_ID x = i" "ca_ID (f x) = i" using Some assms(2) by (auto simp: OTACampaign_def dest: find_keyD)
  have ex: "\<exists>y \<in> set (OTACampaigns (st_state s)). ca_ID y = i" using Some unfolding OTACampaign_def by (rule find_exists)
  have m: "mutate (CampaignSet (f x)) s = (s', e)"
    using assms(1) Some by (simp add: UpdateOTACampaign_def update_entity_def OTACampaign_def)
  have "op_ok (CampaignSet (f x)) (st_seen s)" by (simp add: op_ok_def)
  then show ?thesis
  proof (cases rule: mutate_cases)
    case (fail e')
    then show ?thesis using m by (intro exI[of _ "OTACampaigns (st_state s)"]) auto
  next
    case applied
    then show ?thesis
      using m x Some find_replace_first_same[of ca_ID "f x" i, OF x(2) ex]
        set_replace_first[of "\<lambda>x. ca_ID x = i" "f x" "OTACampaigns (st_state s)"]
      by (intro exI[of _ "replace_first (\<lambda>x. ca_ID x = i) (f x) (OTACampaigns (st_state s))"])
        (auto simp: apply_state_def OTACampaign_def)
  qed
qed

lemma campaigns_only:
  assumes "st_state s' = (st_state s)\<lparr>OTACampaigns := cs\<rparr>"
  shows "twin_home s' = twin_home s" "campaign_home s' = campaign_home s"
proof -
  have "Device i s' = Device i s" "Twin i s' = Twin i s" for i using assms by (simp_all add: Device_def Twin_def)
  then show "twin_home s' = twin_home s" "campaign_home s' = campaign_home s"
    by (simp_all add: twin_home_def campaign_home_def fun_eq_iff)
qed

lemma coherent_store_campaign:
  assumes "coherent s" "UpdateOTACampaign i f s = (s', e)" "\<And>v. ca_ID v = i \<Longrightarrow> ca_ID (f v) = i"
    "\<And>x. OTACampaign i s = Some x \<Longrightarrow> campaign_home s (f x)"
  shows "coherent s'" "campaign_home s' = campaign_home s"
proof -
  obtain cs where cs: "st_state s' = (st_state s)\<lparr>OTACampaigns := cs\<rparr>"
      "\<forall>c \<in> set cs. c \<in> set (OTACampaigns (st_state s)) \<or> (\<exists>x. OTACampaign i s = Some x \<and> c = f x)"
    using UpdateOTACampaign_state[OF assms(2,3)] by blast
  show "campaign_home s' = campaign_home s" by (rule campaigns_only(2)[OF cs(1)])
  have "campaign_home s c" if "c \<in> set cs" for c using cs(2) that assms(1,4) by (auto simp: coherent_def)
  then show "coherent s'" using assms(1) cs(1) campaigns_only[OF cs(1)] by (simp add: coherent_def)
qed

lemma UpdateOTACampaign_isolated:
  assumes "UpdateOTACampaign i f s = (s', e)" "\<And>v. ca_ID v = i \<Longrightarrow> ca_ID (f v) = i"
    "\<And>x. OTACampaign i s = Some x \<Longrightarrow> \<not> foreign_campaign og s x \<and> \<not> foreign_campaign og s (f x)"
  shows "isolated og s s'"
  using assms(1) unfolding UpdateOTACampaign_def
proof (rule update_isolatedD)
  fix v assume v: "find (\<lambda>x. ca_ID x = i) (OTACampaigns (st_state s)) = Some v"
  then have "ca_ID v = i" by (rule find_keyD)
  then show "own_op og s (CampaignSet (f v))" using v assms(2,3) by (simp add: OTACampaign_def)
qed

lemma setDevice_twin:
  assumes "coherent s" "Device i s = Some dev" "setDeviceOTADesired now dev req s = (s', Inr tw)"
  shows "Twin i s' \<noteq> None"
proof -
  have d: "dev_ID dev = i" using assms(2) by (rule Device_ID)
  have i: "i \<noteq> []" using coherent_ids(2)[OF assms(1,2)] .
  have set_some: "\<exists>y. Twin i t' = Some y" if "mutate (TwinSet v) t = (t', None)" "tw_DeviceID v = i" for t t' v
  proof -
    have "op_ok (TwinSet v) (st_seen t)" by (simp add: op_ok_def)
    then show ?thesis
      using that by (cases rule: mutate_cases) (simp_all add: Twin_def apply_state_def find_upsert_same)
  qed
  have upd: "\<exists>y. Twin i s1 = Some y" if "UpdateTwin i f shared s = (s1, None)" "\<And>x. tw_DeviceID (f x) = i" for f shared s1
    using that i by (cases "Twin i s") (auto simp: UpdateTwin_def Let_def intro: set_some)
  show ?thesis
    using assms(3) by (auto simp: setDeviceOTADesired_def d Let_def dest!: upd split: sum.splits prod.splits option.splits)
qed

lemma wave_loop_isolated:
  assumes "coherent s" "own_campaign og s c" "wave_loop now need ts c s = (s', res)"
    "\<And>i d. i \<in> set ts \<Longrightarrow> Device i s = Some d \<Longrightarrow> dev_SiteID d \<noteq> [] \<and> org_at (dev_SiteID d) s = og"
  shows "isolated og s s' \<and> coherent s' \<and> OTACampaigns (st_state s') = OTACampaigns (st_state s) \<and>
    (\<forall>c'. res = Inr c' \<longrightarrow> ca_ID c' = ca_ID c \<and> own_campaign og s' c')"
  using assms
proof (induction ts arbitrary: need c s)
  case (Cons i ts)
  consider "need \<le> 0" | "0 < need" "i \<in> cd_DeviceID ` set (ca_Devices c)" | "0 < need" "i \<notin> cd_DeviceID ` set (ca_Devices c)" by linarith
  then show ?case
  proof cases
    case 1
    then show ?thesis using Cons.prems by auto
  next
    case 2
    then show ?thesis using Cons.IH[OF Cons.prems(1,2), of need] Cons.prems(3,4) by auto
  next
    case 3
    show ?thesis
    proof (cases "Device i s")
      case None
      then show ?thesis using 3 Cons.prems by auto
    next
      case (Some dev)
      let ?req = "\<lparr>rq_UpdateID = ca_ID c @ ''-'' @ i, rq_DeviceID = i, rq_SiteID = dev_SiteID dev, rq_Manifest = ca_Manifest c, rq_Policy = ca_Policy c\<rparr>"
      let ?c = "c\<lparr>ca_Devices := ca_Devices c @ [\<lparr>cd_DeviceID = i, cd_SiteID = dev_SiteID dev, cd_UpdateID = ca_ID c @ ''-'' @ i,
          cd_Stage = ca_CurrentStage c, cd_State = []\<rparr>]\<rparr>"
      have own: "dev_SiteID dev \<noteq> []" "org_at (dev_SiteID dev) s = og" using Cons.prems(4)[OF _ Some] by simp_all
      obtain s1 x where q: "setDeviceOTADesired now dev ?req s = (s1, x)" by fastforce
      have a: "isolated og s s1" using setDeviceOTADesired_isolated[OF Cons.prems(1) Some own(2), of now ?req] q by simp
      have ch: "twins_change i (\<lambda>t. tw_SiteID t = dev_SiteID dev) (st_state s) (st_state s1)"
        using setDeviceOTADesired_change[OF Cons.prems(1) Some, of now ?req] q by simp
      have k: "reach_kept s s1" by (rule reach_kept_twins[OF ch Some])
      have co: "coherent s1" using k Cons.prems(1) by (simp add: reach_kept_def)
      have cs: "OTACampaigns (st_state s1) = OTACampaigns (st_state s)"
      proof -
        have "st_state s1 = (st_state s)\<lparr>Twins := Twins (st_state s1)\<rparr>" using ch by (simp add: twins_change_def)
        from arg_cong[OF this, of OTACampaigns] show ?thesis by simp
      qed
      have D: "Device j s1 = Device j s" for j using k by (simp add: reach_kept_def Device_def)
      have O: "org_at j s1 = org_at j s" for j using a by (simp add: isolated_def)
      show ?thesis
      proof (cases x)
        case (Inl e)
        then show ?thesis using 3 Cons.prems(3) Some q a co cs by auto
      next
        case (Inr tw)
        have oc: "own_campaign og s1 c" by (rule own_campaign_step[OF Cons.prems(2) a k same_shape_refl])
        have "Twin i s1 \<noteq> None" using setDevice_twin[OF Cons.prems(1) Some] q Inr by simp
        moreover have "set (campaignSiteIDs ?c) = insert (dev_SiteID dev) (set (campaignSiteIDs c))"
          using own(1) by (auto simp: set_campaignSiteIDs)
        ultimately have oc2: "own_campaign og s1 ?c"
          using oc own O Some D by (auto simp: own_campaign_def foreign_campaign_def campaign_home_def)
        have wl: "wave_loop now (need - 1) ts ?c s1 = (s', res)"
          using Cons.prems(3) 3 Some q Inr by (simp add: Let_def)
        have pre: "dev_SiteID d \<noteq> [] \<and> org_at (dev_SiteID d) s1 = og" if "j \<in> set ts" "Device j s1 = Some d" for j d
          using Cons.prems(4)[of j d] that unfolding D O by simp
        have ih: "isolated og s1 s' \<and> coherent s' \<and> OTACampaigns (st_state s') = OTACampaigns (st_state s1) \<and>
            (\<forall>c'. res = Inr c' \<longrightarrow> ca_ID c' = ca_ID ?c \<and> own_campaign og s' c')"
          by (rule Cons.IH[OF co oc2 wl]) (rule pre)
        have "isolated og s s'" using isolated_trans[OF a] ih by blast
        moreover have "ca_ID ?c = ca_ID c" by simp
        ultimately show ?thesis using ih unfolding cs by metis
      qed
    qed
  qed
qed auto

subsection \<open>Lemmas: campaign handlers\<close>

lemma all_sites_mutate_scoped:
  assumes "scoped cfg now r og sv" "all_sites (callerCanMutateSite cfg now r) is sv = (sv', ok)"
  shows "sv_store sv' = sv_store sv \<and> scoped cfg now r og sv' \<and> (ok \<longleftrightarrow> (\<forall>i \<in> set is. i \<noteq> [] \<and> org_at i (sv_store sv) = og))"
  using assms
proof (induction "is" arbitrary: sv)
  case (Cons i "is")
  obtain sv1 b where c: "callerCanMutateSite cfg now r i sv = (sv1, b)" by fastforce
  note g = callerCanMutateSite_scoped[OF Cons.prems(1) c]
  show ?case
  proof (cases b)
    case True
    then have "all_sites (callerCanMutateSite cfg now r) is sv1 = (sv', ok)" using Cons.prems(2) c by simp
    from Cons.IH[OF g(2) this] show ?thesis using g(1,3) True by simp
  next
    case False
    then have "sv' = sv1" "\<not> ok" using Cons.prems(2) c by simp_all
    then show ?thesis using g False by auto
  qed
qed simp

lemma all_sites_see_scoped:
  assumes "scoped cfg now r og sv" "all_sites (callerCanSeeSite cfg now r) is sv = (sv', ok)"
  shows "sv_store sv' = sv_store sv \<and> (ok \<longleftrightarrow> (\<forall>i \<in> set is. i = [] \<or> org_at i (sv_store sv) = og))"
  using assms
proof (induction "is" arbitrary: sv)
  case (Cons i "is")
  obtain sv1 b where c: "callerCanSeeSite cfg now r i sv = (sv1, b)" by fastforce
  note g = callerCanSeeSite_scoped[OF Cons.prems(1) c]
  show ?case
  proof (cases b)
    case True
    then have "all_sites (callerCanSeeSite cfg now r) is sv1 = (sv', ok)" using Cons.prems(2) c by simp
    from Cons.IH[OF g(2) this] show ?thesis using g(1,3) True by simp
  next
    case False
    then have "sv' = sv1" "\<not> ok" using Cons.prems(2) c by simp_all
    then show ?thesis using g False by auto
  qed
qed simp

lemma campaign_sites_nonempty: "[] \<notin> set (campaignSiteIDs c)"
  by (simp add: set_campaignSiteIDs)

lemma OTACampaign_ID: "OTACampaign i s = Some c \<Longrightarrow> ca_ID c = i \<and> c \<in> set (OTACampaigns (st_state s))"
  by (auto simp: OTACampaign_def find_Some_iff dest: find_keyD)

lemma loadMutable_scoped:
  assumes "scoped cfg now r og sv" "coherent (sv_store sv)" "loadMutableCampaign cfg now r i sv = (sv', x)"
  shows "sv_store sv' = sv_store sv \<and>
    (\<forall>c. x = Some c \<longrightarrow> OTACampaign i (sv_store sv) = Some c \<and> own_campaign og (sv_store sv) c \<and> campaignSiteIDs c \<noteq> [])"
proof (cases "OTACampaign i (sv_store sv)")
  case None
  then show ?thesis using assms(3) by (simp add: loadMutableCampaign_def)
next
  case (Some c)
  obtain sv1 ok where m: "callerCanMutateCampaign cfg now r c sv = (sv1, ok)" by fastforce
  have h: "campaign_home (sv_store sv) c" using assms(2) OTACampaign_ID[OF Some] by (simp add: coherent_def)
  have "sv_store sv1 = sv_store sv \<and> (ok \<longrightarrow> campaignSiteIDs c \<noteq> [] \<and> (\<forall>i \<in> set (campaignSiteIDs c). org_at i (sv_store sv) = og))"
  proof (cases "campaignSiteIDs c = []")
    case True
    then have "ca_SiteIDs c = []" using h by (cases "ca_SiteIDs c") (auto simp: campaign_home_def dest!: arg_cong[of _ _ set] simp: set_campaignSiteIDs)
    then show ?thesis using True m callerCanMutateSite_scoped[OF assms(1), of "[]" sv1 ok] by (simp add: callerCanMutateCampaign_def)
  next
    case False
    then show ?thesis using m all_sites_mutate_scoped[OF assms(1), of "campaignSiteIDs c" sv1 ok] by (simp add: callerCanMutateCampaign_def)
  qed
  then show ?thesis
    using assms(3) Some m h by (auto simp: loadMutableCampaign_def own_campaign_def foreign_campaign_def split: if_splits)
qed

lemma launch_wave_isolated:
  assumes "coherent (sv_store sv)" "own_campaign og (sv_store sv) c"
    "\<And>x. OTACampaign (ca_ID c) (sv_store sv) = Some x \<Longrightarrow> \<not> foreign_campaign og (sv_store sv) x"
  shows "isolated og (sv_store sv) (sv_store (fst (launch_wave fc cfg env r act msg c sv)))"
proof -
  let ?s = "sv_store sv"
  obtain s1 res where w: "applyCampaignWave (en_now env) c ?s = (s1, res)" by fastforce
  have tg: "dev_SiteID d \<noteq> [] \<and> org_at (dev_SiteID d) ?s = og"
    if i: "i \<in> set (ca_TargetDeviceIDs c)" and d: "Device i ?s = Some d" for i d
  proof -
    have "dev_SiteID d \<in> set (campaignSiteIDs c)" using assms(2) i d by (auto simp: own_campaign_def campaign_home_def)
    then show ?thesis using campaign_sites_nonempty[of c] assms(2) by (auto simp: own_campaign_def foreign_campaign_def)
  qed
  have a: "isolated og ?s s1 \<and> coherent s1 \<and> OTACampaigns (st_state s1) = OTACampaigns (st_state ?s) \<and>
      (\<forall>c'. res = Inr c' \<longrightarrow> ca_ID c' = ca_ID c \<and> own_campaign og s1 c')"
  proof (cases "s1 = ?s \<and> (\<forall>c'. res = Inr c' \<longrightarrow> c' = c)")
    case True
    then show ?thesis using assms(1,2) by auto
  next
    case False
    then obtain need where "wave_loop (en_now env) need (ca_TargetDeviceIDs c) c ?s = (s1, res)"
      using w by (auto simp: applyCampaignWave_def Let_def split: if_splits)
    then show ?thesis by (rule wave_loop_isolated[OF assms(1,2)]) (rule tg)
  qed
  show ?thesis
  proof (cases res)
    case (Inl e)
    then show ?thesis using a w by (simp add: launch_wave_def)
  next
    case (Inr c1)
    obtain s2 e where u: "UpdateOTACampaign (ca_ID c1) (\<lambda>_. c1) s1 = (s2, e)" by fastforce
    have c1: "ca_ID c1 = ca_ID c" "own_campaign og s1 c1" using a Inr by simp_all
    have old: "\<not> foreign_campaign og s1 x" if "OTACampaign (ca_ID c1) s1 = Some x" for x
      using assms(3)[of x] that a c1(1) by (simp add: OTACampaign_def foreign_campaign_def isolated_def)
    have b: "isolated og s1 s2"
      by (rule UpdateOTACampaign_isolated[OF u]) (use old c1(2) in \<open>simp_all add: own_campaign_def\<close>)
    have co: "coherent s2" "campaign_home s2 = campaign_home s1"
      using coherent_store_campaign[OF _ u] a c1(2) by (simp_all add: own_campaign_def)
    show ?thesis
    proof (cases e)
      case (Some x)
      have "isolated og ?s s2" using isolated_trans a b by blast
      then show ?thesis using w Inr u Some by (simp add: launch_wave_def)
    next
      case None
      obtain s3 c2 where f: "refreshOTACampaign False env 1 c1 s2 = (s3, c2)" by fastforce
      have l: "OTACampaign (ca_ID c1) s2 = Some c1" using UpdateOTACampaign_state[OF u] None by auto
      have o: "own_campaign og s2 c1"
        using c1(2) co(2) b by (simp add: own_campaign_def foreign_campaign_def isolated_def)
      have "isolated og s2 s3" using refresh_isolated[OF co(1) o _ f] l by simp
      then have "isolated og ?s s3" using isolated_trans a b by blast
      then show ?thesis using w Inr u None f by (simp add: launch_wave_def)
    qed
  qed
qed

lemma add_site_ids_includes:
  "add_site_ids fc s is out = Inr out' \<Longrightarrow> set out \<subseteq> set out' \<and> set is \<subseteq> set out'"
  by (induction "is" arbitrary: out) (fastforce simp: add_site_id_def split: sum.splits if_splits)+

lemma add_device_sites_includes: "add_device_sites fc s ss is out = Inr out' \<Longrightarrow> set out \<subseteq> set out'"
  by (induction "is" arbitrary: out) (fastforce simp: add_site_id_def split: sum.splits if_splits)+

lemma resolve_includes: "resolveCampaignSiteIDs fc s c = Inr ids \<Longrightarrow> set (ca_SiteIDs c) \<subseteq> set ids"
  by (auto simp: resolveCampaignSiteIDs_def dest!: add_site_ids_includes add_device_sites_includes split: sum.splits)

lemma otaCampaignCreate_isolated:
  assumes "scoped cfg (en_now env) r og sv"
  shows "isolated og (sv_store sv) (sv_store (fst (otaCampaignCreate fc cfg env r input sv)))"
proof (cases input)
  case (Inr i)
  show ?thesis
  proof (cases "validateOTACampaignInput fc (campaign_of i) = None \<and> (\<exists>ids. resolveCampaignSiteIDs fc (sv_store sv) (campaign_of i) = Inr ids)")
    case True
    then obtain ids where ids: "resolveCampaignSiteIDs fc (sv_store sv) (campaign_of i) = Inr ids" by blast
    obtain sv1 ok where c: "all_sites (callerCanMutateSite cfg (en_now env) r) ids sv = (sv1, ok)" by fastforce
    note g = all_sites_mutate_scoped[OF assms c]
    have sub: "set (ca_SiteIDs (campaign_of i)) \<subseteq> set ids"
      using ids resolve_includes by blast
    have iso: "isolated og (sv_store sv) s2"
      if "AddOTACampaign v (sv_store sv) = (s2, e)" "ca_SiteIDs v = ca_SiteIDs (campaign_of i)" "ca_Devices v = []" ok for v s2 e
      using that g sub by (intro mutate_isolatedD[of "CampaignAdd v" "sv_store sv" s2 e])
        (auto simp: AddOTACampaign_def foreign_campaign_def set_campaignSiteIDs)
    let ?c = "(campaign_of i)\<lparr>ca_ID := gen_id ''otacamp'' (en_rand env 0), ca_Status := ''draft'', ca_CurrentStage := -1,
      ca_TargetDeviceIDs := [], ca_Devices := [], ca_CreatedAt := en_now env, ca_UpdatedAt := en_now env\<rparr>"
    obtain s2 e where a: "AddOTACampaign ?c (sv_store sv) = (s2, e)" by fastforce
    have st: "sv_store sv1 = sv_store sv" using g by blast
    have v: "validateOTACampaignInput fc (campaign_of i) = None" using True by blast
    show ?thesis
    proof (cases ok)
      case False
      then show ?thesis using v ids c st by (simp add: otaCampaignCreate_def Inr)
    next
      case True
      have "isolated og (sv_store sv) s2" by (rule iso[OF a]) (use True in simp_all)
      then show ?thesis using v ids c st True a by (cases e) (simp_all add: otaCampaignCreate_def Inr Let_def)
    qed
  next
    case False
    then show ?thesis by (auto simp: otaCampaignCreate_def Inr Let_def split: option.split sum.split)
  qed
qed (simp add: otaCampaignCreate_def)

lemma otaCampaignGet_isolated:
  assumes "scoped cfg (en_now env) r og sv" "coherent (sv_store sv)"
  shows "isolated og (sv_store sv) (sv_store (fst (otaCampaignGet cfg env r i sv)))"
proof (cases "OTACampaign i (sv_store sv)")
  case (Some c)
  obtain sv1 ok where g: "callerCanSeeCampaign cfg (en_now env) r c sv = (sv1, ok)" by fastforce
  have h: "campaign_home (sv_store sv) c" "ca_ID c = i" using assms(2) OTACampaign_ID[OF Some] by (simp_all add: coherent_def)
  have g': "sv_store sv1 = sv_store sv \<and> (ok \<longrightarrow> own_campaign og (sv_store sv) c)"
    using all_sites_see_scoped[OF assms(1) g[unfolded callerCanSeeCampaign_def]] h campaign_sites_nonempty[of c]
    by (auto simp: own_campaign_def foreign_campaign_def)
  obtain s2 c2 where f: "refreshOTACampaign True env 0 c (sv_store sv) = (s2, c2)" by fastforce
  have "isolated og (sv_store sv) s2" if ok
    using refresh_isolated[OF assms(2) _ _ f] g' that Some h by simp
  then show ?thesis using g g' f Some by (cases ok) (simp_all add: otaCampaignGet_def)
qed (simp add: otaCampaignGet_def)

lemma otaCampaignPromote_isolated:
  assumes "scoped cfg (en_now env) r og sv" "coherent (sv_store sv)"
  shows "isolated og (sv_store sv) (sv_store (fst (otaCampaignPromote fc cfg env r i sv)))"
proof -
  obtain sv1 x where l: "loadMutableCampaign cfg (en_now env) r i sv = (sv1, x)" by fastforce
  note g = loadMutable_scoped[OF assms l]
  show ?thesis
  proof (cases x)
    case None
    then show ?thesis using g l by (simp add: otaCampaignPromote_def)
  next
    case (Some c)
    have c: "OTACampaign (ca_ID c) (sv_store sv) = Some c" "own_campaign og (sv_store sv) c"
      using g Some OTACampaign_ID[of i "sv_store sv" c] by simp_all
    obtain s2 c2 where f: "refreshOTACampaign True env 0 c (sv_store sv) = (s2, c2)" by fastforce
    have a: "isolated og (sv_store sv) s2" "reach_kept (sv_store sv) s2" "same_shape c c2"
      using refresh_isolated[OF assms(2) c(2) _ f] c(1) by simp_all
    let ?sv = "sv1\<lparr>sv_store := s2\<rparr>" and ?c = "c2\<lparr>ca_CurrentStage := ca_CurrentStage c2 + 1, ca_UpdatedAt := en_now env\<rparr>"
    have co: "coherent s2" using a(2) assms(2) by (simp add: reach_kept_def)
    have sh: "same_shape c ?c" using a(3) by (simp add: same_shape_def)
    have o: "own_campaign og s2 ?c" by (rule own_campaign_step[OF c(2) a(1,2) sh])
    have old: "\<not> foreign_campaign og s2 y" if y: "OTACampaign (ca_ID ?c) s2 = Some y" for y
    proof -
      have "ca_ID ?c = ca_ID c" using sh by (simp add: same_shape_def)
      then obtain z where "OTACampaign (ca_ID c) (sv_store sv) = Some z" "same_shape z y" using reach_kept_find[OF a(2)] y by metis
      then have "own_campaign og s2 y" using own_campaign_step[OF c(2) a(1,2)] c(1) by simp
      then show ?thesis by (simp add: own_campaign_def)
    qed
    have "isolated og s2 (sv_store (fst (launch_wave fc cfg env r ''ota.campaign.promote'' ''OTA campaign promoted: '' ?c ?sv)))"
      using launch_wave_isolated[of ?sv og ?c fc cfg env r] co o old by simp
    then show ?thesis
      using l Some f a(1) isolated_trans[OF a(1)] g by (simp add: otaCampaignPromote_def Let_def)
  qed
qed

text \<open>Pause, resume and abort change the status; resume then refreshes, abort first withdraws.\<close>

lemma status_update_isolated:
  assumes "coherent s" "OTACampaign i s = Some c" "own_campaign og s c"
    "UpdateOTACampaign i (\<lambda>v. v\<lparr>ca_Status := x, ca_UpdatedAt := t\<rparr>) s = (s', e)"
  shows "isolated og s s' \<and> coherent s' \<and> campaign_home s' = campaign_home s \<and>
    (e = None \<longrightarrow> OTACampaign i s' = Some (c\<lparr>ca_Status := x, ca_UpdatedAt := t\<rparr>))"
proof -
  let ?f = "\<lambda>v :: campaign. v\<lparr>ca_Status := x, ca_UpdatedAt := t\<rparr>"
  have sh: "same_shape v (?f v)" for v by (simp add: same_shape_def)
  have o: "own_campaign og s (?f c)" by (rule own_campaign_step[OF assms(3) isolated_refl reach_kept_refl sh])
  have "isolated og s s'"
    by (rule UpdateOTACampaign_isolated[OF assms(4)]) (use assms(2,3) o in \<open>simp_all add: own_campaign_def\<close>)
  moreover have "coherent s'" "campaign_home s' = campaign_home s"
    using coherent_store_campaign[OF assms(1,4)] assms(2) o by (simp_all add: own_campaign_def)
  moreover have "e = None \<longrightarrow> OTACampaign i s' = Some (?f c)"
    using UpdateOTACampaign_state[OF assms(4)] assms(2) by auto
  ultimately show ?thesis by blast
qed

lemma otaCampaignPause_isolated:
  assumes "scoped cfg (en_now env) r og sv" "coherent (sv_store sv)"
  shows "isolated og (sv_store sv) (sv_store (fst (otaCampaignPause cfg env r i sv)))"
proof -
  obtain sv1 x where l: "loadMutableCampaign cfg (en_now env) r i sv = (sv1, x)" by fastforce
  note g = loadMutable_scoped[OF assms l]
  show ?thesis
  proof (cases x)
    case None
    then show ?thesis using g l by (simp add: otaCampaignPause_def)
  next
    case (Some c)
    then have c: "OTACampaign i (sv_store sv) = Some c" "own_campaign og (sv_store sv) c" "ca_ID c = i"
      using g OTACampaign_ID[of i "sv_store sv" c] by simp_all
    obtain s2 e where u: "UpdateOTACampaign i (\<lambda>v. v\<lparr>ca_Status := ''paused'', ca_UpdatedAt := en_now env\<rparr>) (sv_store sv) = (s2, e)" by fastforce
    have "isolated og (sv_store sv) s2" using status_update_isolated[OF assms(2) c(1,2) u] by blast
    then show ?thesis using l Some g c(3) u by (cases e) (simp_all add: otaCampaignPause_def Let_def)
  qed
qed

lemma otaCampaignResume_isolated:
  assumes "scoped cfg (en_now env) r og sv" "coherent (sv_store sv)"
  shows "isolated og (sv_store sv) (sv_store (fst (otaCampaignResume cfg env r i sv)))"
proof -
  obtain sv1 x where l: "loadMutableCampaign cfg (en_now env) r i sv = (sv1, x)" by fastforce
  note g = loadMutable_scoped[OF assms l]
  show ?thesis
  proof (cases x)
    case None
    then show ?thesis using g l by (simp add: otaCampaignResume_def)
  next
    case (Some c)
    then have c: "OTACampaign i (sv_store sv) = Some c" "own_campaign og (sv_store sv) c" "ca_ID c = i"
      using g OTACampaign_ID[of i "sv_store sv" c] by simp_all
    let ?c = "c\<lparr>ca_Status := ''running'', ca_UpdatedAt := en_now env\<rparr>"
    obtain s2 e where u: "UpdateOTACampaign i (\<lambda>v. v\<lparr>ca_Status := ''running'', ca_UpdatedAt := en_now env\<rparr>) (sv_store sv) = (s2, e)" by fastforce
    note a = status_update_isolated[OF assms(2) c(1,2) u]
    obtain s3 c3 where f: "refreshOTACampaign False env 0 ?c s2 = (s3, c3)" by fastforce
    have "same_shape c ?c" by (simp add: same_shape_def)
    then have "own_campaign og (sv_store sv) ?c" using own_campaign_step[OF c(2) isolated_refl reach_kept_refl] by blast
    then have o: "own_campaign og s2 ?c" using a by (simp add: own_campaign_def foreign_campaign_def isolated_def)
    have "isolated og s2 s3" if "e = None" using refresh_isolated[OF _ o _ f] a that c(3) by simp
    then have "isolated og (sv_store sv) s3" if "e = None" using isolated_trans[of og "sv_store sv" s2 s3] a that by blast
    then show ?thesis using l Some g c(3) u f a by (cases e) (simp_all add: otaCampaignResume_def Let_def)
  qed
qed

lemma otaCampaignAbort_isolated:
  assumes "scoped cfg (en_now env) r og sv" "coherent (sv_store sv)"
  shows "isolated og (sv_store sv) (sv_store (fst (otaCampaignAbort cfg env r i sv)))"
proof -
  obtain sv1 x where l: "loadMutableCampaign cfg (en_now env) r i sv = (sv1, x)" by fastforce
  note g = loadMutable_scoped[OF assms l]
  show ?thesis
  proof (cases x)
    case None
    then show ?thesis using g l by (simp add: otaCampaignAbort_def)
  next
    case (Some c)
    then have c: "OTACampaign i (sv_store sv) = Some c" "own_campaign og (sv_store sv) c" "ca_ID c = i"
      using g OTACampaign_ID[of i "sv_store sv" c] by simp_all
    let ?c = "c\<lparr>ca_Status := ''aborted'', ca_UpdatedAt := en_now env\<rparr>"
    obtain s2 n where w: "clearInFlightCampaignOTA (en_now env) ?c (sv_store sv) = (s2, n)" by fastforce
    have a: "isolated og (sv_store sv) s2" "reach_kept (sv_store sv) s2"
      using clear_devices_isolated[OF assms(2) c(2), of "ca_Devices c" "en_now env"] w by (simp_all add: clearInFlightCampaignOTA_def)
    obtain s3 e where u: "UpdateOTACampaign i (\<lambda>v. v\<lparr>ca_Status := ''aborted'', ca_UpdatedAt := en_now env\<rparr>) s2 = (s3, e)" by fastforce
    have co: "coherent s2" using a(2) assms(2) by (simp add: reach_kept_def)
    have "isolated og s2 s3"
    proof (cases "OTACampaign i s2")
      case None
      then show ?thesis using u by (simp add: UpdateOTACampaign_def update_entity_def OTACampaign_def)
    next
      case (Some y)
      then have "same_shape c y" using reach_kept_find[OF a(2) Some] c(1) by auto
      then have "own_campaign og s2 y" by (rule own_campaign_step[OF c(2) a])
      then show ?thesis using status_update_isolated[OF co Some _ u] by blast
    qed
    then have "isolated og (sv_store sv) s3" using isolated_trans[OF a(1)] by blast
    then show ?thesis using l Some g c(3) w u by (cases e) (simp_all add: otaCampaignAbort_def Let_def)
  qed
qed

text \<open>The targets of a starting campaign are at its sites.\<close>

lemma add_targets_home:
  assumes "add_targets fc s ss is out = Inr out'" "ss \<noteq> []"
    "\<forall>i \<in> set out. \<forall>d. Device i s = Some d \<longrightarrow> dev_SiteID d \<in> set ss"
  shows "\<forall>i \<in> set out'. \<forall>d. Device i s = Some d \<longrightarrow> dev_SiteID d \<in> set ss"
  using assms
proof (induction "is" arbitrary: out)
  case (Cons i js)
  obtain dev where dev: "campaign_device_ok fc s ss i = Inr dev"
    using Cons.prems(1) by (cases "campaign_device_ok fc s ss i") simp_all
  then have d: "Device i s = Some dev" "dev_SiteID dev \<in> set ss"
    using Cons.prems(2) by (auto simp: campaign_device_ok_def split: option.splits if_splits)
  let ?o = "if dev_ID dev \<in> set out then out else out @ [dev_ID dev]"
  have "\<forall>j \<in> set ?o. \<forall>x. Device j s = Some x \<longrightarrow> dev_SiteID x \<in> set ss"
  proof (intro ballI allI impI)
    fix j x assume j: "j \<in> set ?o" "Device j s = Some x"
    show "dev_SiteID x \<in> set ss"
    proof (cases "j = i")
      case True
      then show ?thesis using j(2) d by simp
    next
      case False
      then have "j \<in> set out" using j(1) Device_ID[OF d(1)] by (simp split: if_splits)
      then show ?thesis using Cons.prems(3) j(2) by blast
    qed
  qed
  moreover have "add_targets fc s ss js ?o = Inr out'" using Cons.prems(1) dev by simp
  ultimately show ?case using Cons.IH[of ?o] Cons.prems(2) by blast
qed simp

lemma fold_targets_set:
  "set (foldl (\<lambda>out dev. if dev_SiteID dev \<in> S \<and> dev_ID dev \<notin> set out then out @ [dev_ID dev] else out) out ds) =
     set out \<union> dev_ID ` {d \<in> set ds. dev_SiteID d \<in> S}"
  by (induction ds arbitrary: out) auto

lemma resolve_targets_home:
  assumes "resolveCampaignTargets fc s c = Inr ts" "ca_SiteIDs c \<noteq> []" "distinct (map dev_ID (Devices (st_state s)))"
    "i \<in> set ts" "Device i s = Some d"
  shows "dev_SiteID d \<in> set (ca_SiteIDs c)"
proof (cases "ca_DeviceIDs c = []")
  case True
  then obtain x where x: "x \<in> set (Devices (st_state s))" "dev_SiteID x \<in> set (ca_SiteIDs c)" "dev_ID x = i"
    using assms(1,4) by (auto simp: resolveCampaignTargets_def fold_targets_set)
  have "d \<in> set (Devices (st_state s))" "dev_ID d = i"
    using assms(5) Device_ID[OF assms(5)] by (auto simp: Device_def find_Some_iff)
  moreover have "inj_on dev_ID (set (Devices (st_state s)))" using assms(3) by (simp add: distinct_map)
  ultimately have "d = x" using x(1,3) by (simp add: inj_on_def)
  then show ?thesis using x by simp
next
  case False
  then obtain out where "add_targets fc s (ca_SiteIDs c) (ca_DeviceIDs c) [] = Inr out" "ts = sort out"
    using assms(1) by (auto simp: resolveCampaignTargets_def split: sum.splits)
  then show ?thesis using add_targets_home[of fc s "ca_SiteIDs c" "ca_DeviceIDs c" "[]" out] assms(2,4,5) by simp
qed

text \<open>No two devices share an ID, and a draft has not reached any device yet.\<close>

definition drafts_fresh :: "store \<Rightarrow> bool" where
  "drafts_fresh s \<longleftrightarrow> distinct (map dev_ID (Devices (st_state s))) \<and>
     (\<forall>c \<in> set (OTACampaigns (st_state s)). ca_Status c = ''draft'' \<longrightarrow> ca_Devices c = [])"

lemma otaCampaignStart_isolated:
  assumes "scoped cfg (en_now env) r og sv" "coherent (sv_store sv)" "drafts_fresh (sv_store sv)"
  shows "isolated og (sv_store sv) (sv_store (fst (otaCampaignStart fc cfg env r i sv)))"
proof -
  obtain sv1 x where l: "loadMutableCampaign cfg (en_now env) r i sv = (sv1, x)" by fastforce
  note g = loadMutable_scoped[OF assms(1,2) l]
  show ?thesis
  proof (cases x)
    case None
    then show ?thesis using g l by (simp add: otaCampaignStart_def)
  next
    case (Some c)
    have c: "OTACampaign i (sv_store sv) = Some c" "own_campaign og (sv_store sv) c" "campaignSiteIDs c \<noteq> []" "ca_ID c = i"
      and st: "sv_store sv1 = sv_store sv"
      using g Some OTACampaign_ID[of i "sv_store sv" c] by simp_all
    show ?thesis
    proof (cases "ca_Status c = ''draft'' \<and> (\<exists>ts. resolveCampaignTargets fc (sv_store sv) c = Inr ts)")
      case True
      then obtain ts where d: "ca_Status c = ''draft''" and ts: "resolveCampaignTargets fc (sv_store sv) c = Inr ts" by blast
      have "c \<in> set (OTACampaigns (st_state (sv_store sv)))" using c(1) by (auto simp: OTACampaign_def find_Some_iff)
      then have e: "ca_Devices c = []" using assms(3) d by (simp add: drafts_fresh_def)
      let ?c = "c\<lparr>ca_TargetDeviceIDs := ts, ca_CurrentStage := 0, ca_Status := ''running'', ca_UpdatedAt := en_now env\<rparr>"
      have s: "set (campaignSiteIDs c) = set (ca_SiteIDs c)" "set (campaignSiteIDs ?c) = set (ca_SiteIDs c)"
        using e c(2) by (auto simp: set_campaignSiteIDs own_campaign_def campaign_home_def)
      then have n: "ca_SiteIDs c \<noteq> []" using c(3) by auto
      have "own_campaign og (sv_store sv) ?c"
        using c(2) e s resolve_targets_home[OF ts n] assms(3)
        by (auto simp: own_campaign_def campaign_home_def foreign_campaign_def drafts_fresh_def)
      then have "isolated og (sv_store sv)
          (sv_store (fst (launch_wave fc cfg env r ''ota.campaign.start'' ''OTA campaign started: '' ?c sv1)))"
        using launch_wave_isolated[of sv1 og ?c fc cfg env r] assms(2) c st by (simp add: own_campaign_def)
      then show ?thesis using l Some d ts st by (simp add: otaCampaignStart_def)
    next
      case False
      then show ?thesis using l Some st by (auto simp: otaCampaignStart_def split: sum.split)
    qed
  qed
qed

lemma handle_request_isolated:
  assumes "scoped cfg (en_now env) r og sv" "coherent (sv_store sv)" "drafts_fresh (sv_store sv)"
  shows "isolated og (sv_store sv) (sv_store (handle_request fc cfg env r q sv))"
  using assms
  by (cases q) (simp_all add: handle_request_def routeCreate_isolated routeDelete_isolated twinDesired_isolated
      siteRevoke_isolated orgCreate_isolated orgDelete_isolated alertResolve_isolated deploymentCreate_isolated
      deploymentPatch_isolated deploymentDelete_isolated policyPackCreate_isolated policyPackPatch_isolated
      policyPackDelete_isolated otaDeviceRequest_isolated otaCampaignCreate_isolated otaCampaignGet_isolated
      otaCampaignStart_isolated otaCampaignPromote_isolated otaCampaignPause_isolated otaCampaignResume_isolated
      otaCampaignAbort_isolated)

lemma admin_touched_cases:
  assumes "ss_ok (sv_sessions sv)"
  shows "\<exists>sv1. touched (en_now env) sv sv1 \<and> (fst (admin cfg env r h sv) = sv1 \<or> admin cfg env r h sv = h sv1)"
proof -
  obtain sv1 role where r: "roleForBearer cfg (en_now env) (bearer r) sv = (sv1, role)" by fastforce
  then have "touched (en_now env) sv sv1" using roleForBearer_touched[OF assms, of "en_now env" cfg "bearer r"] by simp
  moreover have "fst (admin cfg env r h sv) = sv1 \<or> admin cfg env r h sv = h sv1 \<or> admin cfg env r h sv = h sv"
    using r by (simp add: admin_def)
  ultimately show ?thesis using touched_refl[OF assms] by blast
qed

subsection \<open>Property\<close>


text \<open>Two organisations; the site with a route belongs to the other one than the token.\<close>

definition tenant_fleet :: fleet_cfg where
  "tenant_fleet = \<lparr>fc_ca = None, fc_PublicBaseURL = [], fc_CertExpiryWarnBefore = 0, fc_ParseRequestURI = (\<lambda>u. Some (''https'', u)),
     fc_Quote = (\<lambda>s. s), fc_RFC3339 = (\<lambda>_. []), fc_DurationError = (\<lambda>s. s)\<rparr>"

definition tenant_server :: server where
  "tenant_server = demo_server\<lparr>sv_store := (sv_store demo_server)\<lparr>st_state := (st_state (sv_store demo_server))
     \<lparr>Sites := [demo_site\<lparr>site_ID := ''s1'', site_OrgID := ''org2''\<rparr>, demo_site\<lparr>site_ID := ''s2'', site_OrgID := ''org1''\<rparr>],
      Routes := [demo_route\<lparr>rt_ID := ''rt1'', rt_SiteID := ''s1''\<rparr>, demo_route\<lparr>rt_ID := ''rt2'', rt_SiteID := ''s2''\<rparr>]\<rparr>\<rparr>\<rparr>"


end
