(* ===== verification/Modbus.thy ===== *)
theory Modbus
  imports Mqtt_Codec Model
begin

unbundle bit_operations_syntax

text \<open>
  The Modbus connector, \<^verbatim>\<open>connectors/modbus\<close>: the checksum and frames of the serial line
  (\<^verbatim>\<open>rtu.go\<close>), the client for TCP (\<^verbatim>\<open>client.go\<close>), and the poller that turns registers into events
  (\<^verbatim>\<open>poller.go\<close>), with the event type of \<^verbatim>\<open>pkg/connector\<close>.

  What a port or a connection does is an argument: the list of what each write and each read
  returns.  A read returns at most the bytes asked for; a list that ends stands for a device that
  stays silent until the deadline.
\<close>

subsection \<open>Checksum\<close>

definition crc_bit :: "16 word \<Rightarrow> 16 word" where
  "crc_bit c = (if c AND 1 \<noteq> 0 then drop_bit 1 c XOR 0xa001 else drop_bit 1 c)"

definition crc_byte :: "16 word \<Rightarrow> 8 word \<Rightarrow> 16 word" where
  "crc_byte c b = (crc_bit ^^ 8) (c XOR ucast b)"

definition crc16 :: "bytes \<Rightarrow> 16 word" where
  "crc16 data = foldl crc_byte 0xffff data"

definition appendCRC :: "bytes \<Rightarrow> bytes" where
  "appendCRC fr = (let crc = crc16 fr in fr @ [ucast crc, ucast (drop_bit 8 crc)])"

definition validCRC :: "bytes \<Rightarrow> bool" where
  "validCRC fr =
     (let n = length fr
      in 3 \<le> n \<and>
         crc16 (take (n - 2) fr) = ucast (fr ! (n - 2)) OR push_bit 8 (ucast (fr ! (n - 1))))"

subsection \<open>Serial line\<close>

datatype modbus_error =
    BadQuantity | BadResponse | ModbusException "8 word" | BadReadReply | BadWriteReply | EchoMismatch
  | DeviceRequired | ReadTimeout | WriteTimeout | CRCMismatch
  | BadTransaction | BadLength nat | BadException | IOError string

datatype port_write = WCancelled string | WDeadline | Wrote nat "string option"
datatype port_read = RCancelled string | RDeadline | Got bytes "string option"

text \<open>\<^verbatim>\<open>writeAll\<close> gives what reached the line and the error.\<close>

fun writeAll :: "port_write list \<Rightarrow> bytes \<Rightarrow> bytes \<times> modbus_error option" where
  "writeAll ws [] = ([], None)"
| "writeAll [] (b # bs) = ([], Some WriteTimeout)"
| "writeAll (WCancelled e # ws) (b # bs) = ([], Some (IOError e))"
| "writeAll (WDeadline # ws) (b # bs) = ([], Some WriteTimeout)"
| "writeAll (Wrote n err # ws) (b # bs) =
     (case err of
        Some e \<Rightarrow> (take n (b # bs), Some (IOError e))
      | None \<Rightarrow> (case writeAll ws (drop n (b # bs)) of (sent, r) \<Rightarrow> (take n (b # bs) @ sent, r)))"

text \<open>The loop of \<^verbatim>\<open>roundTrip\<close>: once an exception is recognised only its five bytes are expected.\<close>

definition is_exception :: "bytes \<Rightarrow> bool" where
  "is_exception response \<longleftrightarrow> 3 \<le> length response \<and> response ! 1 AND 0x80 \<noteq> 0"

fun read_frame :: "nat \<Rightarrow> port_read list \<Rightarrow> nat \<Rightarrow> bytes \<Rightarrow> modbus_error + bytes" where
  "read_frame cap [] expected response = (if expected \<le> length response then Inr response else Inl ReadTimeout)"
| "read_frame cap (r # rs) expected response =
     (if expected \<le> length response then Inr response
      else case r of
        RCancelled e \<Rightarrow> Inl (IOError e)
      | RDeadline \<Rightarrow> Inl ReadTimeout
      | Got bs err \<Rightarrow>
          (let got = take (min cap (expected - length response)) bs;
               response' = response @ got;
               expected' = (if got \<noteq> [] \<and> is_exception response' then 5 else expected)
           in case err of Some e \<Rightarrow> Inl (IOError e) | None \<Rightarrow> read_frame cap rs expected' response'))"

record rtu_client =
  ru_Device :: string
  ru_UnitID :: "8 word"
  ru_Baud :: int
  ru_DataBits :: int
  ru_Parity :: string
  ru_StopBits :: int
  ru_Timeout :: duration

record port_run =
  pr_open :: "string option"
  pr_writes :: "port_write list"
  pr_reads :: "port_read list"

definition rtu_timeout :: "rtu_client \<Rightarrow> duration" where
  "rtu_timeout c = (if ru_Timeout c \<le> 0 then 3 * second else ru_Timeout c)"

definition rtu_roundTrip :: "rtu_client \<Rightarrow> port_run \<Rightarrow> bytes \<Rightarrow> nat \<Rightarrow> modbus_error + bytes" where
  "rtu_roundTrip c p request expected =
     (if ru_Device c = [] then Inl DeviceRequired
      else case pr_open p of
        Some e \<Rightarrow> Inl (IOError e)
      | None \<Rightarrow>
          (case writeAll (pr_writes p) request of
             (_, Some e) \<Rightarrow> Inl e
           | (_, None) \<Rightarrow>
               (case read_frame expected (pr_reads p) expected [] of
                  Inl e \<Rightarrow> Inl e
                | Inr response \<Rightarrow> if \<not> validCRC response then Inl CRCMismatch else Inr response)))"

definition register :: "bytes \<Rightarrow> nat \<Rightarrow> nat \<Rightarrow> 16 word" where
  "register body off i = be16 (body ! (off + i * 2)) (body ! (off + i * 2 + 1))"

definition rtu_read_request :: "rtu_client \<Rightarrow> 16 word \<Rightarrow> 16 word \<Rightarrow> bytes" where
  "rtu_read_request c address quantity =
     appendCRC ([ru_UnitID c, 0x03] @ bytes16 (unat address) @ bytes16 (unat quantity))"

definition rtu_ReadHoldingRegisters :: "rtu_client \<Rightarrow> port_run \<Rightarrow> 16 word \<Rightarrow> 16 word \<Rightarrow> modbus_error + 16 word list" where
  "rtu_ReadHoldingRegisters c p address quantity =
     (if quantity = 0 \<or> 125 < quantity then Inl BadQuantity
      else case rtu_roundTrip c p (rtu_read_request c address quantity) (5 + unat quantity * 2) of
        Inl e \<Rightarrow> Inl e
      | Inr response \<Rightarrow>
          if length response < 5 \<or> response ! 0 \<noteq> ru_UnitID c then Inl BadResponse
          else if response ! 1 AND 0x80 \<noteq> 0 then Inl (ModbusException (response ! 2))
          else if response ! 1 \<noteq> 0x03 \<or> unat (response ! 2) \<noteq> unat quantity * 2 then Inl BadReadReply
          else Inr (map (register response 3) [0..<unat quantity]))"

definition rtu_write_request :: "rtu_client \<Rightarrow> 16 word \<Rightarrow> 16 word \<Rightarrow> bytes" where
  "rtu_write_request c address value =
     appendCRC ([ru_UnitID c, 0x06] @ bytes16 (unat address) @ bytes16 (unat value))"

definition rtu_WriteSingleRegister :: "rtu_client \<Rightarrow> port_run \<Rightarrow> 16 word \<Rightarrow> 16 word \<Rightarrow> modbus_error option" where
  "rtu_WriteSingleRegister c p address value =
     (case rtu_roundTrip c p (rtu_write_request c address value) 8 of
        Inl e \<Rightarrow> Some e
      | Inr response \<Rightarrow>
          if length response \<noteq> 8 \<or> response ! 0 \<noteq> ru_UnitID c then Some BadWriteReply
          else if response ! 1 AND 0x80 \<noteq> 0 then Some (ModbusException (response ! 2))
          else if response ! 1 \<noteq> 0x06 \<or> be16 (response ! 2) (response ! 3) \<noteq> address \<or> be16 (response ! 4) (response ! 5) \<noteq> value
          then Some EchoMismatch else None)"

subsection \<open>TCP\<close>

record tcp_client =
  tc_Address :: string
  tc_UnitID :: "8 word"
  tc_Timeout :: duration
  tc_tx :: "32 word"

text \<open>A connection: an error of the context or of dialling, an error of the write, the bytes the peer
  sends before it closes or the deadline passes, and the error a read then gives.\<close>

record tcp_run =
  tr_dial :: "string option"
  tr_write :: "string option"
  tr_stream :: bytes
  tr_end :: string

definition tcp_deadline :: "tcp_client \<Rightarrow> time \<Rightarrow> time option \<Rightarrow> time" where
  "tcp_deadline c now ctx =
     (let d = (if tc_Timeout c \<le> 0 then now + 5 * second else now + tc_Timeout c)
      in case ctx of Some cd \<Rightarrow> (if cd < d then cd else d) | None \<Rightarrow> d)"

definition mbap :: "16 word \<Rightarrow> 8 word \<Rightarrow> bytes \<Rightarrow> bytes" where
  "mbap tx unit pdu = bytes16 (unat tx) @ [0, 0] @ bytes16 (1 + length pdu) @ [unit] @ pdu"

definition tcp_reply :: "16 word \<Rightarrow> string \<Rightarrow> bytes \<Rightarrow> modbus_error + bytes" where
  "tcp_reply tx eof s =
     (if length s < 7 then Inl (IOError eof)
      else if be16 (s ! 0) (s ! 1) \<noteq> tx \<or> be16 (s ! 2) (s ! 3) \<noteq> 0 then Inl BadTransaction
      else
        (let n = unat (be16 (s ! 4) (s ! 5))
         in if n < 2 \<or> 260 < n then Inl (BadLength n)
            else if length s < 7 + (n - 1) then Inl (IOError eof)
            else
              (let body = take (n - 1) (drop 7 s)
               in if body ! 0 AND 0x80 \<noteq> 0 then Inl (if length body < 2 then BadException else ModbusException (body ! 1))
                  else Inr body)))"

definition tcp_roundTrip :: "tcp_run \<Rightarrow> bytes \<Rightarrow> tcp_client \<Rightarrow> tcp_client \<times> (modbus_error + bytes)" where
  "tcp_roundTrip n pdu c =
     (case tr_dial n of
        Some e \<Rightarrow> (c, Inl (IOError e))
      | None \<Rightarrow>
          (let c' = c\<lparr>tc_tx := tc_tx c + 1\<rparr>
           in case tr_write n of
                Some e \<Rightarrow> (c', Inl (IOError e))
              | None \<Rightarrow> (c', tcp_reply (ucast (tc_tx c')) (tr_end n) (tr_stream n))))"

text \<open>The bytes \<^verbatim>\<open>roundTrip\<close> writes.\<close>

definition tcp_request :: "bytes \<Rightarrow> tcp_client \<Rightarrow> bytes" where
  "tcp_request pdu c = mbap (ucast (tc_tx c + 1)) (tc_UnitID c) pdu"

definition tcp_ReadHoldingRegisters ::
  "tcp_run \<Rightarrow> 16 word \<Rightarrow> 16 word \<Rightarrow> tcp_client \<Rightarrow> tcp_client \<times> (modbus_error + 16 word list)" where
  "tcp_ReadHoldingRegisters n address quantity c =
     (if quantity = 0 \<or> 125 < quantity then (c, Inl BadQuantity)
      else case tcp_roundTrip n (0x03 # bytes16 (unat address) @ bytes16 (unat quantity)) c of
        (c', Inl e) \<Rightarrow> (c', Inl e)
      | (c', Inr body) \<Rightarrow>
          (c', if length body < 2 \<or> body ! 0 \<noteq> 0x03 \<or> unat (body ! 1) \<noteq> unat quantity * 2 \<or> length body \<noteq> 2 + unat (body ! 1)
               then Inl BadReadReply else Inr (map (register body 2) [0..<unat quantity])))"

definition tcp_WriteSingleRegister ::
  "tcp_run \<Rightarrow> 16 word \<Rightarrow> 16 word \<Rightarrow> tcp_client \<Rightarrow> tcp_client \<times> modbus_error option" where
  "tcp_WriteSingleRegister n address value c =
     (case tcp_roundTrip n (0x06 # bytes16 (unat address) @ bytes16 (unat value)) c of
        (c', Inl e) \<Rightarrow> (c', Some e)
      | (c', Inr body) \<Rightarrow>
          (c', if length body \<noteq> 5 \<or> body ! 0 \<noteq> 0x06 then Some BadWriteReply
               else if be16 (body ! 1) (body ! 2) \<noteq> address \<or> be16 (body ! 3) (body ! 4) \<noteq> value then Some EchoMismatch
               else None))"

subsection \<open>Poller\<close>

record connector_event =
  ce_Topic :: string
  ce_Payload :: json
  ce_Headers :: str_map

record health =
  he_Healthy :: bool
  he_Message :: string

record poller_config =
  pc_Transport :: string
  pc_Address :: string
  pc_Device :: string
  pc_Baud :: int
  pc_DataBits :: int
  pc_Parity :: string
  pc_StopBits :: int
  pc_UnitID :: "8 word"
  pc_Start :: "16 word"
  pc_Quantity :: "16 word"
  pc_Topic :: string
  pc_Interval :: string
  pc_Timeout :: string

datatype modbus_transport = Tcp tcp_client | Rtu rtu_client

record poller =
  po_name :: string
  po_cfg :: poller_config
  po_cli :: modbus_transport
  po_transport :: string
  po_ival :: duration
  po_last :: string

datatype poller_error =
    BadConfig string | TopicRequired | QuantityRange "16 word" | BadInterval | IntervalNotPositive
  | BadTimeout | TimeoutNotPositive | AddressRequired | PollerDeviceRequired | BadBaud int | BadTransport string

definition supported_baud :: "int \<Rightarrow> bool" where
  "supported_baud baud \<longleftrightarrow> baud \<in> {0, 1200, 2400, 4800, 9600, 19200, 38400, 57600, 115200, 230400}"

text \<open>An optional duration that must be positive.\<close>

definition positive_duration :: "string \<Rightarrow> duration \<Rightarrow> 'e \<Rightarrow> 'e \<Rightarrow> 'e + duration" where
  "positive_duration s dflt bad notpos =
     (if s = [] then Inr dflt
      else case parse_duration s of None \<Rightarrow> Inl bad | Some d \<Rightarrow> if d \<le> 0 then Inl notpos else Inr d)"

definition poller_client :: "string \<Rightarrow> duration \<Rightarrow> poller_config \<Rightarrow> poller_error + poller_config \<times> modbus_transport" where
  "poller_client transport timeout cfg =
     (if transport = ''tcp'' then
        if pc_Address cfg = [] then Inl AddressRequired
        else Inr (cfg, Tcp \<lparr>tc_Address = pc_Address cfg, tc_UnitID = pc_UnitID cfg, tc_Timeout = timeout, tc_tx = 0\<rparr>)
      else if transport = ''rtu'' then
        if pc_Device cfg = [] then Inl PollerDeviceRequired
        else
          (let cfg' = cfg\<lparr>pc_Baud := (if pc_Baud cfg = 0 then 9600 else pc_Baud cfg),
                 pc_DataBits := (if pc_DataBits cfg = 0 then 8 else pc_DataBits cfg),
                 pc_Parity := (if pc_Parity cfg = [] then ''none'' else pc_Parity cfg),
                 pc_StopBits := (if pc_StopBits cfg = 0 then 1 else pc_StopBits cfg)\<rparr>
           in if \<not> supported_baud (pc_Baud cfg') then Inl (BadBaud (pc_Baud cfg'))
              else Inr (cfg', Rtu \<lparr>ru_Device = pc_Device cfg', ru_UnitID = pc_UnitID cfg', ru_Baud = pc_Baud cfg',
                     ru_DataBits = pc_DataBits cfg', ru_Parity = pc_Parity cfg', ru_StopBits = pc_StopBits cfg', ru_Timeout = timeout\<rparr>))
      else Inl (BadTransport transport))"

definition NewPoller :: "string \<Rightarrow> string + poller_config \<Rightarrow> poller_error + poller" where
  "NewPoller name raw =
     (case raw of
        Inl e \<Rightarrow> Inl (BadConfig e)
      | Inr cfg0 \<Rightarrow>
          (let tr0 = to_lower (trim_space (pc_Transport cfg0));
               transport = (if tr0 = [] then ''tcp'' else tr0)
           in if pc_Topic cfg0 = [] then Inl TopicRequired
              else
                (let cfg = (if pc_Quantity cfg0 = 0 then cfg0\<lparr>pc_Quantity := 1\<rparr> else cfg0)
                 in if 125 < pc_Quantity cfg then Inl (QuantityRange (pc_Quantity cfg))
                    else case positive_duration (pc_Interval cfg) (5 * second) BadInterval IntervalNotPositive of
                      Inl e \<Rightarrow> Inl e
                    | Inr ival \<Rightarrow>
                        (case positive_duration (pc_Timeout cfg) (3 * second) BadTimeout TimeoutNotPositive of
                           Inl e \<Rightarrow> Inl e
                         | Inr timeout \<Rightarrow>
                             (case poller_client transport timeout cfg of
                                Inl e \<Rightarrow> Inl e
                              | Inr (cfg', cli) \<Rightarrow>
                                  Inr \<lparr>po_name = (if name = [] then ''modbus'' else name), po_cfg = cfg', po_cli = cli,
                                     po_transport = transport, po_ival = ival, po_last = []\<rparr>)))))"

definition poll_event :: "poller \<Rightarrow> 16 word list \<Rightarrow> connector_event" where
  "poll_event p regs =
     \<lparr>ce_Topic = pc_Topic (po_cfg p),
      ce_Payload = JObj [(''quantity'', JInt (uint (pc_Quantity (po_cfg p)))), (''registers'', JArr (map (\<lambda>r. JInt (uint r)) regs)),
        (''start'', JInt (uint (pc_Start (po_cfg p)))), (''transport'', JStr (po_transport p)), (''unit_id'', JInt (uint (pc_UnitID (po_cfg p))))],
      ce_Headers = [(''x-nodra-ingress'', ''modbus''), (''x-nodra-connector'', po_name p), (''x-modbus-transport'', po_transport p)]\<rparr>"

text \<open>One \<^verbatim>\<open>poll\<close>: the runs of the port and of the connection, the text of an error, and the handler,
  which gives its error.  The result has the events handed over.\<close>

definition read_registers :: "port_run \<Rightarrow> tcp_run \<Rightarrow> poller \<Rightarrow> poller \<times> (modbus_error + 16 word list)" where
  "read_registers pr tr p =
     (case po_cli p of
        Rtu c \<Rightarrow> (p, rtu_ReadHoldingRegisters c pr (pc_Start (po_cfg p)) (pc_Quantity (po_cfg p)))
      | Tcp c \<Rightarrow>
          (case tcp_ReadHoldingRegisters tr (pc_Start (po_cfg p)) (pc_Quantity (po_cfg p)) c of
             (c', r) \<Rightarrow> (p\<lparr>po_cli := Tcp c'\<rparr>, r)))"

definition poll ::
  "(modbus_error \<Rightarrow> string) \<Rightarrow> (connector_event \<Rightarrow> string option) \<Rightarrow> port_run \<Rightarrow> tcp_run \<Rightarrow> poller \<Rightarrow> poller \<times> connector_event list" where
  "poll etext h pr tr p0 =
     (case read_registers pr tr p0 of
        (p, Inl e) \<Rightarrow> (p\<lparr>po_last := etext e\<rparr>, [])
      | (p, Inr regs) \<Rightarrow>
          (let ev = poll_event p regs
           in (p\<lparr>po_last := (case h ev of Some e \<Rightarrow> e | None \<Rightarrow> ''ok'')\<rparr>, [ev])))"

definition Health :: "poller \<Rightarrow> health" where
  "Health p = \<lparr>he_Healthy = (po_last p = [] \<or> po_last p = ''ok''), he_Message = po_last p\<rparr>"

subsection \<open>Lemmas: the checksum\<close>

text \<open>A step is linear and has an inverse, because the polynomial has the top bit.\<close>

lemma odd_word: "(c :: 16 word) AND 1 \<noteq> 0 \<longleftrightarrow> bit c 0"
  by (simp add: and_one_eq bit_0 odd_iff_mod_2_eq_one)

lemma crc_bit_bit: "bit (crc_bit c) n \<longleftrightarrow> (bit c (Suc n) \<noteq> (bit c 0 \<and> bit (0xa001 :: 16 word) n))"
  by (simp add: crc_bit_def odd_word bit_xor_iff bit_drop_bit_eq)

lemma crc_bit_xor: "crc_bit (a XOR b) = crc_bit a XOR crc_bit b"
  by (rule bit_word_eqI) (auto simp: crc_bit_bit bit_xor_iff)

lemma crc_bit_0 [simp]: "crc_bit 0 = 0"
  by (simp add: crc_bit_def)

lemma crc_bit_eq_0: "crc_bit c = 0 \<Longrightarrow> c = 0"
proof -
  assume z: "crc_bit c = 0"
  have "\<not> bit (crc_bit c) 15" using z by simp
  then have b0: "\<not> bit c 0" using bit_imp_le_length[of c 16] by (auto simp: crc_bit_bit)
  show ?thesis
  proof (rule bit_word_eqI)
    fix n assume "n < LENGTH(16)"
    show "bit c n = bit 0 n"
    proof (cases n)
      case (Suc m)
      have "\<not> bit (crc_bit c) m" using z by simp
      then show ?thesis using b0 Suc by (simp add: crc_bit_bit)
    qed (use b0 in simp)
  qed
qed

lemma word_xor_0: "(a :: 16 word) XOR b = 0 \<longleftrightarrow> a = b"
  by (auto simp: bit_eq_iff bit_xor_iff)

lemma crc_bits_xor: "(crc_bit ^^ n) (a XOR b) = (crc_bit ^^ n) a XOR (crc_bit ^^ n) b"
  by (induction n) (simp_all add: crc_bit_xor)

lemma crc_bits_eq_0: "(crc_bit ^^ n) c = 0 \<Longrightarrow> c = 0"
  by (induction n) (auto dest: crc_bit_eq_0)

lemma crc_bits_0 [simp]: "(crc_bit ^^ n) 0 = 0"
  by (induction n) simp_all

lemma crc_bits_drop: "(\<forall>i < n. \<not> bit c i) \<Longrightarrow> (crc_bit ^^ n) c = drop_bit n c"
proof (induction n arbitrary: c)
  case (Suc n)
  have "crc_bit c = drop_bit 1 c" using Suc.prems by (simp add: crc_bit_def odd_word)
  moreover have "\<forall>i < n. \<not> bit (drop_bit 1 c) i" using Suc.prems by (simp add: bit_drop_bit_eq)
  ultimately show ?case using Suc.IH[of "drop_bit 1 c"] by (simp add: funpow_swap1 drop_bit_drop_bit)
qed simp

text \<open>Two bytes are one step of sixteen bits on the state and the two bytes as a word.\<close>

definition le16 :: "8 word \<Rightarrow> 8 word \<Rightarrow> 16 word" where
  "le16 a b = ucast a OR push_bit 8 (ucast b)"

lemma le16_bit: "bit (le16 a b) n \<longleftrightarrow> (if n < 8 then bit a n else n < 16 \<and> bit b (n - 8))"
  by (auto simp: le16_def bit_or_iff bit_push_bit_iff bit_ucast_iff dest: bit_imp_le_length)

lemma le16_inj: "le16 a b = le16 a' b' \<longleftrightarrow> a = a' \<and> b = b'"
proof
  assume e: "le16 a b = le16 a' b'"
  have "a = a'"
  proof (rule bit_word_eqI)
    fix n assume "n < LENGTH(8)"
    then show "bit a n = bit a' n" using e le16_bit[of a b n] le16_bit[of a' b' n] by simp
  qed
  moreover have "b = b'"
  proof (rule bit_word_eqI)
    fix n assume "n < LENGTH(8)"
    then show "bit b n = bit b' n" using e le16_bit[of a b "n + 8"] le16_bit[of a' b' "n + 8"] by simp
  qed
  ultimately show "a = a' \<and> b = b'" by simp
qed simp

lemma le16_parts: "le16 (ucast c) (ucast (drop_bit 8 c)) = c"
  by (rule bit_word_eqI) (auto simp: le16_bit bit_ucast_iff bit_drop_bit_eq)

lemma crc_byte2: "crc_byte (crc_byte c a) b = (crc_bit ^^ 16) (c XOR le16 a b)"
proof -
  let ?b = "push_bit 8 (ucast b) :: 16 word"
  have s: "c XOR le16 a b = (c XOR ucast a) XOR ?b"
    by (rule bit_word_eqI) (auto simp: bit_xor_iff le16_bit bit_ucast_iff bit_push_bit_iff dest: bit_imp_le_length)
  have l: "bit b n \<Longrightarrow> n < 8" for n using bit_imp_le_length[of b n] by simp
  have d: "(crc_bit ^^ 8) ?b = ucast b"
    by (subst crc_bits_drop) (auto simp: bit_push_bit_iff intro!: bit_word_eqI simp: bit_drop_bit_eq bit_ucast_iff dest: l)
  have "(crc_bit ^^ 16) x = (crc_bit ^^ 8) ((crc_bit ^^ 8) x)" for x
    using funpow_add[of 8 8 crc_bit] by simp
  then show ?thesis by (simp add: crc_byte_def s crc_bits_xor d)
qed

lemma crc_byte_xor_0: "foldl crc_byte c bs = foldl crc_byte c' bs \<Longrightarrow> c = c'"
proof (induction bs arbitrary: c c')
  case (Cons b bs)
  then have "crc_byte c b = crc_byte c' b" by simp
  then have "(crc_bit ^^ 8) ((c XOR ucast b) XOR (c' XOR ucast b)) = 0"
    unfolding crc_bits_xor[of 8 "c XOR ucast b"] by (simp add: crc_byte_def)
  from crc_bits_eq_0[OF this] have "c XOR c' = 0" by (simp add: ac_simps)
  then show ?case by (simp add: word_xor_0)
qed simp

text \<open>A frame is valid when the checksum over all of it, its own two bytes included, is zero.\<close>

lemma validCRC_snoc: "validCRC (xs @ [a, b]) \<longleftrightarrow> xs \<noteq> [] \<and> crc16 xs = le16 a b"
  by (cases xs) (auto simp: validCRC_def le16_def nth_append)

lemma validCRC_zero: "validCRC fr \<longleftrightarrow> 3 \<le> length fr \<and> crc16 fr = 0"
proof (cases "3 \<le> length fr")
  case True
  obtain xs a b where f: "fr = xs @ [a, b]" "xs \<noteq> []"
  proof
    show "fr = take (length fr - 2) fr @ [fr ! (length fr - 2), fr ! (length fr - 1)]"
      using True by (intro nth_equalityI) (auto simp: nth_append nth_Cons' min_def intro!: arg_cong[where f = "(!) fr"])
    show "take (length fr - 2) fr \<noteq> []" using True by auto
  qed
  have "crc16 fr = (crc_bit ^^ 16) (crc16 xs XOR le16 a b)" by (simp add: f crc16_def crc_byte2)
  then have "crc16 fr = 0 \<longleftrightarrow> crc16 xs XOR le16 a b = 0" by (metis crc_bits_eq_0 crc_bits_0)
  then show ?thesis using True f validCRC_snoc[of xs a b] by (simp add: word_xor_0)
qed (simp add: validCRC_def)

lemma appendCRC_valid: "fr \<noteq> [] \<Longrightarrow> validCRC (appendCRC fr)"
  by (simp add: appendCRC_def Let_def validCRC_snoc le16_parts)

subsection \<open>Lemmas: frames\<close>

text \<open>However the bytes of a reply arrive, the loop puts them together.\<close>

lemma exception_prefix: "is_exception response \<Longrightarrow> is_exception (response @ bs)"
  by (simp add: is_exception_def nth_append)

lemma not_exception_prefix: "3 \<le> length response \<Longrightarrow> is_exception (response @ bs) \<longleftrightarrow> is_exception response"
  by (simp add: is_exception_def nth_append)

lemma read_frame_chunks:
  assumes "response @ concat bss = fr" "length fr = (if is_exception fr then 5 else cap)" "5 \<le> cap"
  shows "read_frame cap (map (\<lambda>b. Got b None) bss @ rs) (if is_exception response then 5 else cap) response = Inr fr"
  using assms(1)
proof (induction bss arbitrary: response)
  case Nil
  then show ?case using assms(2) by (cases rs) auto
next
  case (Cons b bss)
  let ?e = "if is_exception response then 5 else cap"
  show ?case
  proof (cases "?e \<le> length response")
    case True
    have "is_exception fr = is_exception response"
      using True Cons.prems assms(3) not_exception_prefix[of response "b @ concat bss"] by (auto split: if_splits)
    then have "length response = length fr" using True assms(2) Cons.prems by (auto split: if_splits)
    then show ?thesis using True Cons.prems by auto
  next
    case False
    have "length response + length b \<le> ?e"
      using Cons.prems assms(2,3) exception_prefix[of response "b @ concat bss"] by (auto split: if_splits)
    then have t: "take (min cap (?e - length response)) b = b" using assms(3) by (auto split: if_splits)
    have e: "(if b \<noteq> [] \<and> is_exception (response @ b) then 5 else ?e) = (if is_exception (response @ b) then 5 else cap)"
      using exception_prefix[of response b] by auto
    show ?thesis using False t e Cons.IH[of "response @ b"] Cons.prems by (simp add: Let_def)
  qed
qed

lemma rtu_reply:
  assumes "ru_Device c \<noteq> []" "pr_open p = None" "snd (writeAll (pr_writes p) request) = None"
    "pr_reads p = map (\<lambda>b. Got b None) bss @ rs" "concat bss = appendCRC body" "body \<noteq> []"
    "length (appendCRC body) = (if is_exception (appendCRC body) then 5 else n)" "5 \<le> n"
  shows "rtu_roundTrip c p request n = Inr (appendCRC body)"
proof -
  have "read_frame n (pr_reads p) n [] = Inr (appendCRC body)"
  proof -
    have "\<not> is_exception []" by (simp add: is_exception_def)
    then show ?thesis using read_frame_chunks[OF _ assms(7,8), of "[]" bss rs] assms(4,5) by simp
  qed
  moreover obtain x where "writeAll (pr_writes p) request = (x, None)" using assms(3) by (cases "writeAll (pr_writes p) request") simp
  ultimately show ?thesis using assms(1,2,6) by (simp add: rtu_roundTrip_def appendCRC_valid)
qed

lemma writeAll_sent: "snd (writeAll ws data) = None \<Longrightarrow> fst (writeAll ws data) = data"
proof (induction ws data rule: writeAll.induct)
  case (5 n err ws b bs)
  then show ?case by (cases err; cases "writeAll ws (drop n (b # bs))") (simp_all del: take_Cons' drop_Cons')
qed simp_all

text \<open>Registers as the bytes of a reply.\<close>

definition register_bytes :: "16 word list \<Rightarrow> bytes" where
  "register_bytes regs = concat (map (\<lambda>r. bytes16 (unat r)) regs)"

lemma length_register_bytes [simp]: "length (register_bytes regs) = 2 * length regs"
  by (induction regs) (simp_all add: register_bytes_def bytes16_def)

lemma register_at:
  assumes "length pre = off" "i < length regs"
  shows "register (pre @ register_bytes regs @ post) off i = regs ! i"
  using assms
proof (induction regs arbitrary: pre off i)
  case (Cons r regs)
  have s: "pre @ register_bytes (r # regs) @ post = (pre @ bytes16 (unat r)) @ register_bytes regs @ post"
    by (simp add: register_bytes_def)
  show ?case
  proof (cases i)
    case 0
    then show ?thesis using Cons.prems by (simp add: register_def register_bytes_def bytes16_def nth_append)
  next
    case (Suc j)
    have "register (pre @ register_bytes (r # regs) @ post) off i = register ((pre @ bytes16 (unat r)) @ register_bytes regs @ post) (off + 2) j"
      unfolding s Suc by (simp add: register_def algebra_simps)
    also have "\<dots> = regs ! j" using Cons.IH[of "pre @ bytes16 (unat r)" "off + 2" j] Cons.prems Suc by (simp add: bytes16_def)
    finally show ?thesis using Suc by simp
  qed
qed simp

lemma registers_back:
  assumes "length pre = off"
  shows "map (register (pre @ register_bytes regs @ post) off) [0..<length regs] = regs"
  using register_at[OF assms] by (intro nth_equalityI) simp_all

lemma tcp_reply_mbap:
  assumes "body \<noteq> []" "length body \<le> 259" "body ! 0 AND 0x80 = 0"
  shows "tcp_reply tx eof (mbap tx unit body @ rest) = Inr body"
proof -
  have "unat (be16 (word_of_nat ((1 + length body) div 256)) (word_of_nat (1 + length body))) = 1 + length body"
    by (rule unat_be16_bytes16) (use assms(2) in simp)
  moreover have "be16 0 0 = 0" by (simp add: be16_def)
  ultimately show ?thesis using assms by (simp add: tcp_reply_def mbap_def bytes16_def Let_def Suc_le_eq)
qed

lemma tcp_read_registers:
  assumes "tr_dial n = None" "tr_write n = None" "1 \<le> length regs" "length regs \<le> 125"
    "tr_stream n = mbap (ucast (tc_tx c + 1)) unit ([0x03, word_of_nat (2 * length regs)] @ register_bytes regs) @ rest"
  shows "tcp_ReadHoldingRegisters n address (word_of_nat (length regs)) c = (c\<lparr>tc_tx := tc_tx c + 1\<rparr>, Inr regs)"
proof -
  let ?q = "word_of_nat (length regs) :: 16 word" and ?body = "[0x03, word_of_nat (2 * length regs)] @ register_bytes regs"
  have u: "unat ?q = length regs" using assms(4) by (simp add: unat_of_nat)
  have q: "?q \<noteq> 0" "\<not> 125 < ?q" using u assms(3,4) by (auto simp: word_less_nat_alt dest: arg_cong[where f = unat])
  have b: "unat (word_of_nat (2 * length regs) :: 8 word) = 2 * length regs" using assms(4) by (simp only: unat_of_nat) simp
  have "tcp_reply (ucast (tc_tx c + 1)) (tr_end n) (tr_stream n) = Inr ?body"
    unfolding assms(5) by (rule tcp_reply_mbap) (use assms(4) in simp_all)
  moreover have "map (register (?body @ []) 2) [0..<length regs] = regs"
    using registers_back[of "[0x03, word_of_nat (2 * length regs)]" 2 regs "[]"] by simp
  ultimately show ?thesis using assms(1,2) q u b by (simp add: tcp_ReadHoldingRegisters_def tcp_roundTrip_def)
qed

text \<open>The length of a reply to a write is checked before the exception bit: an exception of the
  device is reported as a malformed reply, and its code is lost.\<close>

lemma rtu_write_exception_lost:
  assumes "ru_Device c \<noteq> []" "pr_open p = None" "snd (writeAll (pr_writes p) (rtu_write_request c address value)) = None"
    "pr_reads p = map (\<lambda>b. Got b None) bss @ rs" "concat bss = appendCRC [ru_UnitID c, 0x86, code]"
  shows "rtu_WriteSingleRegister c p address value = Some BadWriteReply"
proof -
  have "rtu_roundTrip c p (rtu_write_request c address value) 8 = Inr (appendCRC [ru_UnitID c, 0x86, code])"
    by (rule rtu_reply[OF assms]) (simp_all add: appendCRC_def Let_def is_exception_def)
  then show ?thesis by (simp add: rtu_WriteSingleRegister_def appendCRC_def Let_def)
qed

subsection \<open>Properties\<close>

text \<open>C39: the checksum catches every damage within two adjacent bytes.  If two frames of the serial
  line differ in nothing but two neighbouring bytes, wherever these are, the checksum's own bytes
  included, at most one of the two frames is accepted; and what the client sends is accepted.\<close>

theorem rtu_damage_detected:
  "(validCRC (xs @ [a, b] @ ys) \<and> (a, b) \<noteq> (a', b') \<longrightarrow> \<not> validCRC (xs @ [a', b'] @ ys)) \<and>
   validCRC (rtu_read_request c address quantity) \<and> validCRC (rtu_write_request c address value)"
proof (intro conjI impI)
  assume v: "validCRC (xs @ [a, b] @ ys) \<and> (a, b) \<noteq> (a', b')"
  show "\<not> validCRC (xs @ [a', b'] @ ys)"
  proof
    assume "validCRC (xs @ [a', b'] @ ys)"
    then have "foldl crc_byte (crc_byte (crc_byte (crc16 xs) a) b) ys = foldl crc_byte (crc_byte (crc_byte (crc16 xs) a') b') ys"
      using v by (simp add: validCRC_zero crc16_def)
    then have "crc_byte (crc_byte (crc16 xs) a) b = crc_byte (crc_byte (crc16 xs) a') b'" by (rule crc_byte_xor_0)
    then have "(crc_bit ^^ 16) ((crc16 xs XOR le16 a b) XOR (crc16 xs XOR le16 a' b')) = 0"
      unfolding crc_bits_xor[of 16 "crc16 xs XOR le16 a b"] by (simp add: crc_byte2)
    from crc_bits_eq_0[OF this] have "le16 a b = le16 a' b'" by (simp add: ac_simps word_xor_0)
    then show False using v by (simp add: le16_inj)
  qed
qed (simp_all add: rtu_read_request_def rtu_write_request_def appendCRC_valid)

theorem rtu_damage_detected_witness:
  "validCRC ([1] @ [3, ucast (crc16 [1, 3])] @ [ucast (drop_bit 8 (crc16 [1, 3]))]) \<and>
   \<not> validCRC ([1] @ [4, ucast (crc16 [1, 3]) + 1] @ [ucast (drop_bit 8 (crc16 [1, 3]))])"
proof -
  have "validCRC ([1] @ [3, ucast (crc16 [1, 3])] @ [ucast (drop_bit 8 (crc16 [1, 3]))])"
    using appendCRC_valid[of "[1, 3]"] by (simp add: appendCRC_def Let_def)
  then show ?thesis
    using rtu_damage_detected[of "[1]" 3 "ucast (crc16 [1, 3])" "[ucast (drop_bit 8 (crc16 [1, 3]))]" 4 "ucast (crc16 [1, 3]) + 1"] by simp
qed

text \<open>C40: reading registers over the serial line.  When the device answers with the registers it was
  asked for, the client returns exactly these, however the reply is cut into reads, with empty reads
  in between; when it answers with an exception, the client reports its code; and the request has
  reached the line whole.\<close>

theorem rtu_read_registers:
  assumes "ru_Device c \<noteq> []" and "pr_open p = None"
    and "snd (writeAll (pr_writes p) (rtu_read_request c address (word_of_nat (length regs)))) = None"
    and "1 \<le> length regs" and "length regs \<le> 125" and "pr_reads p = map (\<lambda>b. Got b None) bss @ rs"
  shows "fst (writeAll (pr_writes p) (rtu_read_request c address (word_of_nat (length regs)))) =
      rtu_read_request c address (word_of_nat (length regs)) \<and>
    (concat bss = appendCRC ([ru_UnitID c, 0x03, word_of_nat (2 * length regs)] @ register_bytes regs) \<longrightarrow>
       rtu_ReadHoldingRegisters c p address (word_of_nat (length regs)) = Inr regs) \<and>
    (concat bss = appendCRC [ru_UnitID c, 0x83, code] \<longrightarrow>
       rtu_ReadHoldingRegisters c p address (word_of_nat (length regs)) = Inl (ModbusException code))"
proof (intro conjI impI)
  let ?q = "word_of_nat (length regs) :: 16 word"
  have n: "unat ?q = length regs" using assms(5) by (simp add: unat_of_nat)
  have q: "?q \<noteq> 0" "\<not> 125 < ?q" using n assms(4,5) by (auto simp: word_less_nat_alt dest: arg_cong[where f = unat])
  show "fst (writeAll (pr_writes p) (rtu_read_request c address ?q)) = rtu_read_request c address ?q"
    by (rule writeAll_sent[OF assms(3)])
  show "rtu_ReadHoldingRegisters c p address ?q = Inr regs"
    if b: "concat bss = appendCRC ([ru_UnitID c, 0x03, word_of_nat (2 * length regs)] @ register_bytes regs)"
  proof -
    let ?pre = "[ru_UnitID c, 0x03, word_of_nat (2 * length regs)]" and ?f = "appendCRC ([ru_UnitID c, 0x03, word_of_nat (2 * length regs)] @ register_bytes regs)"
    have f: "length ?f = 5 + length regs * 2" "\<not> is_exception ?f" by (simp_all add: appendCRC_def Let_def is_exception_def)
    have "rtu_roundTrip c p (rtu_read_request c address ?q) (5 + unat ?q * 2) = Inr ?f"
      by (rule rtu_reply[OF assms(1-3,6) b]) (use f n in auto)
    moreover obtain post where "?f = ?pre @ register_bytes regs @ post" by (simp add: appendCRC_def Let_def)
    moreover have "map (register (?pre @ register_bytes regs @ post) 3) [0..<length regs] = regs" for post
      by (rule registers_back) simp
    moreover have "unat (word_of_nat (2 * length regs) :: 8 word) = 2 * length regs" using assms(5) by (simp only: unat_of_nat) simp
    ultimately show ?thesis using q n f by (simp add: rtu_ReadHoldingRegisters_def)
  qed
  show "rtu_ReadHoldingRegisters c p address ?q = Inl (ModbusException code)" if b: "concat bss = appendCRC [ru_UnitID c, 0x83, code]"
  proof -
    have "rtu_roundTrip c p (rtu_read_request c address ?q) (5 + unat ?q * 2) = Inr (appendCRC [ru_UnitID c, 0x83, code])"
      by (rule rtu_reply[OF assms(1-3,6) b]) (simp_all add: appendCRC_def Let_def is_exception_def)
    then show ?thesis using q by (simp add: rtu_ReadHoldingRegisters_def appendCRC_def Let_def)
  qed
qed

definition demo_rtu :: rtu_client where
  "demo_rtu = \<lparr>ru_Device = ''/dev/ttyS0'', ru_UnitID = 1, ru_Baud = 9600, ru_DataBits = 8, ru_Parity = ''none'', ru_StopBits = 1, ru_Timeout = 0\<rparr>"

text \<open>The request is written in two parts; the reply arrives in three reads, one of them empty.\<close>

definition demo_port :: "bytes \<Rightarrow> port_run" where
  "demo_port reply = \<lparr>pr_open = None, pr_writes = [Wrote 3 None, Wrote 8 None],
     pr_reads = map (\<lambda>b. Got b None) [take 2 reply, [], drop 2 reply] @ [RDeadline]\<rparr>"

theorem rtu_read_registers_witness:
  "rtu_ReadHoldingRegisters demo_rtu (demo_port (appendCRC [1, 3, 4, 0, 7, 1, 2])) 40 2 = Inr [7, 258] \<and>
   rtu_ReadHoldingRegisters demo_rtu (demo_port (appendCRC [1, 0x83, 2])) 40 2 = Inl (ModbusException 2)"
proof -
  have w: "snd (writeAll (pr_writes (demo_port f)) (rtu_read_request demo_rtu 40 (word_of_nat (length [7, 258 :: 16 word])))) = None" for f
    by (simp add: demo_port_def rtu_read_request_def appendCRC_def Let_def bytes16_def)
  have r: "pr_reads (demo_port f) = map (\<lambda>b. Got b None) [take 2 f, [], drop 2 f] @ [RDeadline]" for f by (simp add: demo_port_def)
  have b: "register_bytes [7, 258] = [0, 7, 1, 2]" by (simp add: register_bytes_def bytes16_def)
  show ?thesis
    using rtu_read_registers[of demo_rtu "demo_port (appendCRC [1, 3, 4, 0, 7, 1, 2])" 40 "[7, 258]", OF _ _ w _ _ r]
      rtu_read_registers[of demo_rtu "demo_port (appendCRC [1, 0x83, 2])" 40 "[7, 258]" _ _ 2, OF _ _ w _ _ r] b
    by (simp add: demo_rtu_def demo_port_def)
qed
end
