(* ===== verification/Spec2Isabelle.thy ===== *)
theory Spec2Isabelle
  imports Mqtt_Broker Tenancy Modbus
begin

text \<open>
  A verification development for Nodra, an edge-to-cloud control plane written in Go.

  \<^bold>\<open>The program.\<close>  An agent runs at each site, takes telemetry over an MQTT broker of its own and over
  HTTP, and spools it.  The control plane (\<^verbatim>\<open>internal/server\<close>) authenticates agents and console
  users, takes the events in, matches them against routes, and delivers them to HTTP targets with
  retries and a dead-letter queue.  It also keeps the fleet: sites and their certificates, devices
  and their twins, deployments checked against policy packs, over-the-air updates and staged
  campaigns, organisations that separate tenants, and an audit trail.  Everything durable is a
  write-ahead log with compaction (\<^verbatim>\<open>internal/store\<close>, \<^verbatim>\<open>internal/queue\<close>) or a file per day
  (\<^verbatim>\<open>internal/audit\<close>).

  \<^bold>\<open>How the code is modelled.\<close>  A struct is a \<^verbatim>\<open>record\<close> with the fields of the source under a
  two-letter prefix, an enumeration a \<^verbatim>\<open>datatype\<close>.  A handler is a function from the configuration,
  the environment of the request (clock, random bytes, outcome of the file write), the decoded
  request and the server to the new server and a reply, \<^verbatim>\<open>Done code body\<close> or \<^verbatim>\<open>Fail code message\<close>; a
  body that does not decode is an \<^verbatim>\<open>Inl\<close>.  Time is an integer of nanoseconds, strings are character
  lists, Go maps are association lists whose keys are replaced in place, and packets are lists of
  8-bit words.  The outcome of every write, sync, rename and truncation is part of the state
  (\<^verbatim>\<open>q_io\<close>, \<^verbatim>\<open>st_io\<close>, \<^verbatim>\<open>ss_io\<close>), so error paths are branches and the theorems hold under all of them
  unless they say otherwise.  Code outside the repository is a parameter: SHA-256 (\<^verbatim>\<open>c_sha\<close>), the JSON
  codec of queue entries (\<^verbatim>\<open>codec\<close>), X.509 and ECDSA (record \<^verbatim>\<open>ca\<close>), URL and duration parsing
  (record \<^verbatim>\<open>fleet_cfg\<close>), and the answers of delivery targets.

  \<^bold>\<open>Theories.\<close>
  \<^item> \<^verbatim>\<open>Prelude\<close>: list operations the components share (bounded windows, replacing the first match).
    \<^verbatim>\<open>Go_Strings\<close>: \<^verbatim>\<open>strings\<close> and \<^verbatim>\<open>strconv\<close> as far as they are used, with join/split and
    print/parse round trips.  \<^verbatim>\<open>Go_Json\<close>: the values of \<^verbatim>\<open>encoding/json\<close> and decoding into fields.
  \<^item> \<^verbatim>\<open>Router\<close> (\<^verbatim>\<open>internal/router\<close>): \<^verbatim>\<open>Match\<close> is equivalent to a specification of MQTT filters.
  \<^item> \<^verbatim>\<open>Ota\<close> (\<^verbatim>\<open>pkg/ota\<close>): the update lifecycle; a committed update passed every stage, runs are bounded,
    the JSON form round-trips.
  \<^item> \<^verbatim>\<open>Model\<close> (\<^verbatim>\<open>internal/model\<close>): one record per struct.
  \<^item> \<^verbatim>\<open>Policy\<close> (\<^verbatim>\<open>internal/policy\<close>): the glob compiled by \<^verbatim>\<open>MatchImage\<close> accepts exactly its fillings;
    \<^verbatim>\<open>Allowed\<close> is the conjunction over the packs that apply.
  \<^item> \<^verbatim>\<open>Queue\<close> (\<^verbatim>\<open>internal/queue\<close>): the log, limits, eviction, replay and compaction.  Accounting and limits
    are invariant, reopening gives the entries back below the compaction threshold, order is first in
    first out, and the append that reaches the threshold is shown to be lost.  The locales
    \<^verbatim>\<open>queue_like\<close> and \<^verbatim>\<open>fifo_queue\<close> are the interface its clients use, interpreted on \<^verbatim>\<open>Put\<close>,
    \<^verbatim>\<open>Delete\<close>, \<^verbatim>\<open>Get\<close> and \<^verbatim>\<open>List\<close>.
  \<^item> \<^verbatim>\<open>Mqtt_Codec\<close> and \<^verbatim>\<open>Mqtt_Broker\<close> (\<^verbatim>\<open>internal/mqtt\<close>): packets with their round trips (locale
    \<^verbatim>\<open>wire_codec\<close>), and the broker as a state with one function per packet type.  Inbound QoS 2 hands a
    message over once, only authorised messages reach the handler, the packet identifier search
    returns exactly when an identifier is free, a resumed session drains its backlog.
  \<^item> \<^verbatim>\<open>Store\<close> (\<^verbatim>\<open>internal/store/store.go\<close>): every operation of the file-backed store.  The window of event
    IDs is invariant under all file-system outcomes, restarts reproduce the state, an event is stored
    once, and what a compaction loses or repeats is shown.  Locale \<^verbatim>\<open>entity_store\<close> is the contract of
    the lookup and update operations, interpreted for five kinds of entity.
  \<^item> \<^verbatim>\<open>Auth\<close> (\<^verbatim>\<open>internal/auth\<close>), \<^verbatim>\<open>Sessions\<close> (\<^verbatim>\<open>internal/server/sessions.go\<close>): tokens, and the session table
    with rotation and revocation.
  \<^item> \<^verbatim>\<open>Audit_Trail\<close> (\<^verbatim>\<open>internal/audit\<close>): appends, retention and paged queries; an export ends and gives
    every matching entry once, newest first.
  \<^item> \<^verbatim>\<open>Server\<close> (\<^verbatim>\<open>internal/server\<close>: \<^verbatim>\<open>server.go\<close>, \<^verbatim>\<open>roles.go\<close>, \<^verbatim>\<open>activity.go\<close>): bearer resolution, the admin
    gate, organisation scope, login and its limiter, custom roles.
  \<^item> \<^verbatim>\<open>Relay\<close> (\<^verbatim>\<open>server.go\<close>): ingestion, delivery attempts, the worker tick and the dead-letter endpoints;
    a promised delivery is never lost, except by the race that is also shown.
  \<^item> \<^verbatim>\<open>Pki\<close> (\<^verbatim>\<open>internal/pki\<close>), \<^verbatim>\<open>Fleet\<close>, \<^verbatim>\<open>Deployments\<close>, \<^verbatim>\<open>Ota_Server\<close> (\<^verbatim>\<open>server.go\<close>, \<^verbatim>\<open>ztp.go\<close>, \<^verbatim>\<open>ota.go\<close>,
    \<^verbatim>\<open>ota_campaign.go\<close>): every other handler of the control plane.
  \<^item> \<^verbatim>\<open>Isolation\<close>: what it means that a request of one organisation leaves the entities of the others
    alone, and that each console handler does.

  \<^bold>\<open>Bounds and fuel.\<close>  \<^verbatim>\<open>nextOutPacketID\<close> and the export loop are \<^verbatim>\<open>partial_function (option)\<close>, so a
  search that never ends is \<^verbatim>\<open>None\<close> and returning is a theorem.  \<^verbatim>\<open>serve_bytes\<close> takes the number of
  packets to read as fuel; a connection of \<^verbatim>\<open>n\<close> bytes holds at most \<^verbatim>\<open>n div 2\<close> packets.  All other loops
  are structural or have a measure.  The thresholds 4096, 2048, 20000, 2000, 500 and 5 are those of
  the source.

  \<^bold>\<open>Not modelled.\<close>  The Postgres back ends, OpenID Connect, telemetry export, leader election and the
  raw listeners are input/output or clients of services whose behaviour is not in the repository.
  Goroutines are modelled as interleavings of calls that hold one lock each; data races on
  unlocked fields are outside the model.
\<close>

end
